(* ===== verification/Go_Prelude.thy ===== *)
theory Go_Prelude
  imports Main "HOL-Library.Sublist"
begin

text \<open>
  What the components share: Go's error values, the results of a Go function that may fail or
  panic, actions (functions of a state that return such a result), the history rules that say
  which events an action appends to a trace, and the few functions of Go's \<open>strings\<close>,
  \<open>strconv\<close> and \<open>fmt\<close> the code calls. A Go \<open>string\<close> is a list of bytes, here a char list.
\<close>

named_theorems hist_intros "rules that build a history fact along the program text"
named_theorems act_simps "characteristic equations of actions"

section \<open>Errors and results\<close>

text \<open>
  Go errors. \<open>ApiError\<close> is an error made by code outside the repository, \<open>ErrorText\<close> one made by
  \<open>errors.New\<close> or by \<open>fmt.Errorf\<close> without a wrapped error, \<open>Wrapped\<close> is \<open>fmt.Errorf("...: %w", err)\<close>
  and \<open>Joined\<close> is \<open>errors.Join\<close> of non-nil errors. The sentinel values of \<open>errors.Is\<close> are
  constructors of their own, and \<open>DecodeError\<close> is a client's error on an answer of another kind.
\<close>

datatype goerr =
    ApiError string
  | ErrorText string
  | Wrapped string goerr
  | Joined "goerr list"
  | DecodeError
  | ResourceIsDeleting
  | ContextCanceled

text \<open>\<open>errors.Is err target\<close>: walk the tree of wrapped errors.\<close>

fun errors_is :: "goerr \<Rightarrow> goerr \<Rightarrow> bool" where
  "errors_is (Wrapped msg e) t = (Wrapped msg e = t \<or> errors_is e t)"
| "errors_is (Joined es) t = (Joined es = t \<or> (\<exists>e \<in> set es. errors_is e t))"
| "errors_is e t = (e = t)"

text \<open>\<open>errors.Join\<close> of two possibly nil errors.\<close>

fun errors_join :: "goerr option \<Rightarrow> goerr option \<Rightarrow> goerr option" where
  "errors_join None None = None"
| "errors_join (Some e) None = Some (Joined [e])"
| "errors_join None (Some e) = Some (Joined [e])"
| "errors_join (Some e) (Some e') = Some (Joined [e, e'])"

lemma errors_join_None_iff [simp]: "errors_join a b = None \<longleftrightarrow> a = None \<and> b = None"
  by (cases a; cases b) auto

lemma errors_is_refl [simp]: "errors_is e e"
  by (cases e) auto

lemma errors_is_join:
  "errors_join a b = Some e \<Longrightarrow> a = Some x \<or> b = Some x \<Longrightarrow> errors_is x t \<Longrightarrow> errors_is e t"
  by (cases a; cases b) auto

text \<open>What a Go function returns: a value with a nil error, an error, or it panics.\<close>

datatype 'a res = Ok 'a | Fail goerr | Panic string

fun of_sum :: "goerr + 'a \<Rightarrow> 'a res" where
  "of_sum (Inl e) = Fail e"
| "of_sum (Inr x) = Ok x"

lemma of_sum_eq_simps [simp]:
  "of_sum r = Ok x \<longleftrightarrow> r = Inr x"
  "of_sum r = Fail e \<longleftrightarrow> r = Inl e"
  "of_sum r \<noteq> Panic p"
  "Ok x = of_sum r \<longleftrightarrow> r = Inr x"
  "Fail e = of_sum r \<longleftrightarrow> r = Inl e"
  "Panic p \<noteq> of_sum r"
  by (cases r; auto)+

lemma res_okE:
  assumes "case r of Ok x \<Rightarrow> P x | Fail e \<Rightarrow> False | Panic q \<Rightarrow> False"
  obtains x where "r = Ok x" "P x"
  using assms by (cases r) auto

section \<open>Actions\<close>

type_synonym ('s, 'a) act = "'s \<Rightarrow> 'a res \<times> 's"

definition ret :: "'a \<Rightarrow> ('s, 'a) act" where
  "ret x = (\<lambda>s. (Ok x, s))"

definition fail :: "goerr \<Rightarrow> ('s, 'a) act" where
  "fail e = (\<lambda>s. (Fail e, s))"

definition panic :: "string \<Rightarrow> ('s, 'a) act" where
  "panic p = (\<lambda>s. (Panic p, s))"

definition pure :: "goerr + 'a \<Rightarrow> ('s, 'a) act" where
  "pure r = (\<lambda>s. (of_sum r, s))"

text \<open>
  \<open>bindA m f\<close> is the Go idiom \<open>x, err := m; if err != nil { return ..., err }; f(x)\<close>; a panic in
  \<open>m\<close> skips \<open>f\<close> as well.
\<close>

definition bindA :: "('s, 'a) act \<Rightarrow> ('a \<Rightarrow> ('s, 'b) act) \<Rightarrow> ('s, 'b) act" where
  "bindA m f = (\<lambda>s. case m s of
       (Ok x, s') \<Rightarrow> f x s'
     | (Fail e, s') \<Rightarrow> (Fail e, s')
     | (Panic p, s') \<Rightarrow> (Panic p, s'))"

text \<open>\<open>return fmt.Errorf("msg: %w", err)\<close> on an error of \<open>m\<close>.\<close>

definition wrapE :: "string \<Rightarrow> ('s, 'a) act \<Rightarrow> ('s, 'a) act" where
  "wrapE msg m = (\<lambda>s. case m s of
       (Ok x, s') \<Rightarrow> (Ok x, s')
     | (Fail e, s') \<Rightarrow> (Fail (Wrapped msg e), s')
     | (Panic p, s') \<Rightarrow> (Panic p, s'))"

text \<open>\<open>err := m\<close>, the error kept as a value for the code after it to look at.\<close>

definition tryA :: "('s, 'a) act \<Rightarrow> ('s, goerr + 'a) act" where
  "tryA m = (\<lambda>s. case m s of
       (Ok x, s') \<Rightarrow> (Ok (Inr x), s')
     | (Fail e, s') \<Rightarrow> (Ok (Inl e), s')
     | (Panic p, s') \<Rightarrow> (Panic p, s'))"

text \<open>
  A \<open>for ... range\<close> loop whose body may return from the function with an error: the loop stops at
  the first error. \<open>forA\<close> threads the local variables the body assigns, \<open>eachA\<close> has none.
\<close>

fun forA :: "('a \<Rightarrow> 'l \<Rightarrow> ('s, 'l) act) \<Rightarrow> 'a list \<Rightarrow> 'l \<Rightarrow> ('s, 'l) act" where
  "forA f [] l = ret l"
| "forA f (x # xs) l = bindA (f x l) (forA f xs)"

definition eachA :: "('a \<Rightarrow> ('s, unit) act) \<Rightarrow> 'a list \<Rightarrow> ('s, unit) act" where
  "eachA f xs = forA (\<lambda>x _. f x) xs ()"

text \<open>A loop whose body may make the function return early without an error.\<close>

fun stepA :: "('a \<Rightarrow> 'l \<Rightarrow> ('s, 'l option) act) \<Rightarrow> 'a list \<Rightarrow> 'l \<Rightarrow> ('s, 'l option) act" where
  "stepA f [] l = ret (Some l)"
| "stepA f (x # xs) l =
     bindA (f x l) (\<lambda>r. case r of None \<Rightarrow> ret None | Some l' \<Rightarrow> stepA f xs l')"

lemma ret_apply: "ret x s = (Ok x, s)"
  by (simp add: ret_def)

lemma fail_apply: "fail e s = (Fail e, s)"
  by (simp add: fail_def)

lemma panic_apply: "panic p s = (Panic p, s)"
  by (simp add: panic_def)

lemmas apply_simps = ret_apply fail_apply panic_apply

lemma run_iffs [simp]:
  "ret x s = (r, s') \<longleftrightarrow> r = Ok x \<and> s' = s"
  "fail e s = (r, s') \<longleftrightarrow> r = Fail e \<and> s' = s"
  "panic p s = (r, s') \<longleftrightarrow> r = Panic p \<and> s' = s"
  by (auto simp: apply_simps)

lemma pure_run_iff [simp]:
  "pure r s = (Ok x, s') \<longleftrightarrow> r = Inr x \<and> s' = s" "pure r s = (Fail e, s') \<longleftrightarrow> r = Inl e \<and> s' = s"
  "\<not> pure r s = (Panic p, s')"
  by (auto simp: pure_def)

lemma pure_simps [simp, act_simps]: "pure (Inl e) = fail e" "pure (Inr x) = ret x"
  by (simp_all add: pure_def fun_eq_iff apply_simps)

lemma bindA_ret [simp, act_simps]: "bindA (ret x) f = f x"
  by (simp add: bindA_def ret_def)

lemma bindA_fail [simp, act_simps]: "bindA (fail e) f = fail e"
  by (simp add: bindA_def fail_def fun_eq_iff)

lemma bindA_panic [simp, act_simps]: "bindA (panic p) f = panic p"
  by (simp add: bindA_def panic_def fun_eq_iff)

lemma bindA_ret_right [simp]: "bindA m ret = m"
  by (auto simp: bindA_def fun_eq_iff ret_apply split: prod.splits res.splits)

lemma bindA_assoc: "bindA (bindA m f) g = bindA m (\<lambda>x. bindA (f x) g)"
  by (auto simp: bindA_def fun_eq_iff split: prod.splits res.splits)

lemma bindA_run:
  "m s = (Ok x, s') \<Longrightarrow> bindA m f s = f x s'"
  "m s = (Fail e, s') \<Longrightarrow> bindA m f s = (Fail e, s')"
  "m s = (Panic p, s') \<Longrightarrow> bindA m f s = (Panic p, s')"
  by (auto simp: bindA_def)

lemma bindA_OkE:
  assumes "bindA m f s = (Ok y, s')"
  obtains x s1 where "m s = (Ok x, s1)" "f x s1 = (Ok y, s')"
  using assms by (auto simp: bindA_def split: prod.splits res.splits)

lemma wrapE_run:
  "m s = (Ok x, s') \<Longrightarrow> wrapE msg m s = (Ok x, s')"
  "m s = (Fail e, s') \<Longrightarrow> wrapE msg m s = (Fail (Wrapped msg e), s')"
  "m s = (Panic p, s') \<Longrightarrow> wrapE msg m s = (Panic p, s')"
  by (auto simp: wrapE_def)

lemma wrapE_simps [simp, act_simps]:
  "wrapE msg (ret x) = ret x"
  "wrapE msg (fail e) = fail (Wrapped msg e)"
  "wrapE msg (panic p) = panic p"
  by (auto simp: wrapE_def ret_def fail_def panic_def)

lemma wrapE_Ok_iff [simp]: "wrapE msg m s = (Ok x, s') \<longleftrightarrow> m s = (Ok x, s')"
  by (auto simp: wrapE_def split: prod.splits res.splits)

lemma tryA_run:
  "m s = (Ok x, s') \<Longrightarrow> tryA m s = (Ok (Inr x), s')"
  "m s = (Fail e, s') \<Longrightarrow> tryA m s = (Ok (Inl e), s')"
  "m s = (Panic p, s') \<Longrightarrow> tryA m s = (Panic p, s')"
  by (auto simp: tryA_def)

lemma tryA_simps [simp, act_simps]:
  "tryA (ret x) = ret (Inr x)"
  "tryA (fail e) = ret (Inl e)"
  "tryA (panic p) = panic p"
  by (auto simp: tryA_def ret_def fail_def panic_def)

lemma tryA_Ok_iff:
  "tryA m s = (Ok r, s') \<longleftrightarrow>
     (case r of Inl e \<Rightarrow> m s = (Fail e, s') | Inr x \<Rightarrow> m s = (Ok x, s'))"
  by (auto simp: tryA_def split: prod.splits res.splits sum.splits)

lemma eachA_Nil [simp]: "eachA f [] = ret ()"
  by (simp add: eachA_def)

lemma eachA_Cons [simp]: "eachA f (x # xs) = bindA (f x) (\<lambda>_. eachA f xs)"
  by (simp add: eachA_def)

lemmas run_simps = bindA_run wrapE_run tryA_run

section \<open>Invariants of loops\<close>

text \<open>An invariant of a loop that returned its accumulator.\<close>

lemma forA_invariant:
  assumes "forA f xs l s = (Ok l', s')" and "I l"
    and "\<And>x l s l' s'. x \<in> set xs \<Longrightarrow> I l \<Longrightarrow> f x l s = (Ok l', s') \<Longrightarrow> I l'"
  shows "I l'"
  using assms
proof (induction xs arbitrary: l s)
  case (Cons x xs)
  then obtain l1 s1 where "f x l s = (Ok l1, s1)" and "forA f xs l1 s1 = (Ok l', s')"
    by (auto elim!: bindA_OkE)
  with Cons show ?case by (metis list.set_intros)
qed auto

text \<open>What every iteration establishes and the later ones keep holds at the end, for every element.\<close>

lemma forA_each:
  assumes "forA f xs l s = (Ok l', s')"
    and "\<And>x l s l' s'. x \<in> set xs \<Longrightarrow> f x l s = (Ok l', s') \<Longrightarrow> Q x l'"
    and "\<And>x y l s l' s'. Q x l \<Longrightarrow> f y l s = (Ok l', s') \<Longrightarrow> Q x l'"
  shows "\<forall>x \<in> set xs. Q x l'"
  using assms(1,2)
proof (induction xs arbitrary: l s)
  case (Cons x xs)
  then obtain l1 s1 where run: "f x l s = (Ok l1, s1)" "forA f xs l1 s1 = (Ok l', s')"
    by (auto elim!: bindA_OkE)
  have "Q x l1" using Cons.prems(2) run(1) by auto
  with run(2) have "Q x l'" by (rule forA_invariant) (rule assms(3))
  moreover have "\<forall>y \<in> set xs. Q y l'" using run(2) by (rule Cons.IH) (use Cons.prems(2) in auto)
  ultimately show ?case by simp
qed auto

lemma stepA_invariant:
  assumes "stepA f xs l s = (Ok (Some l'), s')" and "I l"
    and "\<And>x l s l' s'. x \<in> set xs \<Longrightarrow> I l \<Longrightarrow> f x l s = (Ok (Some l'), s') \<Longrightarrow> I l'"
  shows "I l'"
  using assms
proof (induction xs arbitrary: l s)
  case (Cons x xs)
  then obtain l1 s1 where "f x l s = (Ok (Some l1), s1)" and "stepA f xs l1 s1 = (Ok (Some l'), s')"
    by (auto elim!: bindA_OkE split: option.splits)
  with Cons show ?case by (metis list.set_intros)
qed auto

lemma enumerate_snd: "ix \<in> set (enumerate n xs) \<Longrightarrow> snd ix \<in> set xs"
  by (cases ix) (auto simp: enumerate_eq_zip dest: set_zip_rightD)

section \<open>Histories\<close>

text \<open>
  \<open>hist tr Q m\<close>: from every state, \<open>m\<close> only appends to the trace that \<open>tr\<close> reads off the state, and
  its result \<open>r\<close> and the appended events \<open>es\<close> satisfy \<open>Q r es\<close>. \<open>emits tr P m\<close> is the case where
  every appended event satisfies \<open>P\<close>.
\<close>

definition hist :: "('s \<Rightarrow> 'e list) \<Rightarrow> ('a \<Rightarrow> 'e list \<Rightarrow> bool) \<Rightarrow> ('s \<Rightarrow> 'a \<times> 's) \<Rightarrow> bool" where
  "hist tr Q m \<longleftrightarrow> (\<forall>s. \<exists>es. tr (snd (m s)) = tr s @ es \<and> Q (fst (m s)) es)"

definition emits :: "('s \<Rightarrow> 'e list) \<Rightarrow> ('e \<Rightarrow> bool) \<Rightarrow> ('s \<Rightarrow> 'a \<times> 's) \<Rightarrow> bool" where
  "emits tr P m \<longleftrightarrow> hist tr (\<lambda>_ es. \<forall>e \<in> set es. P e) m"

lemma histI:
  assumes "\<And>s r s'. m s = (r, s') \<Longrightarrow> \<exists>es. tr s' = tr s @ es \<and> Q r es"
  shows "hist tr Q m"
  unfolding hist_def using assms by (metis prod.collapse)

lemma histE:
  assumes "hist tr Q m" and "m s = (r, s')"
  obtains es where "tr s' = tr s @ es" and "Q r es"
  using assms unfolding hist_def by (metis fst_conv snd_conv)

lemma hist_mono:
  assumes "hist tr Q m" and "\<And>r es. Q r es \<Longrightarrow> Q' r es"
  shows "hist tr Q' m"
  using assms unfolding hist_def by blast

lemma hist_conj:
  assumes "hist tr Q m" and "hist tr Q' m"
  shows "hist tr (\<lambda>r es. Q r es \<and> Q' r es) m"
  unfolding hist_def
proof
  fix s
  from assms obtain es es' where "tr (snd (m s)) = tr s @ es" "Q (fst (m s)) es"
    and "tr (snd (m s)) = tr s @ es'" "Q' (fst (m s)) es'"
    unfolding hist_def by blast
  then show "\<exists>es. tr (snd (m s)) = tr s @ es \<and> Q (fst (m s)) es \<and> Q' (fst (m s)) es"
    by auto
qed

lemma hist_ret: "Q (Ok x) [] \<Longrightarrow> hist tr Q (ret x)"
  by (simp add: hist_def ret_apply)

lemma hist_fail: "Q (Fail e) [] \<Longrightarrow> hist tr Q (fail e)"
  by (simp add: hist_def fail_apply)

lemma hist_panic: "Q (Panic p) [] \<Longrightarrow> hist tr Q (panic p)"
  by (simp add: hist_def panic_apply)

lemma hist_pure: "Q (of_sum r) [] \<Longrightarrow> hist tr Q (pure r)"
  by (simp add: hist_def pure_def)

text \<open>The rule of sequence: \<open>Q1\<close> for the first action, \<open>Q2 x\<close> for what follows its value.\<close>

lemma hist_bind:
  assumes m: "hist tr Q1 m" and f: "\<And>x. hist tr (Q2 x) (f x)"
    and stop: "\<And>e es. Q1 (Fail e) es \<Longrightarrow> Q (Fail e) es"
    and pnc: "\<And>p es. Q1 (Panic p) es \<Longrightarrow> Q (Panic p) es"
    and go: "\<And>x r es es'. Q1 (Ok x) es \<Longrightarrow> Q2 x r es' \<Longrightarrow> Q r (es @ es')"
  shows "hist tr Q (bindA m f)"
proof (rule histI)
  fix s r s'
  assume run: "bindA m f s = (r, s')"
  obtain r1 s1 where m1: "m s = (r1, s1)" by fastforce
  from m m1 obtain es where es: "tr s1 = tr s @ es" "Q1 r1 es" by (rule histE)
  show "\<exists>es. tr s' = tr s @ es \<and> Q r es"
  proof (cases r1)
    case (Ok x)
    with run m1 have "f x s1 = (r, s')" by (simp add: bindA_run)
    with f obtain es' where "tr s' = tr s1 @ es'" "Q2 x r es'" by (rule histE)
    with es Ok go show ?thesis by auto
  next
    case (Fail e)
    with run m1 es stop show ?thesis by (auto simp: bindA_run)
  next
    case (Panic p)
    with run m1 es pnc show ?thesis by (auto simp: bindA_run)
  qed
qed

lemma emitsI:
  assumes "\<And>s r s'. m s = (r, s') \<Longrightarrow> \<exists>es. tr s' = tr s @ es \<and> (\<forall>e \<in> set es. P e)"
  shows "emits tr P m"
  unfolding emits_def by (rule histI) (rule assms)

lemma emitsE:
  assumes "emits tr P m" and "m s = (r, s')"
  obtains es where "tr s' = tr s @ es" and "\<forall>e \<in> set es. P e"
  using assms unfolding emits_def by (rule histE)

lemma emits_mono: "emits tr P m \<Longrightarrow> (\<And>e. P e \<Longrightarrow> P' e) \<Longrightarrow> emits tr P' m"
  unfolding emits_def by (erule hist_mono) auto

lemma emits_ret [hist_intros, intro, simp]: "emits tr P (ret x)"
  by (simp add: emits_def hist_ret)

lemma emits_fail [hist_intros, intro, simp]: "emits tr P (fail e)"
  by (simp add: emits_def hist_fail)

lemma emits_panic [hist_intros, intro, simp]: "emits tr P (panic p)"
  by (simp add: emits_def hist_panic)

lemma emits_pure [hist_intros, intro, simp]: "emits tr P (pure r)"
  by (simp add: emits_def hist_pure)

lemma emits_bind [hist_intros, intro]:
  "emits tr P m \<Longrightarrow> (\<And>x. emits tr P (f x)) \<Longrightarrow> emits tr P (bindA m f)"
  unfolding emits_def
  by (rule hist_bind [where ?Q1.0 = "\<lambda>_ es. \<forall>e \<in> set es. P e" and ?Q2.0 = "\<lambda>_ _ es. \<forall>e \<in> set es. P e"])
    auto

lemma emits_bind_run:
  assumes m: "emits tr P m"
    and f: "\<And>x s s'. m s = (Ok x, s') \<Longrightarrow> emits tr P (f x)"
  shows "emits tr P (bindA m f)"
proof (rule emitsI)
  fix s r s'
  assume run: "bindA m f s = (r, s')"
  obtain r1 s1 where m1: "m s = (r1, s1)" by fastforce
  from m m1 obtain es where es: "tr s1 = tr s @ es" "\<forall>e \<in> set es. P e" by (rule emitsE)
  show "\<exists>es. tr s' = tr s @ es \<and> (\<forall>e \<in> set es. P e)"
  proof (cases r1)
    case (Ok x)
    with run m1 have "f x s1 = (r, s')" by (simp add: bindA_run)
    moreover from m1 Ok f have "emits tr P (f x)" by simp
    ultimately obtain es' where "tr s' = tr s1 @ es'" "\<forall>e \<in> set es'. P e" by (elim emitsE)
    with es show ?thesis by auto
  qed (use run m1 es in \<open>auto simp: bindA_run\<close>)
qed

lemma hist_wrapE:
  assumes "hist tr Q m"
    and "\<And>e es. Q (Fail e) es \<Longrightarrow> Q (Fail (Wrapped msg e)) es"
  shows "hist tr Q (wrapE msg m)"
proof (rule histI)
  fix s r s'
  assume run: "wrapE msg m s = (r, s')"
  obtain r1 s1 where m1: "m s = (r1, s1)" by fastforce
  from assms(1) m1 obtain es where "tr s1 = tr s @ es" "Q r1 es" by (rule histE)
  with run m1 assms(2) show "\<exists>es. tr s' = tr s @ es \<and> Q r es"
    by (cases r1) (auto simp: wrapE_run)
qed

lemma emits_wrapE [hist_intros, intro]: "emits tr P m \<Longrightarrow> emits tr P (wrapE msg m)"
  unfolding emits_def by (rule hist_wrapE)

lemma hist_tryA:
  assumes "hist tr Q1 m"
    and "\<And>x es. Q1 (Ok x) es \<Longrightarrow> Q (Ok (Inr x)) es"
    and "\<And>e es. Q1 (Fail e) es \<Longrightarrow> Q (Ok (Inl e)) es"
    and "\<And>p es. Q1 (Panic p) es \<Longrightarrow> Q (Panic p) es"
  shows "hist tr Q (tryA m)"
proof (rule histI)
  fix s r s'
  assume run: "tryA m s = (r, s')"
  obtain r1 s1 where m1: "m s = (r1, s1)" by fastforce
  from assms(1) m1 obtain es where "tr s1 = tr s @ es" "Q1 r1 es" by (rule histE)
  with run m1 assms(2-) show "\<exists>es. tr s' = tr s @ es \<and> Q r es"
    by (cases r1) (auto simp: tryA_run)
qed

lemma emits_tryA [hist_intros, intro]: "emits tr P m \<Longrightarrow> emits tr P (tryA m)"
  unfolding emits_def by (erule hist_tryA) auto

lemma emits_forA [hist_intros, intro]:
  "(\<And>x l. x \<in> set xs \<Longrightarrow> emits tr P (f x l)) \<Longrightarrow> emits tr P (forA f xs l)"
  by (induction xs arbitrary: l) auto

lemma emits_stepA [hist_intros, intro]:
  "(\<And>x l. x \<in> set xs \<Longrightarrow> emits tr P (f x l)) \<Longrightarrow> emits tr P (stepA f xs l)"
  by (induction xs arbitrary: l) (auto split: option.split)

lemma emits_eachA [hist_intros, intro]:
  "(\<And>x. x \<in> set xs \<Longrightarrow> emits tr P (f x)) \<Longrightarrow> emits tr P (eachA f xs)"
  unfolding eachA_def by auto

lemma emits_if [hist_intros, intro]:
  "(c \<Longrightarrow> emits tr P m) \<Longrightarrow> (\<not> c \<Longrightarrow> emits tr P n) \<Longrightarrow> emits tr P (if c then m else n)"
  by auto

lemma emits_case_option [hist_intros, intro]:
  "(x = None \<Longrightarrow> emits tr P m) \<Longrightarrow> (\<And>y. x = Some y \<Longrightarrow> emits tr P (f y)) \<Longrightarrow>
     emits tr P (case x of None \<Rightarrow> m | Some y \<Rightarrow> f y)"
  by (cases x) auto

lemma emits_case_sum [hist_intros, intro]:
  "(\<And>a. x = Inl a \<Longrightarrow> emits tr P (f a)) \<Longrightarrow> (\<And>b. x = Inr b \<Longrightarrow> emits tr P (g b)) \<Longrightarrow>
     emits tr P (case x of Inl a \<Rightarrow> f a | Inr b \<Rightarrow> g b)"
  by (cases x) auto

lemma emits_case_prod [hist_intros, intro]:
  "(\<And>a b. x = (a, b) \<Longrightarrow> emits tr P (f a b)) \<Longrightarrow> emits tr P (case x of (a, b) \<Rightarrow> f a b)"
  by (cases x) auto

lemma emits_Let [hist_intros, intro]:
  "(\<And>y. y = x \<Longrightarrow> emits tr P (f y)) \<Longrightarrow> emits tr P (Let x f)"
  by auto

section \<open>What a successful run leaves behind\<close>

text \<open>\<open>okhist tr Q m\<close>: where \<open>m\<close> returns \<open>Ok x\<close>, the events it appended satisfy \<open>Q x\<close>.\<close>

definition appends :: "('s \<Rightarrow> 'e list) \<Rightarrow> ('s \<Rightarrow> 'a \<times> 's) \<Rightarrow> bool" where
  "appends tr m \<longleftrightarrow> emits tr (\<lambda>_. True) m"

definition okhist :: "('s \<Rightarrow> 'e list) \<Rightarrow> ('a \<Rightarrow> 'e list \<Rightarrow> bool) \<Rightarrow> ('s, 'a) act \<Rightarrow> bool" where
  "okhist tr Q m \<longleftrightarrow> hist tr (\<lambda>r es. \<forall>x. r = Ok x \<longrightarrow> Q x es) m"

lemma okhist_hist: "hist tr Q m \<Longrightarrow> (\<And>x es. Q (Ok x) es \<Longrightarrow> Q' x es) \<Longrightarrow> okhist tr Q' m"
  unfolding okhist_def by (erule hist_mono) auto

lemma okhistE:
  assumes "okhist tr Q m" and "m s = (Ok x, s')"
  obtains es where "tr s' = tr s @ es" and "Q x es"
  using assms unfolding okhist_def by (auto elim: histE)

lemma okhist_mono: "okhist tr Q m \<Longrightarrow> (\<And>x es. Q x es \<Longrightarrow> Q' x es) \<Longrightarrow> okhist tr Q' m"
  unfolding okhist_def by (erule hist_mono) simp

lemma okhist_appends: "appends tr m \<Longrightarrow> okhist tr (\<lambda>_ _. True) m"
  unfolding appends_def emits_def by (erule okhist_hist) simp

lemma okhist_ret: "Q x [] \<Longrightarrow> okhist tr Q (ret x)"
  by (simp add: okhist_def hist_ret)

lemma okhist_fail [simp]: "okhist tr Q (fail e)"
  by (simp add: okhist_def hist_fail)

lemma okhist_pure: "(\<And>x. r = Inr x \<Longrightarrow> Q x []) \<Longrightarrow> okhist tr Q (pure r)"
  by (cases r) (auto simp: okhist_ret)

lemma okhist_bind:
  assumes "okhist tr Q1 m" and "\<And>x. okhist tr (Q2 x) (f x)"
    and "\<And>x y es es'. Q1 x es \<Longrightarrow> Q2 x y es' \<Longrightarrow> Q y (es @ es')"
  shows "okhist tr Q (bindA m f)"
  unfolding okhist_def
  by (rule hist_bind [where ?Q1.0 = "\<lambda>r es. \<forall>x. r = Ok x \<longrightarrow> Q1 x es"
        and ?Q2.0 = "\<lambda>x r es. \<forall>y. r = Ok y \<longrightarrow> Q2 x y es"])
    (use assms in \<open>auto simp: okhist_def\<close>)

lemma okhist_wrapE: "okhist tr Q m \<Longrightarrow> okhist tr Q (wrapE msg m)"
  unfolding okhist_def by (rule hist_wrapE) auto

text \<open>Facts about the set of events, kept as more events come: established by a part of a sequence.\<close>

definition upward :: "('e set \<Rightarrow> bool) \<Rightarrow> bool" where
  "upward E \<longleftrightarrow> (\<forall>A B. A \<subseteq> B \<longrightarrow> E A \<longrightarrow> E B)"

definition leaves :: "('s \<Rightarrow> 'e list) \<Rightarrow> ('e set \<Rightarrow> bool) \<Rightarrow> ('s, 'a) act \<Rightarrow> bool" where
  "leaves tr E m \<longleftrightarrow> okhist tr (\<lambda>_ es. E (set es)) m"

lemma upwardD: "upward E \<Longrightarrow> E A \<Longrightarrow> A \<subseteq> B \<Longrightarrow> E B"
  by (auto simp: upward_def)

lemma upwardI: "(\<And>A B. E A \<Longrightarrow> A \<subseteq> B \<Longrightarrow> E B) \<Longrightarrow> upward E"
  by (auto simp: upward_def)

lemma appends_emits: "emits tr P m \<Longrightarrow> appends tr m"
  unfolding appends_def by (rule emits_mono) auto

lemma leaves_first:
  assumes "upward E" and "leaves tr E m" and "\<And>x. appends tr (f x)"
  shows "leaves tr E (bindA m f)"
  unfolding leaves_def
proof (rule okhist_bind)
  show "okhist tr (\<lambda>_ es. E (set es)) m" using assms(2) by (simp add: leaves_def)
  show "okhist tr (\<lambda>_ es. True) (f x)" for x
    using assms(3) [of x] unfolding appends_def emits_def by (rule okhist_hist) simp
qed (use assms(1) in \<open>auto elim: upwardD\<close>)

lemma leaves_later:
  assumes "upward E" and "appends tr m" and "\<And>x. leaves tr E (f x)"
  shows "leaves tr E (bindA m f)"
  unfolding leaves_def
proof (rule okhist_bind)
  show "okhist tr (\<lambda>_ es. True) m"
    using assms(2) unfolding appends_def emits_def by (rule okhist_hist) simp
  show "okhist tr (\<lambda>_ es. E (set es)) (f x)" for x using assms(3) by (simp add: leaves_def)
qed (use assms(1) in \<open>auto elim: upwardD\<close>)

lemma leaves_wrapE: "leaves tr E m \<Longrightarrow> leaves tr E (wrapE msg m)"
  unfolding leaves_def by (rule okhist_wrapE)

lemma leaves_conj: "leaves tr E m \<Longrightarrow> leaves tr E' m \<Longrightarrow> leaves tr (\<lambda>A. E A \<and> E' A) m"
  unfolding leaves_def okhist_def by (drule (1) hist_conj) (erule hist_mono, auto)

text \<open>Evidence from both parts of a sequence.\<close>

lemma leaves_seq:
  assumes "upward E" "upward E'" "leaves tr E m" "\<And>x. leaves tr E' (f x)"
  shows "leaves tr (\<lambda>A. E A \<and> E' A) (bindA m f)"
  unfolding leaves_def
proof (rule okhist_bind)
  show "okhist tr (\<lambda>_ es. E (set es)) m" using assms(3) by (simp add: leaves_def)
  show "okhist tr (\<lambda>_ es. E' (set es)) (f x)" for x using assms(4) by (simp add: leaves_def)
qed (auto elim: upwardD [OF assms(1)] upwardD [OF assms(2)])

lemma upward_conj [intro]: "upward E \<Longrightarrow> upward E' \<Longrightarrow> upward (\<lambda>A. E A \<and> E' A)"
  unfolding upward_def by blast

lemma leaves_eachA:
  assumes "\<And>x. upward (E x)" and "\<And>x. x \<in> set xs \<Longrightarrow> leaves tr (E x) (f x)"
  shows "leaves tr (\<lambda>A. \<forall>x \<in> set xs. E x A) (eachA f xs)"
  using assms(2)
proof (induction xs)
  case Nil
  then show ?case by (simp add: leaves_def okhist_ret)
next
  case (Cons x xs)
  have "leaves tr (E x) (f x)" "leaves tr (\<lambda>A. \<forall>x \<in> set xs. E x A) (eachA f xs)"
    using Cons by auto
  then show ?case
    unfolding leaves_def eachA_Cons
    by (rule okhist_bind) (auto elim: upwardD [OF assms(1)])
qed

text \<open>A loop that never stops early leaves every iteration's evidence.\<close>

lemma okhist_stepA:
  assumes up: "\<And>x. upward (E x)"
    and "\<And>x l. x \<in> set xs \<Longrightarrow> okhist tr (\<lambda>r es. r \<noteq> None \<and> E x (set es)) (f x l)"
  shows "okhist tr (\<lambda>r es. r \<noteq> None \<and> (\<forall>x \<in> set xs. E x (set es))) (stepA f xs l)"
  using assms(2)
proof (induction xs arbitrary: l)
  case (Cons x xs)
  have one: "okhist tr (\<lambda>r es. r \<noteq> None \<and> E x (set es)) (f x l)" using Cons.prems by simp
  have rest: "okhist tr (\<lambda>q es. r \<noteq> None \<longrightarrow> q \<noteq> None \<and> (\<forall>x \<in> set xs. E x (set es)))
      (case r of None \<Rightarrow> ret None | Some l' \<Rightarrow> stepA f xs l')" for r
    by (cases r) (auto intro!: okhist_ret okhist_mono [OF Cons.IH] Cons.prems)
  show ?case
    unfolding stepA.simps
    by (rule okhist_bind [OF one rest]) (auto elim: upwardD [OF up])
qed (auto intro: okhist_ret)

section \<open>Guarded events\<close>

text \<open>
  \<open>guarded R E es\<close>: every event of \<open>es\<close> that \<open>R\<close> picks out comes after events that are evidence \<open>E\<close>
  for it.
\<close>

definition guarded :: "('e \<Rightarrow> bool) \<Rightarrow> ('e \<Rightarrow> 'e set \<Rightarrow> bool) \<Rightarrow> 'e list \<Rightarrow> bool" where
  "guarded R E es \<longleftrightarrow> (\<forall>pre e post. es = pre @ e # post \<longrightarrow> R e \<longrightarrow> E e (set pre))"

lemma guarded_none: "\<forall>e \<in> set es. \<not> R e \<Longrightarrow> guarded R E es"
  by (auto simp: guarded_def)

lemma guarded_Nil [simp]: "guarded R E []"
  by (simp add: guarded_def)

lemma guarded_append:
  assumes "\<And>e. upward (E e)" and "guarded R E xs" and "guarded R E ys"
  shows "guarded R E (xs @ ys)"
  unfolding guarded_def
proof (intro allI impI)
  fix pre e post
  assume split: "xs @ ys = pre @ e # post" and e: "R e"
  then obtain us where "xs = pre @ us \<and> us @ ys = e # post \<or> xs @ us = pre \<and> ys = us @ e # post"
    by (auto simp: append_eq_append_conv2)
  then consider (left) us where "xs = pre @ e # us" | (right) us where "pre = xs @ us" "ys = us @ e # post"
    by (cases us) auto
  then show "E e (set pre)"
  proof cases
    case left
    with assms(2) e show ?thesis by (auto simp: guarded_def)
  next
    case right
    with assms(3) e have "E e (set us)" by (auto simp: guarded_def)
    with right show ?thesis by (auto elim: upwardD [OF assms(1)])
  qed
qed

text \<open>Preparations that leave the evidence for every guarded event that comes after them.\<close>

lemma guarded_after:
  assumes up: "\<And>e. upward (E e)" and xs: "\<forall>e \<in> set xs. \<not> R e"
    and ys: "\<forall>e \<in> set ys. R e \<longrightarrow> E e (set xs)"
  shows "guarded R E (xs @ ys)"
  unfolding guarded_def
proof (intro allI impI)
  fix pre e post
  assume split: "xs @ ys = pre @ e # post" and e: "R e"
  then obtain us where us: "xs = pre @ us \<and> us @ ys = e # post \<or> xs @ us = pre \<and> ys = us @ e # post"
    by (auto simp: append_eq_append_conv2)
  show "E e (set pre)"
  proof (cases "set xs \<subseteq> set pre")
    case True
    moreover have "e \<in> set ys"
    proof (rule ccontr)
      assume "e \<notin> set ys"
      with us have "e \<in> set xs" by (cases us) auto
      with xs e show False by simp
    qed
    ultimately show ?thesis using ys e by (auto elim: upwardD [OF up])
  next
    case False
    with us obtain u us' where "xs = pre @ u # us'" by (cases us) auto
    with split have "e \<in> set xs" by simp
    with xs e show ?thesis by simp
  qed
qed

lemma guarded_bind:
  assumes up: "\<And>e. upward (E e)" and m: "emits tr (\<lambda>e. \<not> R e) m"
    and left: "okhist tr (\<lambda>x es. \<forall>e. R e \<longrightarrow> G x e \<longrightarrow> E e (set es)) m"
    and f: "\<And>x. emits tr (\<lambda>e. R e \<longrightarrow> G x e) (f x)"
  shows "hist tr (\<lambda>_ es. guarded R E es) (bindA m f)"
proof (rule hist_bind)
  show "hist tr (\<lambda>r es. (\<forall>e \<in> set es. \<not> R e) \<and>
      (\<forall>x. r = Ok x \<longrightarrow> (\<forall>e. R e \<longrightarrow> G x e \<longrightarrow> E e (set es)))) m"
    using m left unfolding emits_def okhist_def by (rule hist_conj)
  show "hist tr (\<lambda>_ es. \<forall>e \<in> set es. R e \<longrightarrow> G x e) (f x)" for x
    using f unfolding emits_def .
qed (auto intro: guarded_none guarded_after [OF up])

lemma guarded_emits: "emits tr (\<lambda>e. \<not> R e) m \<Longrightarrow> hist tr (\<lambda>_ es. guarded R E es) m"
  unfolding emits_def by (erule hist_mono) (rule guarded_none)

lemma guarded_seq:
  assumes "\<And>e. upward (E e)" and "hist tr (\<lambda>_ es. guarded R E es) m"
    and "\<And>x. hist tr (\<lambda>_ es. guarded R E es) (f x)"
  shows "hist tr (\<lambda>_ es. guarded R E es) (bindA m f)"
  by (rule hist_bind [OF assms(2,3)]) (auto intro: guarded_append assms(1))

section \<open>Deferred functions and the variables they capture\<close>

text \<open>
  A function with a \<open>defer\<close> runs on the state together with the local variables \<open>'l\<close> its deferred
  closure captures, so that their values survive an early return with an error. \<open>lift\<close> is a step
  that does not touch them.
\<close>

definition lift :: "('s, 'a) act \<Rightarrow> ('s \<times> 'l, 'a) act" where
  "lift m = (\<lambda>(s, l). case m s of (r, s') \<Rightarrow> (r, (s', l)))"

definition locals :: "('s \<times> 'l, 'l) act" where
  "locals = (\<lambda>(s, l). (Ok l, (s, l)))"

definition assign :: "('l \<Rightarrow> 'l) \<Rightarrow> ('s \<times> 'l, unit) act" where
  "assign f = (\<lambda>(s, l). (Ok (), (s, f l)))"

fun res_err :: "'a res \<Rightarrow> goerr option" where
  "res_err (Fail e) = Some e"
| "res_err r = None"

text \<open>
  Run the body from the initial locals, then the deferred function on what it left, error included.
  With a named error result (\<open>defer_named\<close>) the function returns the error the deferred function
  assigned, without one (\<open>defer_unnamed\<close>) it returns what the \<open>return\<close> statement said. A panic runs
  the deferred function and goes on.
\<close>

definition deferring ::
  "('a res \<Rightarrow> goerr option \<Rightarrow> 'a res) \<Rightarrow> 'l \<Rightarrow> ('l \<Rightarrow> goerr option \<Rightarrow> ('s, goerr option) act) \<Rightarrow>
     ('s \<times> 'l, 'a) act \<Rightarrow> ('s, 'a) act" where
  "deferring join l0 dfn body = (\<lambda>s. case body (s, l0) of (r, (s1, l)) \<Rightarrow>
     (case dfn l (res_err r) s1 of
        (Ok err, s2) \<Rightarrow> (join r err, s2)
      | (Fail e, s2) \<Rightarrow> (Fail e, s2)
      | (Panic p, s2) \<Rightarrow> (Panic p, s2)))"

fun named_result :: "'a res \<Rightarrow> goerr option \<Rightarrow> 'a res" where
  "named_result (Panic p) err = Panic p"
| "named_result r (Some e) = Fail e"
| "named_result (Ok x) None = Ok x"
| "named_result (Fail e) None = Fail e"

definition defer_named ::
  "'l \<Rightarrow> ('l \<Rightarrow> goerr option \<Rightarrow> ('s, goerr option) act) \<Rightarrow> ('s \<times> 'l, 'a) act \<Rightarrow> ('s, 'a) act" where
  "defer_named = deferring named_result"

definition defer_unnamed ::
  "'l \<Rightarrow> ('l \<Rightarrow> goerr option \<Rightarrow> ('s, goerr option) act) \<Rightarrow> ('s \<times> 'l, 'a) act \<Rightarrow> ('s, 'a) act" where
  "defer_unnamed = deferring (\<lambda>r _. r)"

lemma lift_run: "m s = (r, s') \<Longrightarrow> lift m (s, l) = (r, (s', l))"
  by (simp add: lift_def)

lemma lift_eq_iff: "lift m (s, l) = (r, (s', l')) \<longleftrightarrow> m s = (r, s') \<and> l' = l"
  by (auto simp: lift_def split: prod.splits)

lemma locals_run [simp]: "locals (s, l) = (Ok l, (s, l))"
  by (simp add: locals_def)

lemma assign_run [simp]: "assign f (s, l) = (Ok (), (s, f l))"
  by (simp add: assign_def)

lemma emits_lift [hist_intros, intro]: "emits tr P m \<Longrightarrow> emits (\<lambda>(s, l). tr s) P (lift m)"
  by (rule emitsI) (auto simp: lift_eq_iff elim!: emitsE)

lemma emits_locals [hist_intros, intro, simp]: "emits (\<lambda>(s, l). tr s) P locals"
  by (rule emitsI) (auto simp: locals_def)

lemma emits_assign [hist_intros, intro, simp]: "emits (\<lambda>(s, l). tr s) P (assign f)"
  by (rule emitsI) (auto simp: assign_def)

text \<open>A fact about the captured variables that every step keeps.\<close>

definition keeps :: "('l \<Rightarrow> bool) \<Rightarrow> ('s \<times> 'l, 'a) act \<Rightarrow> bool" where
  "keeps I m \<longleftrightarrow> (\<forall>s l r s' l'. m (s, l) = (r, (s', l')) \<longrightarrow> I l \<longrightarrow> I l')"

named_theorems keeps_intros "rules that show that an action keeps a fact about its locals"

lemma keepsD: "keeps I m \<Longrightarrow> m (s, l) = (r, (s', l')) \<Longrightarrow> I l \<Longrightarrow> I l'"
  unfolding keeps_def by blast

lemma keeps_basic [keeps_intros, simp, intro]:
  "keeps I (ret x)" "keeps I (fail e)" "keeps I (panic p)" "keeps I (pure y)" "keeps I (lift m)" "keeps I locals"
  by (auto simp: keeps_def apply_simps pure_def lift_def locals_def split: prod.splits)

lemma keeps_assign [keeps_intros, intro]: "(\<And>l. I l \<Longrightarrow> I (f l)) \<Longrightarrow> keeps I (assign f)"
  by (auto simp: keeps_def)

lemma keeps_bind [keeps_intros, intro]:
  assumes "keeps I m" and "\<And>x. keeps I (f x)" shows "keeps I (bindA m f)"
  unfolding keeps_def
proof (intro allI impI)
  fix s l r s' l'
  assume run: "bindA m f (s, l) = (r, (s', l'))" and I: "I l"
  obtain r1 s1 l1 where m: "m (s, l) = (r1, (s1, l1))" by (metis surj_pair)
  have "I l1" by (rule keepsD [OF assms(1) m I])
  with run m assms(2) show "I l'" by (cases r1) (auto simp: bindA_run dest: keepsD)
qed

lemma keeps_wrapE [keeps_intros, intro]: "keeps I m \<Longrightarrow> keeps I (wrapE msg m)"
  unfolding keeps_def wrapE_def by (auto split: prod.splits res.splits)

lemma keeps_tryA [keeps_intros, intro]: "keeps I m \<Longrightarrow> keeps I (tryA m)"
  unfolding keeps_def tryA_def by (auto split: prod.splits res.splits)

lemma keeps_if [keeps_intros, intro]: "keeps I m \<Longrightarrow> keeps I n \<Longrightarrow> keeps I (if c then m else n)"
  by simp

lemma keeps_case_sum [keeps_intros, intro]:
  "(\<And>a. keeps I (f a)) \<Longrightarrow> (\<And>b. keeps I (g b)) \<Longrightarrow> keeps I (case x of Inl a \<Rightarrow> f a | Inr b \<Rightarrow> g b)"
  by (cases x) auto

lemma keeps_case_option [keeps_intros, intro]:
  "keeps I m \<Longrightarrow> (\<And>b. keeps I (g b)) \<Longrightarrow> keeps I (case x of None \<Rightarrow> m | Some b \<Rightarrow> g b)"
  by (cases x) auto

text \<open>The calls made while the locals satisfy \<open>I\<close>, which every step keeps.\<close>

definition stays :: "('l \<Rightarrow> bool) \<Rightarrow> ('s \<Rightarrow> 'e list) \<Rightarrow> ('e \<Rightarrow> bool) \<Rightarrow> ('s \<times> 'l, 'a) act \<Rightarrow> bool" where
  "stays I tr P m \<longleftrightarrow> (\<forall>s l r s' l'. m (s, l) = (r, (s', l')) \<longrightarrow> I l \<longrightarrow>
     I l' \<and> (\<exists>es. tr s' = tr s @ es \<and> (\<forall>e \<in> set es. P e)))"

lemma staysD:
  assumes "stays I tr P m" "m (s, l) = (r, (s', l'))" "I l"
  obtains es where "I l'" "tr s' = tr s @ es" "\<forall>e \<in> set es. P e"
  using assms unfolding stays_def by blast

lemma stays_emits:
  assumes "keeps I m" and "emits (\<lambda>(s, l). tr s) P m" shows "stays I tr P m"
  unfolding stays_def
proof (intro allI impI conjI)
  fix s l r s' l'
  assume run: "m (s, l) = (r, (s', l'))" and I: "I l"
  show "I l'" by (rule keepsD [OF assms(1) run I])
  from assms(2) run show "\<exists>es. tr s' = tr s @ es \<and> (\<forall>e \<in> set es. P e)" by (auto elim: emitsE)
qed

lemma stays_bind:
  assumes m: "stays I tr P m" and f: "\<And>x. stays I tr P (f x)"
  shows "stays I tr P (bindA m f)"
  unfolding stays_def
proof (intro allI impI)
  fix s l r s' l'
  assume run: "bindA m f (s, l) = (r, (s', l'))" and I: "I l"
  obtain r1 s1 l1 where m1: "m (s, l) = (r1, (s1, l1))" by (metis surj_pair)
  from staysD [OF m m1 I] obtain es where es: "I l1" "tr s1 = tr s @ es" "\<forall>e \<in> set es. P e" .
  show "I l' \<and> (\<exists>es. tr s' = tr s @ es \<and> (\<forall>e \<in> set es. P e))"
  proof (cases r1)
    case (Ok x)
    with run m1 have "f x (s1, l1) = (r, (s', l'))" by (simp add: bindA_run)
    from staysD [OF f this es(1)] obtain es' where "I l'" "tr s' = tr s1 @ es'" "\<forall>e \<in> set es'. P e" .
    with es show ?thesis by auto
  qed (use run m1 es in \<open>auto simp: bindA_run\<close>)
qed

text \<open>Steps that do not touch the locals.\<close>

lemma stays_lift: "emits tr P m \<Longrightarrow> stays I tr P (lift m)"
  by (intro stays_emits keeps_basic emits_lift)

lemma stays_basic: "stays I tr P (ret x)" "stays I tr P (fail e)" "stays I tr P (panic p)"
  by (intro stays_emits keeps_basic; simp)+

lemma stays_locals:
  assumes "\<And>l. I l \<Longrightarrow> stays I tr P (f l)" shows "stays I tr P (bindA locals f)"
  unfolding stays_def
proof (intro allI impI)
  fix s l r s' l'
  assume "bindA locals f (s, l) = (r, (s', l'))" and I: "I l"
  then have "f l (s, l) = (r, (s', l'))" by (simp add: bindA_run)
  from staysD [OF assms [OF I] this I] show "I l' \<and> (\<exists>es. tr s' = tr s @ es \<and> (\<forall>e \<in> set es. P e))" by blast
qed

lemma stays_if: "stays I tr P m \<Longrightarrow> stays I tr P n \<Longrightarrow> stays I tr P (if c then m else n)"
  by simp

lemma stays_case_option:
  "stays I tr P m \<Longrightarrow> (\<And>b. stays I tr P (g b)) \<Longrightarrow> stays I tr P (case x of None \<Rightarrow> m | Some b \<Rightarrow> g b)"
  by (cases x) auto

lemma emits_deferring:
  assumes body: "stays I tr P body" and I: "I l0"
    and dfn: "\<And>l err. I l \<Longrightarrow> emits tr P (dfn l err)"
  shows "emits tr P (deferring join l0 dfn body)"
proof (rule emitsI)
  fix s r s'
  assume run: "deferring join l0 dfn body s = (r, s')"
  obtain r1 s1 l where b: "body (s, l0) = (r1, (s1, l))" by (metis surj_pair)
  obtain r2 s2 where f: "dfn l (res_err r1) s1 = (r2, s2)" by fastforce
  from staysD [OF body b I] obtain es where l: "I l" and "tr s1 = tr s @ es" "\<forall>e \<in> set es. P e" .
  moreover from dfn [OF l] f obtain es' where "tr s2 = tr s1 @ es'" "\<forall>e \<in> set es'. P e" by (rule emitsE)
  moreover have "s' = s2" using run b f by (simp add: deferring_def split: res.splits)
  ultimately show "\<exists>es. tr s' = tr s @ es \<and> (\<forall>e \<in> set es. P e)" by auto
qed

lemma emits_defer_named:
  "stays I tr P body \<Longrightarrow> I l0 \<Longrightarrow> (\<And>l err. I l \<Longrightarrow> emits tr P (dfn l err)) \<Longrightarrow>
     emits tr P (defer_named l0 dfn body)"
  unfolding defer_named_def by (rule emits_deferring)

lemma emits_defer_unnamed:
  "stays I tr P body \<Longrightarrow> I l0 \<Longrightarrow> (\<And>l err. I l \<Longrightarrow> emits tr P (dfn l err)) \<Longrightarrow>
     emits tr P (defer_unnamed l0 dfn body)"
  unfolding defer_unnamed_def by (rule emits_deferring)

text \<open>What is left of the run: the body's result, its locals, and the deferred function's part.\<close>

lemma deferringE:
  assumes "deferring join l0 dfn body s = (r, s')"
  obtains r1 s1 l r2 where "body (s, l0) = (r1, (s1, l))" "dfn l (res_err r1) s1 = (r2, s')"
    "r = (case r2 of Ok err \<Rightarrow> join r1 err | Fail e \<Rightarrow> Fail e | Panic p \<Rightarrow> Panic p)"
proof -
  obtain r1 s1 l where b: "body (s, l0) = (r1, (s1, l))" by (metis surj_pair)
  obtain r2 s2 where f: "dfn l (res_err r1) s1 = (r2, s2)" by fastforce
  show thesis
    by (rule that [OF b, of r2]) (use assms b f in \<open>auto simp: deferring_def split: res.splits\<close>)
qed

end
