(* ===== verification/Go_Strings.thy ===== *)
theory Go_Strings
  imports Go_Prelude
begin

text \<open>
  The functions of Go's \<open>strings\<close>, \<open>strconv\<close>, \<open>fmt\<close> and \<open>path\<close> packages the code calls, on byte
  strings, with the facts about them the components use: decimal numerals are injective and hold
  digits only, a prefix is trimmed exactly once, replacing a character is undone by the inverse
  replacement where the new character did not occur before.
\<close>

section \<open>strconv and fmt: decimal numerals\<close>

definition digit_char :: "nat \<Rightarrow> char" where
  "digit_char n = char_of (48 + n)"

fun dec_nat :: "nat \<Rightarrow> string" where
  "dec_nat n = (if n < 10 then [digit_char n] else dec_nat (n div 10) @ [digit_char (n mod 10)])"

declare dec_nat.simps [simp del]

text \<open>\<open>strconv.Itoa\<close>, also \<open>fmt\<close>'s \<open>%d\<close>.\<close>

definition itoa :: "int \<Rightarrow> string" where
  "itoa i = (if i < 0 then ''-'' @ dec_nat (nat (- i)) else dec_nat (nat i))"

definition dec_value :: "string \<Rightarrow> nat" where
  "dec_value s = foldl (\<lambda>a c. 10 * a + (of_char c - 48)) 0 s"

definition is_digit :: "char \<Rightarrow> bool" where
  "is_digit c \<longleftrightarrow> 48 \<le> (of_char c :: nat) \<and> (of_char c :: nat) \<le> 57"

lemma of_digit_char: "n < 10 \<Longrightarrow> of_char (digit_char n) = (48 + n :: nat)"
  by (simp add: digit_char_def)

lemma is_digit_digit_char: "n < 10 \<Longrightarrow> is_digit (digit_char n)"
  by (simp add: is_digit_def of_digit_char)

lemma dec_nat_ne_Nil [simp]: "dec_nat n \<noteq> []"
  by (subst dec_nat.simps) simp

lemma dec_nat_digits: "c \<in> set (dec_nat n) \<Longrightarrow> is_digit c"
proof (induction n rule: dec_nat.induct)
  case (1 n)
  then show ?case
    by (cases "n < 10") (auto simp: dec_nat.simps [of n] is_digit_digit_char)
qed

lemma dec_value_dec_nat: "dec_value (dec_nat n) = n"
proof (induction n rule: dec_nat.induct)
  case (1 n)
  then show ?case
    by (cases "n < 10") (auto simp: dec_nat.simps [of n] dec_value_def of_digit_char)
qed

lemma dec_nat_inject [simp]: "dec_nat m = dec_nat n \<longleftrightarrow> m = n"
  by (metis dec_value_dec_nat)

lemma dec_nat_length: "n < 10 ^ Suc k \<Longrightarrow> length (dec_nat n) \<le> Suc k"
proof (induction k arbitrary: n)
  case 0
  then show ?case by (simp add: dec_nat.simps)
next
  case (Suc k)
  show ?case
  proof (cases "n < 10")
    case True
    then show ?thesis by (simp add: dec_nat.simps)
  next
    case False
    have "n div 10 < 10 ^ Suc k" using Suc.prems by (simp add: less_mult_imp_div_less)
    with Suc.IH False show ?thesis by (subst dec_nat.simps) simp
  qed
qed

lemma dec_nat_not_dash: "CHR ''-'' \<notin> set (dec_nat n)"
  by (auto dest!: dec_nat_digits simp: is_digit_def)

lemma itoa_nat [simp]: "itoa (int n) = dec_nat n"
  by (simp add: itoa_def)

lemma itoa_eq_zero_iff: "itoa i = ''0'' \<longleftrightarrow> i = 0"
proof -
  have zero: "dec_nat 0 = ''0''" by (simp add: dec_nat.simps digit_char_def char_of_eq_iff take_bit_eq_mod)
  show ?thesis
proof
  assume z: "itoa i = ''0''"
  have "\<not> i < 0" and "dec_nat (nat i) = dec_nat 0" using z zero
    by (auto simp: itoa_def split: if_splits)
  then show "i = 0" by simp
qed (simp add: itoa_def zero)
qed

text \<open>A separator that is not in the fields makes the split unique.\<close>

lemma append_sep_inject:
  assumes "xs @ c # ys = xs' @ c # ys'" and "c \<notin> set xs" and "c \<notin> set xs'"
  shows "xs = xs' \<and> ys = ys'"
  using assms
proof (induction xs arbitrary: xs')
  case Nil
  then show ?case by (cases xs') auto
next
  case (Cons x xs)
  then show ?case by (cases xs') auto
qed

section \<open>strings\<close>

text \<open>\<open>strings.ReplaceAll\<close> with a one-byte \<open>old\<close> and a one-byte \<open>new\<close>, as the code uses it.\<close>

definition replace_all :: "string \<Rightarrow> char \<Rightarrow> char \<Rightarrow> string" where
  "replace_all s c d = map (\<lambda>x. if x = c then d else x) s"

text \<open>\<open>strings.TrimPrefix\<close>\<close>

definition trim_prefix :: "string \<Rightarrow> string \<Rightarrow> string" where
  "trim_prefix s p = (if take (length p) s = p then drop (length p) s else s)"

text \<open>\<open>strings.ToLower\<close> on ASCII.\<close>

definition to_lower :: "string \<Rightarrow> string" where
  "to_lower s = map (\<lambda>c. if 65 \<le> (of_char c :: nat) \<and> (of_char c :: nat) \<le> 90
                         then char_of ((of_char c :: nat) + 32) else c) s"

lemma trim_prefix_append [simp]: "trim_prefix (p @ s) p = s"
  by (simp add: trim_prefix_def)

lemma replace_all_append [simp]: "replace_all (s @ t) c d = replace_all s c d @ replace_all t c d"
  by (simp add: replace_all_def)

lemma replace_all_id: "c \<notin> set s \<Longrightarrow> replace_all s c d = s"
  by (induction s) (auto simp: replace_all_def)

lemma replace_all_undo: "d \<notin> set s \<Longrightarrow> replace_all (replace_all s c d) d c = s"
  by (induction s) (auto simp: replace_all_def)

lemma replace_all_free: "c \<noteq> d \<Longrightarrow> c \<notin> set (replace_all s c d)"
  by (auto simp: replace_all_def)

section \<open>path\<close>

fun join_with :: "char \<Rightarrow> string list \<Rightarrow> string" where
  "join_with c [] = []"
| "join_with c [x] = x"
| "join_with c (x # xs) = x @ c # join_with c xs"

fun split_on :: "char \<Rightarrow> string \<Rightarrow> string list" where
  "split_on c [] = [[]]"
| "split_on c (x # xs) =
     (if x = c then [] # split_on c xs
      else case split_on c xs of [] \<Rightarrow> [[x]] | y # ys \<Rightarrow> (x # y) # ys)"

text \<open>\<open>path.Clean\<close>: the elements in reverse order, one element at a time.\<close>

definition clean_step :: "bool \<Rightarrow> string list \<Rightarrow> string \<Rightarrow> string list" where
  "clean_step rooted acc e =
     (if e = [] \<or> e = ''.'' then acc
      else if e = ''..'' then
        (case acc of
           [] \<Rightarrow> if rooted then [] else [e]
         | x # xs \<Rightarrow> if x = ''..'' then e # acc else xs)
      else e # acc)"

definition path_clean :: "string \<Rightarrow> string" where
  "path_clean p =
     (if p = [] then ''.''
      else let rooted = (hd p = CHR ''/'');
               body = join_with (CHR ''/'') (rev (foldl (clean_step rooted) [] (split_on (CHR ''/'') p)))
           in if rooted then CHR ''/'' # body else if body = [] then ''.'' else body)"

text \<open>\<open>path.Dir\<close>: \<open>path.Clean\<close> of everything up to and including the last slash.\<close>

definition path_dir :: "string \<Rightarrow> string" where
  "path_dir p = path_clean (rev (dropWhile (\<lambda>c. c \<noteq> CHR ''/'') (rev p)))"

lemma path_dir_examples:
  "path_dir ''/etc/app/config'' = ''/etc/app''"
  "path_dir ''/config'' = ''/''"
  "path_dir ''config'' = ''.''"
  "path_dir ''a//b/../c/x'' = ''a/c''"
  "path_dir ''/../x/'' = ''/x''"
  by (simp_all add: path_dir_def path_clean_def clean_step_def)

lemma path_clean_ne_Nil [simp]: "path_clean p \<noteq> []"
  by (auto simp: path_clean_def Let_def)

end
