(* ===== verification/Go_Encoding.thy ===== *)
theory Go_Encoding
  imports Go_Strings "HOL-Library.Word"
begin

unbundle bit_operations_syntax

text \<open>
  The encodings and hashes of Go's standard library that the code uses: \<open>encoding/base64\<close> with the
  decoder that shows the encoding loses nothing, \<open>hash/fnv\<close>'s 32-bit FNV-1a, and \<open>crypto/md5\<close> (RFC
  1321), both on 32-bit machine words.
\<close>

section \<open>encoding/base64: StdEncoding\<close>

definition sextet :: "nat \<Rightarrow> char" where
  "sextet n = (if n < 26 then char_of (65 + n)
               else if n < 52 then char_of (71 + n)
               else if n < 62 then char_of (n - 4)
               else if n = 62 then CHR ''+'' else CHR ''/'')"

abbreviation byte :: "char \<Rightarrow> nat" where
  "byte c \<equiv> of_char c"

fun base64_encode :: "string \<Rightarrow> string" where
  "base64_encode [] = []"
| "base64_encode [a] = [sextet (byte a div 4), sextet (byte a mod 4 * 16), CHR ''='', CHR ''='']"
| "base64_encode [a, b] =
     [sextet (byte a div 4), sextet (byte a mod 4 * 16 + byte b div 16),
      sextet (byte b mod 16 * 4), CHR ''='']"
| "base64_encode (a # b # c # cs) =
     sextet (byte a div 4) # sextet (byte a mod 4 * 16 + byte b div 16) #
     sextet (byte b mod 16 * 4 + byte c div 64) # sextet (byte c mod 64) # base64_encode cs"

definition unsextet :: "char \<Rightarrow> nat option" where
  "unsextet c = (let n = byte c in
     if 65 \<le> n \<and> n \<le> 90 then Some (n - 65)
     else if 97 \<le> n \<and> n \<le> 122 then Some (n - 71)
     else if 48 \<le> n \<and> n \<le> 57 then Some (n + 4)
     else if n = 43 then Some 62 else if n = 47 then Some 63 else None)"

fun base64_decode :: "string \<Rightarrow> string option" where
  "base64_decode [] = Some []"
| "base64_decode (w # x # y # z # cs) =
     (case (unsextet w, unsextet x) of
        (Some i, Some j) \<Rightarrow>
          (if y = CHR ''='' then
             (if z = CHR ''='' \<and> cs = [] then Some [char_of (i * 4 + j div 16)] else None)
           else case unsextet y of
             None \<Rightarrow> None
           | Some k \<Rightarrow>
               (if z = CHR ''='' then
                  (if cs = [] then Some [char_of (i * 4 + j div 16), char_of (j mod 16 * 16 + k div 4)]
                   else None)
                else case (unsextet z, base64_decode cs) of
                  (Some l, Some r) \<Rightarrow>
                    Some (char_of (i * 4 + j div 16) # char_of (j mod 16 * 16 + k div 4) #
                          char_of (k mod 4 * 64 + l) # r)
                | _ \<Rightarrow> None))
      | _ \<Rightarrow> None)"
| "base64_decode _ = None"

lemma unsextet_sextet [simp]: "n < 64 \<Longrightarrow> unsextet (sextet n) = Some n"
  by (auto simp: unsextet_def sextet_def Let_def)

lemma sextet_ne_pad [simp]: "sextet n \<noteq> CHR ''=''"
  by (auto simp: sextet_def dest!: arg_cong [where f = "of_char :: char \<Rightarrow> nat"])

lemma sextet_bounds [simp]:
  "byte a div 4 < 64" "byte a mod 4 * 16 < 64" "byte b mod 16 * 4 < 64"
  "byte a mod 4 * 16 + byte b div 16 < 64" "byte b mod 16 * 4 + byte c div 64 < 64"
  using nat_of_char_less_256 [of a] nat_of_char_less_256 [of b] nat_of_char_less_256 [of c] by linarith+

text \<open>
  Where the bytes come back from the sextets: a byte has no bits above its eighth, so the high part
  of its neighbour's sextet does not spill over.
\<close>

lemma byte_high_bits [simp]:
  "byte b div 16 div 16 = 0" "byte c div 64 div 4 = 0"
  "byte b div 16 mod 16 = byte b div 16" "byte c div 64 mod 4 = byte c div 64"
  using nat_of_char_less_256 [of b] nat_of_char_less_256 [of c]
  by (simp_all add: less_mult_imp_div_less)

lemma base64_decode_encode: "base64_decode (base64_encode s) = Some s"
  by (induction s rule: base64_encode.induct) simp_all

lemma base64_encode_inject [simp]: "base64_encode s = base64_encode t \<longleftrightarrow> s = t"
  by (metis base64_decode_encode option.inject)

lemma length_base64_encode: "length (base64_encode s) = 4 * ((length s + 2) div 3)"
proof (induction s rule: base64_encode.induct)
  case (4 a b c cs)
  have "(5 + length cs) div 3 = Suc ((2 + length cs) div 3)" by presburger
  with 4 show ?case by simp
qed simp_all

section \<open>hash/fnv: New32a\<close>

definition fnv32a_step :: "32 word \<Rightarrow> char \<Rightarrow> 32 word" where
  "fnv32a_step h c = (h XOR word_of_nat (byte c)) * 16777619"

definition fnv32a :: "string \<Rightarrow> 32 word" where
  "fnv32a s = foldl fnv32a_step 2166136261 s"

lemma fnv32a_vectors: "fnv32a '''' = 0x811c9dc5" "fnv32a ''a'' = 0xe40c292c"
  by (simp_all add: fnv32a_def fnv32a_step_def)

lemma unat_fnv32a: "unat (fnv32a s) < 2 ^ 32"
  using unsigned_less [of "fnv32a s"] by simp

section \<open>crypto/md5: Sum\<close>

definition md5_shifts :: "nat list" where
  "md5_shifts = concat (map (\<lambda>r. concat (replicate 4 r))
     [[7, 12, 17, 22], [5, 9, 14, 20], [4, 11, 16, 23], [6, 10, 15, 21]])"

definition md5_table :: "32 word list" where
  "md5_table = [
     0xd76aa478, 0xe8c7b756, 0x242070db, 0xc1bdceee, 0xf57c0faf, 0x4787c62a, 0xa8304613, 0xfd469501,
     0x698098d8, 0x8b44f7af, 0xffff5bb1, 0x895cd7be, 0x6b901122, 0xfd987193, 0xa679438e, 0x49b40821,
     0xf61e2562, 0xc040b340, 0x265e5a51, 0xe9b6c7aa, 0xd62f105d, 0x02441453, 0xd8a1e681, 0xe7d3fbc8,
     0x21e1cde6, 0xc33707d6, 0xf4d50d87, 0x455a14ed, 0xa9e3e905, 0xfcefa3f8, 0x676f02d9, 0x8d2a4c8a,
     0xfffa3942, 0x8771f681, 0x6d9d6122, 0xfde5380c, 0xa4beea44, 0x4bdecfa9, 0xf6bb4b60, 0xbebfbc70,
     0x289b7ec6, 0xeaa127fa, 0xd4ef3085, 0x04881d05, 0xd9d4d039, 0xe6db99e5, 0x1fa27cf8, 0xc4ac5665,
     0xf4292244, 0x432aff97, 0xab9423a7, 0xfc93a039, 0x655b59c3, 0x8f0ccc92, 0xffeff47d, 0x85845dd1,
     0x6fa87e4f, 0xfe2ce6e0, 0xa3014314, 0x4e0811a1, 0xf7537e82, 0xbd3af235, 0x2ad7d2bb, 0xeb86d391]"

definition rotl32 :: "nat \<Rightarrow> 32 word \<Rightarrow> 32 word" where
  "rotl32 n w = push_bit n w OR drop_bit (32 - n) w"

type_synonym md5_state = "32 word \<times> 32 word \<times> 32 word \<times> 32 word"

definition md5_round :: "32 word list \<Rightarrow> md5_state \<Rightarrow> nat \<Rightarrow> md5_state" where
  "md5_round m st i = (case st of (a, b, c, d) \<Rightarrow>
     let (f, g) =
       (if i < 16 then ((b AND c) OR (NOT b AND d), i)
        else if i < 32 then ((d AND b) OR (NOT d AND c), (5 * i + 1) mod 16)
        else if i < 48 then (b XOR c XOR d, (3 * i + 5) mod 16)
        else (c XOR (b OR NOT d), (7 * i) mod 16))
     in (d, b + rotl32 (md5_shifts ! i) (f + a + md5_table ! i + m ! g), b, c))"

definition md5_block :: "md5_state \<Rightarrow> 32 word list \<Rightarrow> md5_state" where
  "md5_block st m = (case (st, foldl (md5_round m) st [0..<64]) of
     ((a, b, c, d), (a', b', c', d')) \<Rightarrow> (a + a', b + b', c + c', d + d'))"

fun le_bytes :: "nat \<Rightarrow> nat \<Rightarrow> nat list" where
  "le_bytes 0 n = []"
| "le_bytes (Suc k) n = (n mod 256) # le_bytes k (n div 256)"

definition md5_pad :: "string \<Rightarrow> nat list" where
  "md5_pad s = map byte s @ 128 # replicate ((119 - length s mod 64) mod 64) 0
                 @ le_bytes 8 (8 * length s mod 2 ^ 64)"

fun le_words :: "nat list \<Rightarrow> 32 word list" where
  "le_words (a # b # c # d # r) =
     word_of_nat (a + 256 * b + 65536 * c + 16777216 * d) # le_words r"
| "le_words _ = []"

fun md5_blocks :: "nat \<Rightarrow> md5_state \<Rightarrow> 32 word list \<Rightarrow> md5_state" where
  "md5_blocks 0 st ws = st"
| "md5_blocks (Suc n) st ws = md5_blocks n (md5_block st (take 16 ws)) (drop 16 ws)"

definition md5_sum :: "string \<Rightarrow> nat list" where
  "md5_sum s = (let ws = le_words (md5_pad s) in
     case md5_blocks (length ws div 16) (0x67452301, 0xefcdab89, 0x98badcfe, 0x10325476) ws of
       (a, b, c, d) \<Rightarrow> concat (map (\<lambda>w. le_bytes 4 (unat w)) [a, b, c, d]))"

text \<open>\<open>fmt\<close>'s \<open>%x\<close> of a byte array: two lower-case digits for each byte.\<close>

definition hex_digit :: "nat \<Rightarrow> char" where
  "hex_digit n = (if n < 10 then char_of (48 + n) else char_of (87 + n))"

definition hex_of :: "nat list \<Rightarrow> string" where
  "hex_of bs = concat (map (\<lambda>b. [hex_digit (b div 16), hex_digit (b mod 16)]) bs)"

lemma length_le_bytes [simp]: "length (le_bytes k n) = k"
  by (induction k arbitrary: n) auto

lemma length_md5_sum [simp]: "length (md5_sum s) = 16"
  by (simp add: md5_sum_def Let_def split: prod.splits)

lemma length_hex_of [simp]: "length (hex_of bs) = 2 * length bs"
  by (induction bs) (auto simp: hex_of_def)

text \<open>The padded message is a whole number of 64-byte blocks, so no byte of it is dropped.\<close>

lemma md5_pad_blocks: "length (md5_pad s) mod 64 = 0"
proof -
  have "(n + (9 + (119 - n mod 64) mod 64)) mod 64 = 0" for n :: nat
  proof -
    define q r where "q = n div 64" and "r = n mod 64"
    then have n: "n = 64 * q + r" and r: "r < 64" by simp_all
    have "(n + (9 + (119 - r) mod 64)) mod 64 = (9 + r + (119 - r) mod 64 + 64 * q) mod 64"
      by (simp add: n algebra_simps)
    also have "\<dots> = (9 + r + (119 - r) mod 64) mod 64" by simp
    also have "\<dots> = 0"
    proof (cases "r \<le> 55")
      case True
      then have "(119 - r) mod 64 = 55 - r" by (subst le_mod_geq) auto
      with True show ?thesis by simp
    next
      case False
      with r have "(119 - r) mod 64 = 119 - r" by simp
      with False r show ?thesis by simp
    qed
    finally show ?thesis by (simp add: r_def)
  qed
  from this [of "length s"] show ?thesis by (simp add: md5_pad_def)
qed

end
