(* ===== verification/Api_Types.thy ===== *)
theory Api_Types
  imports Go_Strings "HOL-Library.Word" Complex_Main
begin

text \<open>
  The objects the controllers read and write, as far as the code looks at them: \<open>objmeta\<close> is
  \<open>metav1.ObjectMeta\<close>, every kind has a record with the spec and status fields the code uses, and
  \<open>body\<close> is the sum of the kinds, so that a client can handle any object as Go's \<open>client.Object\<close>.
  A Go pointer is an \<open>option\<close>, a map a partial function (a nil map is the empty one), a map the
  code ranges over an association list in the order of that iteration.
\<close>

section \<open>Metadata and conditions\<close>

record objkey =
  k_namespace :: string
  k_name :: string

abbreviation key_of :: "string \<Rightarrow> string \<Rightarrow> objkey" where
  "key_of ns n \<equiv> \<lparr>k_namespace = ns, k_name = n\<rparr>"

record owner_ref =
  or_kind :: string
  or_name :: string
  or_uid :: string
  or_controller :: bool

record objmeta =
  om_name :: string
  om_namespace :: string
  om_uid :: string
  om_generation :: int
  om_labels :: "string \<rightharpoonup> string"
  om_annotations :: "string \<rightharpoonup> string"
  om_finalizers :: "string list"
  om_owners :: "owner_ref list"
  om_created :: "nat option"
  om_deleted :: "nat option"

definition zero_meta :: objmeta where
  "zero_meta = \<lparr>om_name = [], om_namespace = [], om_uid = [], om_generation = 0,
     om_labels = Map.empty, om_annotations = Map.empty, om_finalizers = [], om_owners = [],
     om_created = None, om_deleted = None\<rparr>"

text \<open>Reading a Go map: a missing key gives the empty string.\<close>

definition map_get :: "(string \<rightharpoonup> string) \<Rightarrow> string \<Rightarrow> string" where
  "map_get m k = (case m k of None \<Rightarrow> [] | Some v \<Rightarrow> v)"

datatype cond_status = CTrue | CFalse | CUnknown

record condition =
  c_type :: string
  c_status :: cond_status
  c_reason :: string
  c_generation :: int
  c_message :: string

section \<open>Upstream kinds\<close>

record vol_attachment =
  va_name :: string
  va_mount :: "string option"

record env_var =
  ev_name :: string
  ev_value :: string

record container =
  ct_name :: string
  ct_image :: string
  ct_env :: "env_var list"
  ct_attachments :: "vol_attachment list"

record inst_runtime =
  rt_sandbox :: "container list option"
  rt_vm :: "vol_attachment list option"
  rt_instance_type :: string

record disk_populator =
  pop_image :: "string option"
  pop_filesystem :: "string option"

record disk_template =
  dt_type :: string
  dt_populator :: "disk_populator option"
  dt_requests :: "(string \<rightharpoonup> string) option"

record disk_source =
  ds_device :: "string option"
  ds_template :: "disk_template option"

record data_ref =
  dr_name :: string
  dr_items :: "string list"

record volume_source =
  vs_disk :: "disk_source option"
  vs_configmap :: "data_ref option"
  vs_secret :: "data_ref option"

record inst_volume =
  v_name :: string
  v_source :: volume_source

record inst_controller =
  ic_gates :: "string list"
  ic_template_hash :: string

record nic_status =
  ns_network_ip :: "string option"
  ns_external_ip :: "string option"

record inst =
  i_location :: "objkey option"
  i_controller :: "inst_controller option"
  i_runtime :: inst_runtime
  i_volumes :: "inst_volume list"
  i_nics :: nat
  i_conditions :: "condition list"
  i_observed_hash :: "string option"
  i_nic_status :: "nic_status list"

datatype int_or_string = IntVal int | StrVal string

record policy_port =
  pp_protocol :: "string option"
  pp_port :: "int_or_string option"
  pp_end :: "int option"

record ingress_rule =
  ir_ports :: "policy_port list"
  ir_from :: "string option list"

record deployment =
  wd_nics :: "ingress_rule list option list"

record gcp_location =
  gl_project :: string
  gl_region :: string
  gl_zone :: string

record location =
  loc_class :: string
  loc_gcp :: "gcp_location option"

record network =
  n_mtu :: int

record network_context =
  nc_location :: objkey
  nc_network :: string
  nc_conditions :: "condition list"

record network_binding =
  nb_context :: "objkey option"

record subnet =
  sn_location :: objkey
  sn_context :: string
  sn_conditions :: "condition list"
  sn_start :: "string option"
  sn_prefix :: "int option"

section \<open>Downstream kinds\<close>

text \<open>Crossplane's \<open>ResourceSpec\<close>: whether all management actions and deletion are set.\<close>

record resource_spec =
  rs_manage_all :: bool
  rs_delete :: bool
  rs_provider :: "string option"

record service_account =
  sa_res :: resource_spec
  sa_project :: string
  sa_description :: string
  sa_conditions :: "condition list"

record gcp_secret =
  gs_res :: resource_spec
  gs_project :: string
  gs_replication_auto :: bool
  gs_conditions :: "condition list"
  gs_at_name :: "string option"

record secret_version =
  sv_res :: resource_spec
  sv_enabled :: bool
  sv_deletion :: string
  sv_secret :: "string option"
  sv_data_key :: string
  sv_data_ref :: objkey
  sv_secret_ref :: "string option"
  sv_conditions :: "condition list"

record iam_member =
  im_res :: resource_spec
  im_project :: string
  im_secret_ref :: string
  im_role :: string
  im_member :: string
  im_conditions :: "condition list"

record access_config =
  ac_natip :: "string option"
  ac_tier :: "string option"
  ac_ptr :: "string option"

record gcp_nic =
  gn_network :: "string option"
  gn_subnetwork :: "string option"
  gn_access :: "access_config list"

record at_nic =
  an_network_ip :: "string option"
  an_natips :: "string option list"

record boot_disk =
  bd_auto_delete :: bool
  bd_device :: string
  bd_image :: string
  bd_type :: string
  bd_labels :: "string \<rightharpoonup> string"
  bd_size :: "rat option"

record gcp_instance =
  gi_res :: resource_spec
  gi_machine_type :: "string option"
  gi_can_ip_forward :: bool
  gi_metadata :: "string \<rightharpoonup> string"
  gi_hostname :: "string option"
  gi_project :: "string option"
  gi_zone :: "string option"
  gi_service_account :: "(string list \<times> string) option"
  gi_tags :: "string list"
  gi_nics :: "gcp_nic list"
  gi_boot_disk :: "boot_disk option"
  gi_conditions :: "condition list"
  gi_current_status :: "string option"
  gi_at_nics :: "at_nic list"

record fw_allow =
  fa_protocol :: string
  fa_ports :: "string list"

record firewall =
  fw_res :: resource_spec
  fw_project :: string
  fw_description :: string
  fw_direction :: string
  fw_network_ref :: string
  fw_priority :: int
  fw_tags :: "string list"
  fw_allows :: "fw_allow list"
  fw_sources :: "string list"

record gcp_network =
  gw_res :: resource_spec
  gw_mtu :: "int option"
  gw_auto_subnets :: "bool option"
  gw_policy_order :: "string option"
  gw_routing :: "string option"
  gw_project :: "string option"
  gw_conditions :: "condition list"

record subnetwork =
  sw_res :: resource_spec
  sw_cidr :: "string option"
  sw_network_ref :: "string option"
  sw_project :: "string option"
  sw_region :: "string option"
  sw_purpose :: "string option"
  sw_stack :: "string option"
  sw_conditions :: "condition list"

section \<open>Objects\<close>

datatype body =
    BInstance inst | BDeployment deployment | BWorkload | BLocation location | BNetwork network
  | BContext network_context | BBinding network_binding | BSubnet subnet
  | BNamespace | BConfigMap "(string \<times> string) list" | BSecret "(string \<times> string) list option"
  | BServiceAccount service_account | BGcpSecret gcp_secret | BSecretVersion secret_version
  | BIamMember iam_member | BGcpInstance gcp_instance | BFirewall firewall
  | BGcpNetwork gcp_network | BSubnetwork subnetwork

datatype kind =
    KInstance | KDeployment | KWorkload | KLocation | KNetwork | KContext | KBinding | KSubnet
  | KNamespace | KConfigMap | KSecret | KServiceAccount | KGcpSecret | KSecretVersion
  | KIamMember | KGcpInstance | KFirewall | KGcpNetwork | KSubnetwork

fun kind_of :: "body \<Rightarrow> kind" where
  "kind_of (BInstance _) = KInstance"
| "kind_of (BDeployment _) = KDeployment"
| "kind_of BWorkload = KWorkload"
| "kind_of (BLocation _) = KLocation"
| "kind_of (BNetwork _) = KNetwork"
| "kind_of (BContext _) = KContext"
| "kind_of (BBinding _) = KBinding"
| "kind_of (BSubnet _) = KSubnet"
| "kind_of BNamespace = KNamespace"
| "kind_of (BConfigMap _) = KConfigMap"
| "kind_of (BSecret _) = KSecret"
| "kind_of (BServiceAccount _) = KServiceAccount"
| "kind_of (BGcpSecret _) = KGcpSecret"
| "kind_of (BSecretVersion _) = KSecretVersion"
| "kind_of (BIamMember _) = KIamMember"
| "kind_of (BGcpInstance _) = KGcpInstance"
| "kind_of (BFirewall _) = KFirewall"
| "kind_of (BGcpNetwork _) = KGcpNetwork"
| "kind_of (BSubnetwork _) = KSubnetwork"

text \<open>An object is its metadata and its payload; \<open>obj\<close> is one of unknown kind.\<close>

record 'b kobj =
  md :: objmeta
  pl :: 'b

type_synonym obj = "body kobj"

abbreviation obj_kind :: "obj \<Rightarrow> kind" where
  "obj_kind x \<equiv> kind_of (pl x)"

definition obj_key :: "'b kobj \<Rightarrow> objkey" where
  "obj_key x = key_of (om_namespace (md x)) (om_name (md x))"

text \<open>
  A typed Go value of a kind and the same value as a \<open>client.Object\<close>: \<open>cd_inj\<close> forgets the type,
  \<open>cd_prj\<close> is the decoding into the typed destination of a read.
\<close>

record 'b codec =
  cd_kind :: kind
  cd_inj :: "'b \<Rightarrow> body"
  cd_prj :: "body \<Rightarrow> 'b option"

definition to_obj :: "'b codec \<Rightarrow> 'b kobj \<Rightarrow> obj" where
  "to_obj c x = \<lparr>md = md x, pl = cd_inj c (pl x)\<rparr>"

definition of_obj :: "'b codec \<Rightarrow> obj \<Rightarrow> goerr + 'b kobj" where
  "of_obj c x = (case cd_prj c (pl x) of
     None \<Rightarrow> Inl DecodeError
   | Some b \<Rightarrow> Inr \<lparr>md = md x, pl = b\<rparr>)"

definition codec_ok :: "'b codec \<Rightarrow> bool" where
  "codec_ok c \<longleftrightarrow> (\<forall>b. cd_prj c (cd_inj c b) = Some b \<and> kind_of (cd_inj c b) = cd_kind c) \<and>
     (\<forall>x b. cd_prj c x = Some b \<longrightarrow> x = cd_inj c b)"

lemma to_obj_simps [simp]:
  "md (to_obj c x) = md x" "pl (to_obj c x) = cd_inj c (pl x)" "obj_key (to_obj c x) = obj_key x"
  by (simp_all add: to_obj_def obj_key_def)

lemma of_obj_to_obj [simp]: "codec_ok c \<Longrightarrow> of_obj c (to_obj c x) = Inr x"
  by (simp add: of_obj_def to_obj_def codec_ok_def)

lemma of_obj_InrD: "codec_ok c \<Longrightarrow> of_obj c x = Inr y \<Longrightarrow> x = to_obj c y"
  by (auto simp: of_obj_def to_obj_def codec_ok_def split: option.splits)

lemma of_obj_InlD: "of_obj c x = Inl e \<Longrightarrow> e = DecodeError"
  by (auto simp: of_obj_def split: option.splits)

lemma of_obj_md: "of_obj c x = Inr y \<Longrightarrow> md y = md x"
  by (auto simp: of_obj_def split: option.splits)

definition instance_c :: "inst codec" where
  "instance_c = \<lparr>cd_kind = KInstance, cd_inj = BInstance,
     cd_prj = (\<lambda>x. case x of BInstance b \<Rightarrow> Some b | _ \<Rightarrow> None)\<rparr>"

definition deployment_c :: "deployment codec" where
  "deployment_c = \<lparr>cd_kind = KDeployment, cd_inj = BDeployment,
     cd_prj = (\<lambda>x. case x of BDeployment b \<Rightarrow> Some b | _ \<Rightarrow> None)\<rparr>"

definition workload_c :: "unit codec" where
  "workload_c = \<lparr>cd_kind = KWorkload, cd_inj = (\<lambda>_. BWorkload),
     cd_prj = (\<lambda>x. case x of BWorkload \<Rightarrow> Some () | _ \<Rightarrow> None)\<rparr>"

definition location_c :: "location codec" where
  "location_c = \<lparr>cd_kind = KLocation, cd_inj = BLocation,
     cd_prj = (\<lambda>x. case x of BLocation b \<Rightarrow> Some b | _ \<Rightarrow> None)\<rparr>"

definition network_c :: "network codec" where
  "network_c = \<lparr>cd_kind = KNetwork, cd_inj = BNetwork,
     cd_prj = (\<lambda>x. case x of BNetwork b \<Rightarrow> Some b | _ \<Rightarrow> None)\<rparr>"

definition context_c :: "network_context codec" where
  "context_c = \<lparr>cd_kind = KContext, cd_inj = BContext,
     cd_prj = (\<lambda>x. case x of BContext b \<Rightarrow> Some b | _ \<Rightarrow> None)\<rparr>"

definition binding_c :: "network_binding codec" where
  "binding_c = \<lparr>cd_kind = KBinding, cd_inj = BBinding,
     cd_prj = (\<lambda>x. case x of BBinding b \<Rightarrow> Some b | _ \<Rightarrow> None)\<rparr>"

definition subnet_c :: "subnet codec" where
  "subnet_c = \<lparr>cd_kind = KSubnet, cd_inj = BSubnet,
     cd_prj = (\<lambda>x. case x of BSubnet b \<Rightarrow> Some b | _ \<Rightarrow> None)\<rparr>"

definition namespace_c :: "unit codec" where
  "namespace_c = \<lparr>cd_kind = KNamespace, cd_inj = (\<lambda>_. BNamespace),
     cd_prj = (\<lambda>x. case x of BNamespace \<Rightarrow> Some () | _ \<Rightarrow> None)\<rparr>"

definition configmap_c :: "(string \<times> string) list codec" where
  "configmap_c = \<lparr>cd_kind = KConfigMap, cd_inj = BConfigMap,
     cd_prj = (\<lambda>x. case x of BConfigMap b \<Rightarrow> Some b | _ \<Rightarrow> None)\<rparr>"

definition secret_c :: "(string \<times> string) list option codec" where
  "secret_c = \<lparr>cd_kind = KSecret, cd_inj = BSecret,
     cd_prj = (\<lambda>x. case x of BSecret b \<Rightarrow> Some b | _ \<Rightarrow> None)\<rparr>"

definition service_account_c :: "service_account codec" where
  "service_account_c = \<lparr>cd_kind = KServiceAccount, cd_inj = BServiceAccount,
     cd_prj = (\<lambda>x. case x of BServiceAccount b \<Rightarrow> Some b | _ \<Rightarrow> None)\<rparr>"

definition gcp_secret_c :: "gcp_secret codec" where
  "gcp_secret_c = \<lparr>cd_kind = KGcpSecret, cd_inj = BGcpSecret,
     cd_prj = (\<lambda>x. case x of BGcpSecret b \<Rightarrow> Some b | _ \<Rightarrow> None)\<rparr>"

definition secret_version_c :: "secret_version codec" where
  "secret_version_c = \<lparr>cd_kind = KSecretVersion, cd_inj = BSecretVersion,
     cd_prj = (\<lambda>x. case x of BSecretVersion b \<Rightarrow> Some b | _ \<Rightarrow> None)\<rparr>"

definition iam_member_c :: "iam_member codec" where
  "iam_member_c = \<lparr>cd_kind = KIamMember, cd_inj = BIamMember,
     cd_prj = (\<lambda>x. case x of BIamMember b \<Rightarrow> Some b | _ \<Rightarrow> None)\<rparr>"

definition gcp_instance_c :: "gcp_instance codec" where
  "gcp_instance_c = \<lparr>cd_kind = KGcpInstance, cd_inj = BGcpInstance,
     cd_prj = (\<lambda>x. case x of BGcpInstance b \<Rightarrow> Some b | _ \<Rightarrow> None)\<rparr>"

definition firewall_c :: "firewall codec" where
  "firewall_c = \<lparr>cd_kind = KFirewall, cd_inj = BFirewall,
     cd_prj = (\<lambda>x. case x of BFirewall b \<Rightarrow> Some b | _ \<Rightarrow> None)\<rparr>"

definition gcp_network_c :: "gcp_network codec" where
  "gcp_network_c = \<lparr>cd_kind = KGcpNetwork, cd_inj = BGcpNetwork,
     cd_prj = (\<lambda>x. case x of BGcpNetwork b \<Rightarrow> Some b | _ \<Rightarrow> None)\<rparr>"

definition subnetwork_c :: "subnetwork codec" where
  "subnetwork_c = \<lparr>cd_kind = KSubnetwork, cd_inj = BSubnetwork,
     cd_prj = (\<lambda>x. case x of BSubnetwork b \<Rightarrow> Some b | _ \<Rightarrow> None)\<rparr>"

lemmas codec_defs = instance_c_def deployment_c_def workload_c_def location_c_def network_c_def
  context_c_def binding_c_def subnet_c_def namespace_c_def configmap_c_def secret_c_def
  service_account_c_def gcp_secret_c_def secret_version_c_def iam_member_c_def
  gcp_instance_c_def firewall_c_def gcp_network_c_def subnetwork_c_def

lemma codecs_ok [simp]:
  "codec_ok instance_c" "codec_ok deployment_c" "codec_ok workload_c" "codec_ok location_c"
  "codec_ok network_c" "codec_ok context_c" "codec_ok binding_c" "codec_ok subnet_c"
  "codec_ok namespace_c" "codec_ok configmap_c" "codec_ok secret_c" "codec_ok service_account_c"
  "codec_ok gcp_secret_c" "codec_ok secret_version_c" "codec_ok iam_member_c"
  "codec_ok gcp_instance_c" "codec_ok firewall_c" "codec_ok gcp_network_c" "codec_ok subnetwork_c"
  by (auto simp: codec_ok_def codec_defs split: body.splits)

lemma codec_kinds [simp]:
  "cd_kind instance_c = KInstance" "cd_kind deployment_c = KDeployment"
  "cd_kind workload_c = KWorkload" "cd_kind location_c = KLocation"
  "cd_kind network_c = KNetwork" "cd_kind context_c = KContext" "cd_kind binding_c = KBinding"
  "cd_kind subnet_c = KSubnet" "cd_kind namespace_c = KNamespace"
  "cd_kind configmap_c = KConfigMap" "cd_kind secret_c = KSecret"
  "cd_kind service_account_c = KServiceAccount" "cd_kind gcp_secret_c = KGcpSecret"
  "cd_kind secret_version_c = KSecretVersion" "cd_kind iam_member_c = KIamMember"
  "cd_kind gcp_instance_c = KGcpInstance" "cd_kind firewall_c = KFirewall"
  "cd_kind gcp_network_c = KGcpNetwork" "cd_kind subnetwork_c = KSubnetwork"
  by (simp_all add: codec_defs)

lemma codec_inj_kind [simp]: "codec_ok c \<Longrightarrow> kind_of (cd_inj c b) = cd_kind c"
  by (simp add: codec_ok_def)

section \<open>Zero values\<close>

text \<open>The zero values of the typed variables the code declares before a read that may find nothing.\<close>

definition zero_res :: resource_spec where
  "zero_res = \<lparr>rs_manage_all = False, rs_delete = False, rs_provider = None\<rparr>"

definition zero_service_account :: "service_account kobj" where
  "zero_service_account = \<lparr>md = zero_meta, pl = \<lparr>sa_res = zero_res, sa_project = [],
     sa_description = [], sa_conditions = []\<rparr>\<rparr>"

definition zero_gcp_secret :: "gcp_secret kobj" where
  "zero_gcp_secret = \<lparr>md = zero_meta, pl = \<lparr>gs_res = zero_res, gs_project = [],
     gs_replication_auto = False, gs_conditions = [], gs_at_name = None\<rparr>\<rparr>"

definition zero_secret_version :: "secret_version kobj" where
  "zero_secret_version = \<lparr>md = zero_meta, pl = \<lparr>sv_res = zero_res, sv_enabled = False,
     sv_deletion = [], sv_secret = None, sv_data_key = [], sv_data_ref = key_of [] [],
     sv_secret_ref = None, sv_conditions = []\<rparr>\<rparr>"

definition zero_iam_member :: "iam_member kobj" where
  "zero_iam_member = \<lparr>md = zero_meta, pl = \<lparr>im_res = zero_res, im_project = [], im_secret_ref = [],
     im_role = [], im_member = [], im_conditions = []\<rparr>\<rparr>"

definition zero_gcp_instance :: "gcp_instance kobj" where
  "zero_gcp_instance = \<lparr>md = zero_meta, pl = \<lparr>gi_res = zero_res, gi_machine_type = None,
     gi_can_ip_forward = False, gi_metadata = Map.empty, gi_hostname = None, gi_project = None,
     gi_zone = None, gi_service_account = None, gi_tags = [], gi_nics = [], gi_boot_disk = None,
     gi_conditions = [], gi_current_status = None, gi_at_nics = []\<rparr>\<rparr>"

definition zero_firewall :: "firewall kobj" where
  "zero_firewall = \<lparr>md = zero_meta, pl = \<lparr>fw_res = zero_res, fw_project = [], fw_description = [],
     fw_direction = [], fw_network_ref = [], fw_priority = 0, fw_tags = [], fw_allows = [],
     fw_sources = []\<rparr>\<rparr>"

definition zero_gcp_network :: "gcp_network kobj" where
  "zero_gcp_network = \<lparr>md = zero_meta, pl = \<lparr>gw_res = zero_res, gw_mtu = None,
     gw_auto_subnets = None, gw_policy_order = None, gw_routing = None, gw_project = None,
     gw_conditions = []\<rparr>\<rparr>"

definition zero_subnetwork :: "subnetwork kobj" where
  "zero_subnetwork = \<lparr>md = zero_meta, pl = \<lparr>sw_res = zero_res, sw_cidr = None,
     sw_network_ref = None, sw_project = None, sw_region = None, sw_purpose = None,
     sw_stack = None, sw_conditions = []\<rparr>\<rparr>"

definition zero_configmap :: "(string \<times> string) list kobj" where
  "zero_configmap = \<lparr>md = zero_meta, pl = []\<rparr>"

definition named :: "string \<Rightarrow> string \<Rightarrow> 'b kobj \<Rightarrow> 'b kobj" where
  "named ns n x = x\<lparr>md := (md x)\<lparr>om_namespace := ns, om_name := n\<rparr>\<rparr>"

lemma zero_meta_simps [simp]:
  "om_created zero_meta = None" "om_deleted zero_meta = None" "om_finalizers zero_meta = []"
  "om_labels zero_meta = Map.empty" "om_annotations zero_meta = Map.empty"
  "om_name zero_meta = []" "om_namespace zero_meta = []" "om_owners zero_meta = []"
  by (simp_all add: zero_meta_def)

lemma md_zero [simp]:
  "md zero_service_account = zero_meta" "md zero_gcp_secret = zero_meta"
  "md zero_secret_version = zero_meta" "md zero_iam_member = zero_meta"
  "md zero_gcp_instance = zero_meta" "md zero_firewall = zero_meta"
  "md zero_gcp_network = zero_meta" "md zero_subnetwork = zero_meta" "md zero_configmap = zero_meta"
  by (simp_all add: zero_service_account_def zero_gcp_secret_def zero_secret_version_def
    zero_iam_member_def zero_gcp_instance_def zero_firewall_def zero_gcp_network_def
    zero_subnetwork_def zero_configmap_def)

lemma named_simps [simp]:
  "om_name (md (named ns n x)) = n" "om_namespace (md (named ns n x)) = ns"
  "om_created (md (named ns n x)) = om_created (md x)" "pl (named ns n x) = pl x"
  "om_deleted (md (named ns n x)) = om_deleted (md x)"
  "om_labels (md (named ns n x)) = om_labels (md x)"
  "om_finalizers (md (named ns n x)) = om_finalizers (md x)"
  "om_annotations (md (named ns n x)) = om_annotations (md x)"
  "obj_key (named ns n x) = key_of ns n"
  by (simp_all add: named_def obj_key_def)

end
