(* ===== verification/Cloud_Config.thy ===== *)
theory Cloud_Config
  imports Go_Encoding Api_Types
begin

text \<open>
  The cloud-init document of \<open>internal/controller/cloudinit/cloudconfig.go\<close> and the part of a
  Kubernetes pod that \<open>reconcileSandboxRuntimeInstance\<close> fills in, with the constructors for the
  files and volumes that appear in them. Rendering either to YAML is a library's work.
\<close>

record write_file =
  wf_encoding :: string
  wf_content :: string
  wf_owner :: string
  wf_path :: string
  wf_permissions :: string

record fs_setup =
  fs_label :: string
  fs_filesystem :: string
  fs_device :: string

record cloud_config =
  cc_hostname :: string
  cc_preserve_hostname :: "bool option"
  cc_run_cmd :: "string list"
  cc_write_files :: "write_file list"
  cc_fs_setup :: "fs_setup list"
  cc_mounts :: "string list"

definition zero_cloud_config :: cloud_config where
  "zero_cloud_config = \<lparr>cc_hostname = [], cc_preserve_hostname = None, cc_run_cmd = [],
     cc_write_files = [], cc_fs_setup = [], cc_mounts = []\<rparr>"

text \<open>A root-owned file with base64 content: the only form the controllers write.\<close>

definition b64_file :: "string \<Rightarrow> string \<Rightarrow> string \<Rightarrow> write_file" where
  "b64_file path perms content = \<lparr>wf_encoding = ''b64'', wf_content = base64_encode content,
     wf_owner = ''root:root'', wf_path = path, wf_permissions = perms\<rparr>"

definition add_file :: "write_file \<Rightarrow> cloud_config \<Rightarrow> cloud_config" where
  "add_file f c = c\<lparr>cc_write_files := cc_write_files c @ [f]\<rparr>"

definition add_cmd :: "string \<Rightarrow> cloud_config \<Rightarrow> cloud_config" where
  "add_cmd s c = c\<lparr>cc_run_cmd := cc_run_cmd c @ [s]\<rparr>"

record volume_mount =
  vm_name :: string
  vm_path :: string

record pod_container =
  pc_name :: string
  pc_image :: string
  pc_env :: "env_var list"
  pc_mounts :: "volume_mount list"

text \<open>A host path volume of type \<open>Directory\<close>.\<close>

record pod_volume =
  pv_name :: string
  pv_host_path :: string

record pod =
  pod_name :: string
  pod_namespace :: string
  pod_host_network :: bool
  pod_containers :: "pod_container list"
  pod_volumes :: "pod_volume list"

lemma b64_file_content: "base64_decode (wf_content (b64_file path perms content)) = Some content"
  by (simp add: b64_file_def base64_decode_encode)

lemma cc_simps [simp]:
  "cc_write_files (add_file f c) = cc_write_files c @ [f]" "cc_run_cmd (add_file f c) = cc_run_cmd c"
  "cc_run_cmd (add_cmd s c) = cc_run_cmd c @ [s]" "cc_write_files (add_cmd s c) = cc_write_files c"
  by (simp_all add: add_file_def add_cmd_def)

end
