(* ===== verification/Api_Client.thy ===== *)
theory Api_Client
  imports Cloud_Config
begin

text \<open>
  The boundary to the code outside the repository. \<open>server\<close> is the API servers and the multicluster
  manager: functions of a hidden state of type \<open>'w\<close>, nothing is assumed about them. \<open>world\<close> is that
  state with the trace of the API calls made so far, and \<open>api_client\<close> is a \<open>client.Client\<close> that makes
  the calls and records them. \<open>deps\<close> holds the server and the library functions of apimachinery,
  controller-runtime and Crossplane the controllers call; every definition that uses one takes it
  as an argument. What a property needs of them is a hypothesis, one of the \<open>_law\<close> predicates below,
  which state the documented behaviour of the function.
\<close>

section \<open>Events and clients\<close>

datatype side = Upstream string | Downstream

record list_opts =
  lo_namespace :: "string option"
  lo_labels :: "(string \<times> string) list"
  lo_index :: "(string \<times> string) option"

datatype event =
    EGet side kind objkey "goerr + obj"
  | EList side kind list_opts "goerr + obj list"
  | ECreate side obj "goerr + obj"
  | EUpdate side obj "goerr + obj"
  | EStatusUpdate side obj "goerr + obj"
  | EPatch side obj obj "goerr + obj"
  | EDelete side kind objkey "goerr + unit"

text \<open>
  \<open>client.Client\<close>. Go's methods fill in the object passed to them; here they return it.
\<close>

record 's client =
  cl_get :: "kind \<Rightarrow> objkey \<Rightarrow> ('s, obj) act"
  cl_list :: "kind \<Rightarrow> list_opts \<Rightarrow> ('s, obj list) act"
  cl_create :: "obj \<Rightarrow> ('s, obj) act"
  cl_update :: "obj \<Rightarrow> ('s, obj) act"
  cl_status_update :: "obj \<Rightarrow> ('s, obj) act"
  cl_patch :: "obj \<Rightarrow> obj \<Rightarrow> ('s, obj) act"
  cl_delete :: "kind \<Rightarrow> objkey \<Rightarrow> ('s, unit) act"

record 'w server =
  sv_cluster :: "string \<Rightarrow> 'w \<Rightarrow> (goerr + unit) \<times> 'w"
  sv_now :: "'w \<Rightarrow> string \<times> 'w"
  sv_get :: "side \<Rightarrow> kind \<Rightarrow> objkey \<Rightarrow> 'w \<Rightarrow> (goerr + obj) \<times> 'w"
  sv_list :: "side \<Rightarrow> kind \<Rightarrow> list_opts \<Rightarrow> 'w \<Rightarrow> (goerr + obj list) \<times> 'w"
  sv_create :: "side \<Rightarrow> obj \<Rightarrow> 'w \<Rightarrow> (goerr + obj) \<times> 'w"
  sv_update :: "side \<Rightarrow> obj \<Rightarrow> 'w \<Rightarrow> (goerr + obj) \<times> 'w"
  sv_status_update :: "side \<Rightarrow> obj \<Rightarrow> 'w \<Rightarrow> (goerr + obj) \<times> 'w"
  sv_patch :: "side \<Rightarrow> obj \<Rightarrow> obj \<Rightarrow> 'w \<Rightarrow> (goerr + obj) \<times> 'w"
  sv_delete :: "side \<Rightarrow> kind \<Rightarrow> objkey \<Rightarrow> 'w \<Rightarrow> (goerr + unit) \<times> 'w"

record 'w world =
  srv :: 'w
  trace :: "event list"

text \<open>One call: ask the server, record the request and its answer.\<close>

definition call :: "('w \<Rightarrow> (goerr + 'a) \<times> 'w) \<Rightarrow> (goerr + 'a \<Rightarrow> event) \<Rightarrow> ('w world, 'a) act" where
  "call f ev = (\<lambda>w. case f (srv w) of
     (r, s) \<Rightarrow> (of_sum r, w\<lparr>srv := s, trace := trace w @ [ev r]\<rparr>))"

definition api_client :: "'w server \<Rightarrow> side \<Rightarrow> 'w world client" where
  "api_client sv s = \<lparr>
     cl_get = (\<lambda>k key. call (sv_get sv s k key) (EGet s k key)),
     cl_list = (\<lambda>k opts. call (sv_list sv s k opts) (EList s k opts)),
     cl_create = (\<lambda>x. call (sv_create sv s x) (ECreate s x)),
     cl_update = (\<lambda>x. call (sv_update sv s x) (EUpdate s x)),
     cl_status_update = (\<lambda>x. call (sv_status_update sv s x) (EStatusUpdate s x)),
     cl_patch = (\<lambda>x y. call (sv_patch sv s x y) (EPatch s x y)),
     cl_delete = (\<lambda>k key. call (sv_delete sv s k key) (EDelete s k key))\<rparr>"

text \<open>Calls that no property looks at and no trace records: the manager's clusters and the clock.\<close>

definition silent :: "('w \<Rightarrow> (goerr + 'a) \<times> 'w) \<Rightarrow> ('w world, 'a) act" where
  "silent f = (\<lambda>w. case f (srv w) of (r, s) \<Rightarrow> (of_sum r, w\<lparr>srv := s\<rparr>))"

section \<open>The library\<close>

text \<open>
  Constants of the workload-operator, network-services-operator and Crossplane APIs, and the text of
  the script the build embeds from \<open>cloudinit/populate_secrets.py\<close>.
\<close>

record api_consts =
  k_workload_uid_label :: string
  k_deployment_uid_label :: string
  k_ssh_keys_annotation :: string
  k_instance_programmed :: string
  k_instance_pending :: string
  k_instance_programmed_reason :: string
  k_instance_running :: string
  k_running_stopped :: string
  k_running_stopping :: string
  k_running_starting :: string
  k_running_running :: string
  k_context_programmed :: string
  k_context_not_programmed :: string
  k_context_in_progress :: string
  k_subnet_programmed :: string
  k_subnet_allocated :: string
  k_subnet_not_programmed :: string
  k_subnet_in_progress :: string
  k_subnet_programmed_reason :: string
  k_type_ready :: string
  k_type_synced :: string
  k_external_name :: string
  k_external_create_succeeded :: string
  k_populate_script :: string
  k_provider_single :: string
  k_provider_milo :: string

record 'w deps =
  d_server :: "'w server"
  d_consts :: api_consts
  d_is_not_found :: "goerr \<Rightarrow> bool"
  d_is_conflict :: "goerr \<Rightarrow> bool"
  d_deep_equal :: "obj \<Rightarrow> obj \<Rightarrow> bool"
  d_contains_finalizer :: "string list \<Rightarrow> string \<Rightarrow> bool"
  d_add_finalizer :: "string list \<Rightarrow> string \<Rightarrow> string list"
  d_remove_finalizer :: "string list \<Rightarrow> string \<Rightarrow> string list \<times> bool"
  d_set_condition :: "condition list \<Rightarrow> condition \<Rightarrow> condition list \<times> bool"
  d_condition_true :: "condition list \<Rightarrow> string \<Rightarrow> bool"
  d_get_condition :: "condition list \<Rightarrow> string \<Rightarrow> condition"
  d_controller_of :: "owner_ref list \<Rightarrow> owner_ref option"
  d_set_owner_ref :: "obj \<Rightarrow> obj \<Rightarrow> goerr + obj"
  d_set_controller_ref :: "obj \<Rightarrow> obj \<Rightarrow> goerr + obj"
  d_gvk :: "obj \<Rightarrow> goerr + (string \<times> string)"
  d_set_meta_label :: "(string \<rightharpoonup> string) \<Rightarrow> string \<Rightarrow> string \<Rightarrow> (string \<rightharpoonup> string)"
  d_unsorted_list :: "string list \<Rightarrow> string list"
  d_encode_pod :: "pod \<Rightarrow> goerr + string"
  d_yaml_marshal :: "cloud_config \<Rightarrow> goerr + string"
  d_int_value :: "int_or_string \<Rightarrow> int"
  d_as_float64 :: "string \<Rightarrow> rat"
  d_create_or_update :: "'w world client \<Rightarrow> obj \<Rightarrow> (obj \<Rightarrow> ('w world, obj) act) \<Rightarrow> ('w world, obj) act"
  d_create_or_patch :: "'w world client \<Rightarrow> obj \<Rightarrow> (obj \<Rightarrow> ('w world, obj) act) \<Rightarrow> ('w world, obj) act"
  d_finalize :: "string \<Rightarrow> (obj \<Rightarrow> ('w world, unit) act) \<Rightarrow> obj \<Rightarrow> ('w world, obj \<times> bool) act"

definition upstream :: "'w deps \<Rightarrow> string \<Rightarrow> 'w world client" where
  "upstream d cluster = api_client (d_server d) (Upstream cluster)"

definition downstream :: "'w deps \<Rightarrow> 'w world client" where
  "downstream d = api_client (d_server d) Downstream"

text \<open>\<open>mgr.GetCluster(ctx, clusterName)\<close>\<close>

definition get_cluster :: "'w deps \<Rightarrow> string \<Rightarrow> ('w world, unit) act" where
  "get_cluster d cluster = silent (sv_cluster (d_server d) cluster)"

text \<open>\<open>time.Now().Format(time.RFC3339)\<close>\<close>

definition now :: "'w deps \<Rightarrow> ('w world, string) act" where
  "now d = silent (\<lambda>s. case sv_now (d_server d) s of (t, s') \<Rightarrow> (Inr t, s'))"

section \<open>Typed reads and writes\<close>

definition get_as :: "'s client \<Rightarrow> 'b codec \<Rightarrow> objkey \<Rightarrow> ('s, 'b kobj) act" where
  "get_as c k key = bindA (cl_get c (cd_kind k) key) (\<lambda>x. pure (of_obj k x))"

text \<open>
  \<open>if err := c.Get(ctx, key, &x); client.IgnoreNotFound(err) != nil { return err }\<close>: where nothing is
  found the variable keeps its value \<open>zero\<close>.
\<close>

definition get_or_zero :: "'w deps \<Rightarrow> 's client \<Rightarrow> 'b codec \<Rightarrow> objkey \<Rightarrow> 'b kobj \<Rightarrow> ('s, 'b kobj) act" where
  "get_or_zero d c k key zero = bindA (tryA (get_as c k key)) (\<lambda>r. case r of
     Inr x \<Rightarrow> ret x
   | Inl e \<Rightarrow> if d_is_not_found d e then ret zero else fail e)"

definition create_as :: "'s client \<Rightarrow> 'b codec \<Rightarrow> 'b kobj \<Rightarrow> ('s, 'b kobj) act" where
  "create_as c k x = bindA (cl_create c (to_obj k x)) (\<lambda>y. pure (of_obj k y))"

definition update_as :: "'s client \<Rightarrow> 'b codec \<Rightarrow> 'b kobj \<Rightarrow> ('s, 'b kobj) act" where
  "update_as c k x = bindA (cl_update c (to_obj k x)) (\<lambda>y. pure (of_obj k y))"

definition status_update_as :: "'s client \<Rightarrow> 'b codec \<Rightarrow> 'b kobj \<Rightarrow> ('s, 'b kobj) act" where
  "status_update_as c k x = bindA (cl_status_update c (to_obj k x)) (\<lambda>y. pure (of_obj k y))"

text \<open>\<open>if err := c.Delete(ctx, obj); client.IgnoreNotFound(err) != nil { return err }\<close>\<close>

definition delete_ignoring_not_found :: "'w deps \<Rightarrow> 's client \<Rightarrow> kind \<Rightarrow> objkey \<Rightarrow> ('s, unit) act" where
  "delete_ignoring_not_found d c k key = bindA (tryA (cl_delete c k key)) (\<lambda>r. case r of
     Inr _ \<Rightarrow> ret ()
   | Inl e \<Rightarrow> if d_is_not_found d e then ret () else fail e)"

text \<open>\<open>controllerutil.CreateOrPatch\<close> on a typed object, the callback on the typed object too.\<close>

definition typed_callback :: "'b codec \<Rightarrow> ('b kobj \<Rightarrow> ('s, 'b kobj) act) \<Rightarrow> obj \<Rightarrow> ('s, obj) act" where
  "typed_callback k f y =
     bindA (pure (of_obj k y)) (\<lambda>z. bindA (f z) (\<lambda>z'. ret (to_obj k z')))"

definition create_or_patch_as ::
  "'w deps \<Rightarrow> 'w world client \<Rightarrow> 'b codec \<Rightarrow> 'b kobj \<Rightarrow> ('b kobj \<Rightarrow> ('w world, 'b kobj) act) \<Rightarrow>
     ('w world, 'b kobj) act" where
  "create_or_patch_as d c k x f =
     bindA (d_create_or_patch d c (to_obj k x)
       (typed_callback k f))
     (\<lambda>y. pure (of_obj k y))"

definition create_or_update_as ::
  "'w deps \<Rightarrow> 'w world client \<Rightarrow> 'b codec \<Rightarrow> 'b kobj \<Rightarrow> ('b kobj \<Rightarrow> ('w world, 'b kobj) act) \<Rightarrow>
     ('w world, 'b kobj) act" where
  "create_or_update_as d c k x f =
     bindA (d_create_or_update d c (to_obj k x)
       (typed_callback k f))
     (\<lambda>y. pure (of_obj k y))"

section \<open>Documented laws of the library\<close>

text \<open>A callback that leaves the object's kind, name and namespace alone.\<close>

definition keeps_key :: "(obj \<Rightarrow> ('s, obj) act) \<Rightarrow> bool" where
  "keeps_key f \<longleftrightarrow> (\<forall>x s y s'. f x s = (Ok y, s') \<longrightarrow> obj_key y = obj_key x \<and> obj_kind y = obj_kind x)"

text \<open>
  CreateOrUpdate and CreateOrPatch fetch the object; where there is none they call the callback on the
  object given and create the result; where there is one they call the callback on it and, if that
  changed it (\<open>equality.Semantic.DeepEqual\<close>), update (or patch) it; they return the first error of any
  of these.
\<close>

definition upsert_doc ::
  "('w deps) \<Rightarrow> ('w world client \<Rightarrow> obj \<Rightarrow> obj \<Rightarrow> ('w world, obj) act) \<Rightarrow>
     'w world client \<Rightarrow> obj \<Rightarrow> (obj \<Rightarrow> ('w world, obj) act) \<Rightarrow> ('w world, obj) act" where
  "upsert_doc d write c x f =
     bindA (tryA (cl_get c (obj_kind x) (obj_key x))) (\<lambda>r. case r of
       Inl e \<Rightarrow> if d_is_not_found d e then bindA (f x) (cl_create c) else fail e
     | Inr y \<Rightarrow> bindA (f y) (\<lambda>z. if d_deep_equal d y z then ret y else write c y z))"

definition create_or_update_law :: "'w deps \<Rightarrow> bool" where
  "create_or_update_law d \<longleftrightarrow> (\<forall>c x f. keeps_key f \<longrightarrow>
     d_create_or_update d c x f = upsert_doc d (\<lambda>c _. cl_update c) c x f)"

definition create_or_patch_law :: "'w deps \<Rightarrow> bool" where
  "create_or_patch_law d \<longleftrightarrow> (\<forall>c x f. keeps_key f \<longrightarrow>
     d_create_or_patch d c x f = upsert_doc d cl_patch c x f)"

text \<open>\<open>apierrors.IsNotFound\<close> is about the server's answer, not about decoding it.\<close>

definition not_found_law :: "'w deps \<Rightarrow> bool" where
  "not_found_law d \<longleftrightarrow> \<not> d_is_not_found d DecodeError"

text \<open>A finalizer list: membership, insertion at the end, removal with a flag for a change.\<close>

definition finalizer_law :: "'w deps \<Rightarrow> bool" where
  "finalizer_law d \<longleftrightarrow>
     (\<forall>fs f. d_contains_finalizer d fs f = (f \<in> set fs)) \<and>
     (\<forall>fs f. set (d_add_finalizer d fs f) = insert f (set fs)) \<and>
     (\<forall>fs f. d_remove_finalizer d fs f = (filter (\<lambda>g. g \<noteq> f) fs, f \<in> set fs))"

text \<open>
  SetStatusCondition makes the list contain the condition for its type, leaves the other types alone,
  and reports whether the list changed; IsStatusConditionTrue looks the type up.
\<close>

definition condition_law :: "'w deps \<Rightarrow> bool" where
  "condition_law d \<longleftrightarrow>
     (\<forall>cs c. find (\<lambda>x. c_type x = c_type c) (fst (d_set_condition d cs c)) = Some c) \<and>
     (\<forall>cs c t. t \<noteq> c_type c \<longrightarrow>
        find (\<lambda>x. c_type x = t) (fst (d_set_condition d cs c)) = find (\<lambda>x. c_type x = t) cs) \<and>
     (\<forall>cs c. snd (d_set_condition d cs c) = (find (\<lambda>x. c_type x = c_type c) cs \<noteq> Some c)) \<and>
     (\<forall>cs t. d_condition_true d cs t =
        (case find (\<lambda>x. c_type x = t) cs of None \<Rightarrow> False | Some c \<Rightarrow> c_status c = CTrue))"

text \<open>
  finalizer.Finalizers with one registered finalizer: on an object that is not being deleted add the key
  where it is missing; on one that is being deleted and holds the key run the finalizer and, when it
  succeeds, take the key out; report whether the object's finalizers changed.
\<close>

definition finalize_law :: "'w deps \<Rightarrow> bool" where
  "finalize_law d \<longleftrightarrow> (\<forall>key f x. d_finalize d key f x =
     (if om_deleted (md x) = None then
        (if key \<in> set (om_finalizers (md x)) then ret (x, False)
         else ret (x\<lparr>md := (md x)\<lparr>om_finalizers := om_finalizers (md x) @ [key]\<rparr>\<rparr>, True))
      else if key \<in> set (om_finalizers (md x)) then
        bindA (tryA (f x)) (\<lambda>r. case r of
          Inl e \<Rightarrow> fail (Joined [e])
        | Inr _ \<Rightarrow> ret (x\<lparr>md := (md x)\<lparr>om_finalizers := filter (\<lambda>g. g \<noteq> key) (om_finalizers (md x))\<rparr>\<rparr>, True))
      else ret (x, False)))"

text \<open>Setting an owner or controller reference changes the owner references only.\<close>

definition owner_law :: "'w deps \<Rightarrow> bool" where
  "owner_law d \<longleftrightarrow> (\<forall>owner x y.
     d_set_owner_ref d owner x = Inr y \<or> d_set_controller_ref d owner x = Inr y \<longrightarrow>
     y = x\<lparr>md := (md x)\<lparr>om_owners := om_owners (md y)\<rparr>\<rparr>)"

text \<open>The API server answers with the object asked for: a read and a write return the key and kind named.\<close>

definition server_law :: "'w deps \<Rightarrow> bool" where
  "server_law d \<longleftrightarrow>
     (\<forall>s k key w x w'. sv_get (d_server d) s k key w = (Inr x, w') \<longrightarrow> obj_key x = key \<and> obj_kind x = k) \<and>
     (\<forall>s x w y w'. sv_status_update (d_server d) s x w = (Inr y, w') \<longrightarrow>
        obj_key y = obj_key x \<and> obj_kind y = obj_kind x)"

definition library_laws :: "'w deps \<Rightarrow> bool" where
  "library_laws d \<longleftrightarrow> create_or_update_law d \<and> create_or_patch_law d \<and> not_found_law d \<and>
     finalizer_law d \<and> condition_law d \<and> finalize_law d \<and> owner_law d \<and> server_law d"

lemma library_lawsD:
  assumes "library_laws d"
  shows "create_or_update_law d" "create_or_patch_law d" "not_found_law d" "finalizer_law d"
    "condition_law d" "finalize_law d" "owner_law d" "server_law d"
  using assms by (simp_all add: library_laws_def)

section \<open>What a call leaves in the trace\<close>

lemma hist_call: "(\<And>r. Q (of_sum r) [ev r]) \<Longrightarrow> hist trace Q (call f ev)"
  by (rule histI) (auto simp: call_def split: prod.splits)

lemma emits_call [hist_intros]: "(\<And>r. P (ev r)) \<Longrightarrow> emits trace P (call f ev)"
  unfolding emits_def by (rule hist_call) simp

lemma hist_silent: "(\<And>r. Q (of_sum r) []) \<Longrightarrow> hist trace Q (silent f)"
  by (rule histI) (auto simp: silent_def split: prod.splits)

lemma emits_silent [hist_intros, simp, intro]: "emits trace P (silent f)"
  unfolding emits_def by (rule hist_silent) simp

lemma emits_get_cluster [hist_intros, simp, intro]: "emits trace P (get_cluster d cluster)"
  by (simp add: get_cluster_def)

lemma emits_now [hist_intros, simp, intro]: "emits trace P (now d)"
  by (simp add: now_def)

lemma call_run: "f (srv w) = (r, s) \<Longrightarrow>
    call f ev w = (of_sum r, w\<lparr>srv := s, trace := trace w @ [ev r]\<rparr>)"
  by (simp add: call_def)

lemma api_client_simps [simp]:
  "cl_get (api_client sv s) k key = call (sv_get sv s k key) (EGet s k key)"
  "cl_list (api_client sv s) k opts = call (sv_list sv s k opts) (EList s k opts)"
  "cl_create (api_client sv s) x = call (sv_create sv s x) (ECreate s x)"
  "cl_update (api_client sv s) x = call (sv_update sv s x) (EUpdate s x)"
  "cl_status_update (api_client sv s) x = call (sv_status_update sv s x) (EStatusUpdate s x)"
  "cl_patch (api_client sv s) x y = call (sv_patch sv s x y) (EPatch s x y)"
  "cl_delete (api_client sv s) k key = call (sv_delete sv s k key) (EDelete s k key)"
  by (simp_all add: api_client_def)

lemma server_lawD:
  assumes "server_law d"
  shows "sv_get (d_server d) s k key w = (Inr x, w') \<Longrightarrow> obj_key x = key"
    "sv_get (d_server d) s k key w = (Inr x, w') \<Longrightarrow> obj_kind x = k"
    "sv_status_update (d_server d) s x w = (Inr y, w') \<Longrightarrow> obj_key y = obj_key x"
  using assms unfolding server_law_def by metis+

lemma of_obj_key: "of_obj c x = Inr y \<Longrightarrow> obj_key y = obj_key x"
  by (simp add: obj_key_def of_obj_md)

lemma call_OkD: "call f ev w = (Ok x, w') \<Longrightarrow> \<exists>s. f (srv w) = (Inr x, s)"
  by (auto simp: call_def split: prod.splits)

text \<open>A typed read or status write returns an object with the key named.\<close>

lemma get_as_key:
  "server_law d \<Longrightarrow> get_as (api_client (d_server d) s) k key w = (Ok x, w') \<Longrightarrow> obj_key x = key"
  unfolding get_as_def by (auto elim!: bindA_OkE dest!: call_OkD of_obj_key dest: server_lawD)

lemma status_update_as_key:
  assumes "server_law d" and "status_update_as (api_client (d_server d) s) k x w = (Ok y, w')"
  shows "obj_key y = obj_key x"
proof -
  from assms(2) obtain z w1 where "call (sv_status_update (d_server d) s (to_obj k x))
      (EStatusUpdate s (to_obj k x)) w = (Ok z, w1)" and z: "of_obj k z = Inr y"
    by (auto simp: status_update_as_def elim!: bindA_OkE)
  then have "obj_key z = obj_key x"
    by (auto dest!: call_OkD dest: server_lawD(3) [OF assms(1)])
  with of_obj_key [OF z] show ?thesis by simp
qed

lemma emits_get_as [hist_intros, intro]:
  "emits tr P (cl_get c (cd_kind k) key) \<Longrightarrow> emits tr P (get_as c k key)"
  unfolding get_as_def by (intro emits_bind) auto

lemma emits_get_or_zero [hist_intros, intro]:
  "emits tr P (cl_get c (cd_kind k) key) \<Longrightarrow> emits tr P (get_or_zero d c k key zero)"
  unfolding get_or_zero_def
  by (intro emits_bind emits_tryA emits_get_as emits_case_sum emits_if) auto

lemma emits_create_as [hist_intros, intro]:
  "emits tr P (cl_create c (to_obj k x)) \<Longrightarrow> emits tr P (create_as c k x)"
  unfolding create_as_def by (intro emits_bind) auto

lemma emits_update_as [hist_intros, intro]:
  "emits tr P (cl_update c (to_obj k x)) \<Longrightarrow> emits tr P (update_as c k x)"
  unfolding update_as_def by (intro emits_bind) auto

lemma emits_status_update_as [hist_intros, intro]:
  "emits tr P (cl_status_update c (to_obj k x)) \<Longrightarrow> emits tr P (status_update_as c k x)"
  unfolding status_update_as_def by (intro emits_bind) auto

lemma emits_delete_ignoring_not_found [hist_intros, intro]:
  "emits tr P (cl_delete c k key) \<Longrightarrow> emits tr P (delete_ignoring_not_found d c k key)"
  unfolding delete_ignoring_not_found_def
  by (intro emits_bind emits_tryA emits_case_sum emits_if) auto

section \<open>CreateOrUpdate and CreateOrPatch on typed objects\<close>

lemma keeps_key_typed:
  assumes "codec_ok k" and "\<And>x s y s'. f x s = (Ok y, s') \<Longrightarrow> obj_key y = obj_key x"
  shows "keeps_key (typed_callback k f)"
  unfolding keeps_key_def
proof (intro allI impI)
  fix x s y s'
  assume run: "typed_callback k f x s = (Ok y, s')"
  then obtain z where z: "of_obj k x = Inr z"
    by (cases "of_obj k x") (auto simp: typed_callback_def)
  with run obtain z' where "f z s = (Ok z', s')" "y = to_obj k z'"
    by (auto simp: typed_callback_def elim!: bindA_OkE)
  moreover from z assms(1) have "x = to_obj k z" by (simp add: of_obj_InrD)
  ultimately show "obj_key y = obj_key x \<and> obj_kind y = obj_kind x"
    using assms by auto
qed

lemma emits_upsert_doc:
  assumes "emits trace P (cl_get c (obj_kind x) (obj_key x))"
    and "\<And>y. emits trace P (f y)"
    and "\<And>s z s'. f x s = (Ok z, s') \<Longrightarrow> emits trace P (cl_create c z)"
    and "\<And>y s z s'. f y s = (Ok z, s') \<Longrightarrow> emits trace P (write c y z)"
  shows "emits trace P (upsert_doc d write c x f)"
  unfolding upsert_doc_def
  by (intro emits_bind emits_tryA emits_case_sum emits_if emits_fail emits_bind_run assms(1,2))
    (auto intro: assms)

text \<open>
  What an upsert of a typed object emits: its read, what the callback emits, and the creation or the
  write of what the callback returned.
\<close>

lemma emits_typed_upsert:
  assumes k: "codec_ok k"
    and get: "emits trace P (cl_get c (cd_kind k) (obj_key x))"
    and f: "\<And>z. emits trace P (f z)"
    and create: "\<And>s z s'. f x s = (Ok z, s') \<Longrightarrow> emits trace P (cl_create c (to_obj k z))"
    and wr: "\<And>y s z s'. f y s = (Ok z, s') \<Longrightarrow> emits trace P (write c (to_obj k y) (to_obj k z))"
  shows "emits trace P (upsert_doc d write c (to_obj k x)
           (typed_callback k f))"
proof (rule emits_upsert_doc)
  show "emits trace P (cl_get c (obj_kind (to_obj k x)) (obj_key (to_obj k x)))"
    using get k by simp
next
  fix y
  show "emits trace P (typed_callback k f y)"
    unfolding typed_callback_def by (intro emits_bind emits_pure emits_ret f)
next
  fix s z s'
  assume "typed_callback k f (to_obj k x) s = (Ok z, s')"
  with k show "emits trace P (cl_create c z)"
    by (auto simp: typed_callback_def elim!: bindA_OkE dest: create)
next
  fix y s z s'
  assume run: "typed_callback k f y s = (Ok z, s')"
  then obtain y' where y': "of_obj k y = Inr y'"
    by (cases "of_obj k y") (auto simp: typed_callback_def)
  with k have "y = to_obj k y'" by (simp add: of_obj_InrD)
  with run y' show "emits trace P (write c y z)"
    by (auto simp: typed_callback_def elim!: bindA_OkE dest: wr)
qed

lemma create_or_patch_as_law:
  assumes "create_or_patch_law d" and "codec_ok k"
    and "\<And>x s y s'. f x s = (Ok y, s') \<Longrightarrow> obj_key y = obj_key x"
  shows "create_or_patch_as d c k x f =
    bindA (upsert_doc d cl_patch c (to_obj k x) (typed_callback k f)) (\<lambda>y. pure (of_obj k y))"
proof -
  have "keeps_key (typed_callback k f)" by (rule keeps_key_typed) (use assms in auto)
  with assms(1) show ?thesis by (simp add: create_or_patch_as_def create_or_patch_law_def)
qed

lemma create_or_update_as_law:
  assumes "create_or_update_law d" and "codec_ok k"
    and "\<And>x s y s'. f x s = (Ok y, s') \<Longrightarrow> obj_key y = obj_key x"
  shows "create_or_update_as d c k x f =
    bindA (upsert_doc d (\<lambda>c _. cl_update c) c (to_obj k x) (typed_callback k f))
      (\<lambda>y. pure (of_obj k y))"
proof -
  have "keeps_key (typed_callback k f)" by (rule keeps_key_typed) (use assms in auto)
  with assms(1) show ?thesis by (simp add: create_or_update_as_def create_or_update_law_def)
qed

lemma emits_create_or_patch_as:
  assumes "create_or_patch_law d" and "codec_ok k"
    and "\<And>x s y s'. f x s = (Ok y, s') \<Longrightarrow> obj_key y = obj_key x"
    and "emits trace P (cl_get c (cd_kind k) (obj_key x))"
    and "\<And>z. emits trace P (f z)"
    and "\<And>s z s'. f x s = (Ok z, s') \<Longrightarrow> emits trace P (cl_create c (to_obj k z))"
    and "\<And>y s z s'. f y s = (Ok z, s') \<Longrightarrow> emits trace P (cl_patch c (to_obj k y) (to_obj k z))"
  shows "emits trace P (create_or_patch_as d c k x f)"
proof -
  have "emits trace P (bindA (upsert_doc d cl_patch c (to_obj k x) (typed_callback k f))
      (\<lambda>y. pure (of_obj k y)))"
    by (intro emits_bind emits_typed_upsert emits_pure assms(2)) (use assms(4-) in auto)
  moreover have "create_or_patch_as d c k x f =
      bindA (upsert_doc d cl_patch c (to_obj k x) (typed_callback k f)) (\<lambda>y. pure (of_obj k y))"
    by (rule create_or_patch_as_law) (use assms(1-3) in auto)
  ultimately show ?thesis by simp
qed

lemma emits_create_or_update_as:
  assumes "create_or_update_law d" and "codec_ok k"
    and "\<And>x s y s'. f x s = (Ok y, s') \<Longrightarrow> obj_key y = obj_key x"
    and "emits trace P (cl_get c (cd_kind k) (obj_key x))"
    and "\<And>z. emits trace P (f z)"
    and "\<And>s z s'. f x s = (Ok z, s') \<Longrightarrow> emits trace P (cl_create c (to_obj k z))"
    and "\<And>y s z s'. f y s = (Ok z, s') \<Longrightarrow> emits trace P (cl_update c (to_obj k z))"
  shows "emits trace P (create_or_update_as d c k x f)"
proof -
  have "emits trace P (bindA (upsert_doc d (\<lambda>c _. cl_update c) c (to_obj k x) (typed_callback k f))
      (\<lambda>y. pure (of_obj k y)))"
    by (intro emits_bind emits_typed_upsert emits_pure assms(2)) (use assms(4-) in auto)
  moreover have "create_or_update_as d c k x f =
      bindA (upsert_doc d (\<lambda>c _. cl_update c) c (to_obj k x) (typed_callback k f)) (\<lambda>y. pure (of_obj k y))"
    by (rule create_or_update_as_law) (use assms(1-3) in auto)
  ultimately show ?thesis by simp
qed

section \<open>Typed reads, as histories\<close>

text \<open>
  The one event of a typed read and how its answer shows in the result; a decoding error is the only
  other failure.
\<close>

lemma okhist_try_get:
  assumes "codec_ok k" and "not_found_law d"
  shows "okhist trace (\<lambda>r es. case r of
      Inl e \<Rightarrow> d_is_not_found d e \<longrightarrow> es = [EGet s (cd_kind k) key (Inl e)]
    | Inr x \<Rightarrow> es = [EGet s (cd_kind k) key (Inr (to_obj k x))])
    (tryA (get_as (api_client sv s) k key))"
  unfolding okhist_def
proof (rule hist_tryA)
  let ?Q = "\<lambda>r es. (\<forall>x. r = Ok x \<longrightarrow> es = [EGet s (cd_kind k) key (Inr (to_obj k x))]) \<and>
    (\<forall>e. r = Fail e \<longrightarrow> d_is_not_found d e \<longrightarrow> es = [EGet s (cd_kind k) key (Inl e)])"
  show "hist trace ?Q (get_as (api_client sv s) k key)"
    unfolding get_as_def
  proof (rule hist_bind)
    show "hist trace (\<lambda>r es. \<exists>x. r = of_sum x \<and> es = [EGet s (cd_kind k) key x])
        (cl_get (api_client sv s) (cd_kind k) key)"
      by (auto intro!: hist_call)
    show "hist trace (\<lambda>r es. r = of_sum (of_obj k x) \<and> es = []) (pure (of_obj k x))" for x
      by (simp add: hist_pure)
  qed (use assms in \<open>auto dest: of_obj_InrD of_obj_InlD simp: not_found_law_def\<close>)
qed auto

end
