(* ===== verification/Resource_Strategy.thy ===== *)
theory Resource_Strategy
  imports Api_Client Go_Encoding
begin

text \<open>
  \<open>internal/downstreamclient\<close>: the \<open>ResourceStrategy\<close> interface, its implementation for mapped
  namespaces with the client wrapper that labels what it creates, and its implementation for one
  cluster and namespace. The locale \<open>resource_strategy\<close> states what callers of the interface rely on;
  both implementations are interpretations of it.
\<close>

section \<open>The interface\<close>

text \<open>Go's interface value: the methods of a strategy.\<close>

record 'w strategy =
  st_client :: "'w world client"
  st_object_meta :: "obj \<Rightarrow> ('w world, objkey) act"
  st_namespace :: "obj \<Rightarrow> ('w world, string) act"
  st_set_controller :: "obj \<Rightarrow> obj \<Rightarrow> ('w world, obj) act"
  st_set_owner :: "obj \<Rightarrow> obj \<Rightarrow> ('w world, obj) act"
  st_delete_anchor :: "obj \<Rightarrow> ('w world, unit) act"

section \<open>Mapped namespaces\<close>

record 'w mapped =
  ms_cluster :: string
  ms_upstream :: "'w world client option"
  ms_downstream :: "'w world client"
  ms_labels :: "string \<rightharpoonup> string"

definition upstream_cluster_key :: string where
  "upstream_cluster_key = ''meta.datumapis.com/upstream-cluster-name''"

definition upstream_group_key :: string where
  "upstream_group_key = ''meta.datumapis.com/upstream-group''"

definition upstream_kind_key :: string where
  "upstream_kind_key = ''meta.datumapis.com/upstream-kind''"

definition upstream_name_key :: string where
  "upstream_name_key = ''meta.datumapis.com/upstream-name''"

definition upstream_namespace_key :: string where
  "upstream_namespace_key = ''meta.datumapis.com/upstream-namespace''"

lemmas owner_key_defs = upstream_cluster_key_def upstream_group_key_def upstream_kind_key_def
  upstream_name_key_def upstream_namespace_key_def

text \<open>\<open>fmt.Sprintf("cluster-%s", strings.ReplaceAll(name, "/", "_"))\<close>\<close>

definition encode_cluster :: "string \<Rightarrow> string" where
  "encode_cluster name = ''cluster-'' @ replace_all name (CHR ''/'') (CHR ''_'')"

definition get_upstream_namespace :: "'w mapped \<Rightarrow> obj option \<Rightarrow> ('w world, unit kobj) act" where
  "get_upstream_namespace ms x = (case x of
     None \<Rightarrow> fail (ErrorText ''object is nil'')
   | Some x \<Rightarrow> (case ms_upstream ms of
       None \<Rightarrow> fail (ErrorText ''upstream client is nil'')
     | Some c \<Rightarrow> wrapE ''failed to get upstream namespace''
         (get_as c namespace_c (key_of [] (om_namespace (md x))))))"

definition mapped_namespace :: "'w mapped \<Rightarrow> obj \<Rightarrow> ('w world, string) act" where
  "mapped_namespace ms x =
     bindA (wrapE ''failed to get downstream namespace'' (get_upstream_namespace ms (Some x)))
       (\<lambda>n. ret (''ns-'' @ om_uid (md n)))"

definition mapped_object_meta :: "'w mapped \<Rightarrow> obj \<Rightarrow> ('w world, objkey) act" where
  "mapped_object_meta ms x =
     bindA (wrapE ''failed to get downstream namespace name'' (mapped_namespace ms x))
       (\<lambda>n. ret (key_of n (om_name (md x))))"

text \<open>The callback of \<open>ensureDownstreamNamespace\<close>: the cluster label and the managed labels.\<close>

definition label_namespace :: "'w deps \<Rightarrow> 'w mapped \<Rightarrow> unit kobj \<Rightarrow> unit kobj" where
  "label_namespace d ms n = n\<lparr>md := (md n)\<lparr>om_labels :=
     d_set_meta_label d (om_labels (md n)) upstream_cluster_key (encode_cluster (ms_cluster ms))
       ++ ms_labels ms\<rparr>\<rparr>"

definition ensure_namespace :: "'w deps \<Rightarrow> 'w mapped \<Rightarrow> obj \<Rightarrow> ('w world, unit kobj option) act" where
  "ensure_namespace d ms x =
     (if om_namespace (md x) = [] then ret None
      else bindA
        (wrapE ''failed to ensure downstream namespace''
          (create_or_update_as d (ms_downstream ms) namespace_c
            (named [] (om_namespace (md x)) \<lparr>md = zero_meta, pl = ()\<rparr>)
            (\<lambda>n. ret (label_namespace d ms n))))
        (\<lambda>n. ret (Some n)))"

definition add_labels :: "(string \<rightharpoonup> string) \<Rightarrow> 'b kobj \<Rightarrow> 'b kobj" where
  "add_labels ls x = x\<lparr>md := (md x)\<lparr>om_labels := om_labels (md x) ++ ls\<rparr>\<rparr>"

text \<open>\<open>mappedNamespaceClient.Create\<close>\<close>

definition mapped_create :: "'w deps \<Rightarrow> 'w mapped \<Rightarrow> obj \<Rightarrow> ('w world, obj) act" where
  "mapped_create d ms x =
     bindA (wrapE ''failed to ensure downstream namespace'' (ensure_namespace d ms x))
       (\<lambda>_. cl_create (ms_downstream ms) (add_labels (ms_labels ms) x))"

text \<open>\<open>mappedNamespaceClient\<close>: every other method passes its call on.\<close>

definition mapped_client :: "'w deps \<Rightarrow> 'w mapped \<Rightarrow> 'w world client" where
  "mapped_client d ms = \<lparr>
     cl_get = cl_get (ms_downstream ms),
     cl_list = cl_list (ms_downstream ms),
     cl_create = mapped_create d ms,
     cl_update = cl_update (ms_downstream ms),
     cl_status_update = cl_status_update (ms_downstream ms),
     cl_patch = cl_patch (ms_downstream ms),
     cl_delete = cl_delete (ms_downstream ms)\<rparr>"

definition anchor_name :: "obj \<Rightarrow> string" where
  "anchor_name owner = ''anchor-'' @ om_uid (md owner)"

text \<open>The upstream owner's identity, as annotations.\<close>

definition owner_annotations :: "string \<Rightarrow> string \<times> string \<Rightarrow> obj \<Rightarrow> (string \<rightharpoonup> string)" where
  "owner_annotations cluster gvk owner = [
     upstream_cluster_key \<mapsto> encode_cluster cluster,
     upstream_group_key \<mapsto> fst gvk,
     upstream_kind_key \<mapsto> snd gvk,
     upstream_name_key \<mapsto> om_name (md owner),
     upstream_namespace_key \<mapsto> om_namespace (md owner)]"

definition anchor_for :: "'w mapped \<Rightarrow> (string \<rightharpoonup> string) \<Rightarrow> obj \<Rightarrow> obj \<Rightarrow>
    (string \<times> string) list kobj \<Rightarrow> (string \<times> string) list kobj" where
  "anchor_for ms ann owner controlled a = a\<lparr>md := (md a)\<lparr>om_name := anchor_name owner,
     om_annotations := ann, om_labels := ms_labels ms,
     om_namespace := om_namespace (md controlled)\<rparr>\<rparr>"

text \<open>\<open>SetControllerReference\<close> returns the controlled object with its new metadata.\<close>

definition mapped_set_controller :: "'w deps \<Rightarrow> 'w mapped \<Rightarrow> obj \<Rightarrow> obj \<Rightarrow> ('w world, obj) act" where
  "mapped_set_controller d ms owner controlled =
     (if om_namespace (md owner) = [] \<or> om_namespace (md controlled) = []
      then fail (ErrorText ''cluster scoped resource controllers are not supported'')
      else bindA (pure (d_gvk d owner)) (\<lambda>gvk.
        let ann = owner_annotations (ms_cluster ms) gvk owner; c = mapped_client d ms in
        bindA (wrapE ''failed listing configmaps''
          (get_or_zero d c configmap_c (key_of (om_namespace (md controlled)) (anchor_name owner))
            zero_configmap)) (\<lambda>a0.
        bindA (if om_created (md a0) = None
               then wrapE ''failed creating anchor configmap''
                 (create_as c configmap_c (anchor_for ms ann owner controlled a0))
               else ret a0) (\<lambda>a.
        bindA (wrapE ''failed setting anchor owner reference''
          (pure (d_set_owner_ref d (to_obj configmap_c a) controlled))) (\<lambda>x.
        ret (x\<lparr>md := (md x)\<lparr>om_annotations := om_annotations (md x) ++ ann\<rparr>\<rparr>))))))"

definition mapped_delete_anchor :: "'w deps \<Rightarrow> 'w mapped \<Rightarrow> obj \<Rightarrow> ('w world, unit) act" where
  "mapped_delete_anchor d ms owner =
     bindA (wrapE ''failed to get downstream object metadata'' (mapped_object_meta ms owner)) (\<lambda>key.
     bindA (tryA (get_as (mapped_client d ms) configmap_c
                    (key_of (k_namespace key) (anchor_name owner)))) (\<lambda>r. case r of
       Inl e \<Rightarrow> if d_is_not_found d e then ret () else fail (Wrapped ''failed listing configmaps'' e)
     | Inr a \<Rightarrow> cl_delete (mapped_client d ms) KConfigMap (obj_key a)))"

text \<open>\<open>NewMappedNamespaceResourceStrategy\<close>\<close>

definition mapped_strategy :: "'w deps \<Rightarrow> 'w mapped \<Rightarrow> 'w strategy" where
  "mapped_strategy d ms = \<lparr>
     st_client = mapped_client d ms,
     st_object_meta = mapped_object_meta ms,
     st_namespace = mapped_namespace ms,
     st_set_controller = mapped_set_controller d ms,
     st_set_owner = (\<lambda>owner x. pure (d_set_owner_ref d owner x)),
     st_delete_anchor = mapped_delete_anchor d ms\<rparr>"

text \<open>The strategy a reconciler makes for the cluster of its request.\<close>

definition new_mapped :: "'w deps \<Rightarrow> string \<Rightarrow> (string \<rightharpoonup> string) \<Rightarrow> 'w mapped" where
  "new_mapped d cluster ls = \<lparr>ms_cluster = cluster, ms_upstream = Some (upstream d cluster),
     ms_downstream = downstream d, ms_labels = ls\<rparr>"

definition new_mapped_strategy :: "'w deps \<Rightarrow> string \<Rightarrow> (string \<rightharpoonup> string) \<Rightarrow> 'w strategy" where
  "new_mapped_strategy d cluster ls = mapped_strategy d (new_mapped d cluster ls)"

section \<open>Same cluster and namespace\<close>

definition hashed_name :: "string \<Rightarrow> string" where
  "hashed_name name =
     (if 30 < length name then take 30 name else name) @ ''-'' @ hex_of (md5_sum name)"

definition same_strategy :: "'w deps \<Rightarrow> 'w world client \<Rightarrow> 'w strategy" where
  "same_strategy d c = \<lparr>
     st_client = c,
     st_object_meta = (\<lambda>x. ret (key_of (om_namespace (md x)) (hashed_name (om_name (md x))))),
     st_namespace = (\<lambda>x. ret (om_namespace (md x))),
     st_set_controller = (\<lambda>owner x. pure (d_set_controller_ref d owner x)),
     st_set_owner = (\<lambda>owner x. pure (d_set_owner_ref d owner x)),
     st_delete_anchor = (\<lambda>owner. ret ())\<rparr>"

section \<open>What the wrapped client emits\<close>

lemma mapped_client_simps [simp]:
  "cl_get (mapped_client d ms) = cl_get (ms_downstream ms)"
  "cl_list (mapped_client d ms) = cl_list (ms_downstream ms)"
  "cl_create (mapped_client d ms) = mapped_create d ms"
  "cl_update (mapped_client d ms) = cl_update (ms_downstream ms)"
  "cl_status_update (mapped_client d ms) = cl_status_update (ms_downstream ms)"
  "cl_patch (mapped_client d ms) = cl_patch (ms_downstream ms)"
  "cl_delete (mapped_client d ms) = cl_delete (ms_downstream ms)"
  by (simp_all add: mapped_client_def)

lemma new_mapped_simps [simp]:
  "ms_cluster (new_mapped d cluster ls) = cluster" "ms_labels (new_mapped d cluster ls) = ls"
  "ms_upstream (new_mapped d cluster ls) = Some (upstream d cluster)"
  "ms_downstream (new_mapped d cluster ls) = downstream d"
  by (simp_all add: new_mapped_def)

lemma add_labels_simps [simp]:
  "om_labels (md (add_labels ls x)) = om_labels (md x) ++ ls" "pl (add_labels ls x) = pl x"
  "obj_key (add_labels ls x) = obj_key x" "om_deleted (md (add_labels ls x)) = om_deleted (md x)"
  "om_name (md (add_labels ls x)) = om_name (md x)"
  "om_namespace (md (add_labels ls x)) = om_namespace (md x)"
  by (simp_all add: add_labels_def obj_key_def)

lemma label_namespace_key [simp]: "obj_key (label_namespace d ms n) = obj_key n"
  by (simp add: label_namespace_def obj_key_def)

lemma label_namespace_labels [simp]: "ms_labels ms \<subseteq>\<^sub>m om_labels (md (label_namespace d ms n))"
  by (simp add: label_namespace_def)

lemma label_namespace_deleted [simp]: "om_deleted (md (label_namespace d ms n)) = om_deleted (md n)"
  by (simp add: label_namespace_def)

text \<open>Every event of \<open>m\<close> is one that \<open>P\<close> allows.\<close>

lemma emits_refine: "emits tr Q m \<Longrightarrow> (\<And>e. Q e \<Longrightarrow> P e) \<Longrightarrow> emits tr P m"
  by (rule emits_mono)

abbreviation sides_of :: "string \<Rightarrow> side set" where
  "sides_of cluster \<equiv> {Upstream cluster, Downstream}"

fun reads :: "side set \<Rightarrow> event \<Rightarrow> bool" where
  "reads A (EGet s _ _ _) = (s \<in> A)"
| "reads A (EList s _ _ _) = (s \<in> A)"
| "reads A _ = False"

text \<open>
  The events of preparing a place for a downstream object: reads of the sides \<open>A\<close>, labelled namespaces and anchors
  created on side \<open>sd\<close>, and namespaces updated there.
\<close>

fun setup_event :: "side set \<Rightarrow> side \<Rightarrow> (string \<rightharpoonup> string) \<Rightarrow> event \<Rightarrow> bool" where
  "setup_event A sd ls (ECreate s x _) =
     (s = sd \<and> obj_kind x \<in> {KNamespace, KConfigMap} \<and> ls \<subseteq>\<^sub>m om_labels (md x))"
| "setup_event A sd ls (EUpdate s x _) = (s = sd \<and> obj_kind x = KNamespace)"
| "setup_event A sd ls e = reads A e"

text \<open>The creation of \<open>x\<close> itself: same kind, key and content, with at least the labels \<open>ls\<close>.\<close>

definition creates_labelled :: "side \<Rightarrow> (string \<rightharpoonup> string) \<Rightarrow> obj \<Rightarrow> event \<Rightarrow> bool" where
  "creates_labelled sd ls x e \<longleftrightarrow> (\<exists>y r. e = ECreate sd y r \<and> pl y = pl x \<and> obj_key y = obj_key x \<and>
     om_deleted (md y) = om_deleted (md x) \<and> ls \<subseteq>\<^sub>m om_labels (md y))"

lemma emits_ensure_namespace:
  assumes "create_or_update_law d"
  shows "emits trace (setup_event (sides_of cluster) Downstream ls) (ensure_namespace d (new_mapped d cluster ls) x)"
proof -
  let ?ms = "new_mapped d cluster ls"
  have "emits trace (setup_event (sides_of cluster) Downstream ls)
      (create_or_update_as d (ms_downstream ?ms) namespace_c n (\<lambda>n. ret (label_namespace d ?ms n)))" for n
    using assms label_namespace_labels [of ?ms]
    by (intro emits_create_or_update_as) (auto simp: downstream_def intro!: emits_call)
  then show ?thesis
    unfolding ensure_namespace_def by (intro emits_if emits_bind emits_wrapE emits_ret)
qed

lemma emits_mapped_create:
  assumes "create_or_update_law d"
  shows "emits trace (\<lambda>e. setup_event (sides_of cluster) Downstream ls e \<or> creates_labelled Downstream ls x e)
    (mapped_create d (new_mapped d cluster ls) x)"
  unfolding mapped_create_def
proof (intro emits_bind emits_wrapE)
  show "emits trace (\<lambda>e. setup_event (sides_of cluster) Downstream ls e \<or> creates_labelled Downstream ls x e)
      (ensure_namespace d (new_mapped d cluster ls) x)"
    using emits_ensure_namespace [OF assms] by (rule emits_mono) simp
qed (auto simp: downstream_def creates_labelled_def intro!: emits_call)

section \<open>The contract of a strategy\<close>

text \<open>
  What the controllers rely on, of a strategy \<open>S\<close> that writes on side \<open>sd\<close> and labels with \<open>ls\<close>. The
  downstream namespace of an object depends on nothing but its own namespace, and the metadata of the
  downstream object agree with it; computing either only reads; setting an owner reference makes no
  call; setting a controller reference does no more than preparing the place; deleting an anchor
  deletes config maps only; the strategy's client creates labelled copies and passes the rest on.
\<close>

locale resource_strategy =
  fixes d :: "'w deps" and S :: "'w strategy" and rd :: "side set" and sd :: side and ls :: "string \<rightharpoonup> string"
  assumes namespace_only: "om_namespace (md x) = om_namespace (md y) \<Longrightarrow> st_namespace S x = st_namespace S y"
    and meta_namespace: "st_object_meta S x s = (Ok key, s') \<Longrightarrow> st_namespace S x s = (Ok (k_namespace key), s')"
    and namespace_reads: "emits trace (reads rd) (st_namespace S x)"
    and set_owner_quiet: "emits trace (\<lambda>_. False) (st_set_owner S x y)"
    and set_controller_events: "create_or_update_law d \<Longrightarrow>
      emits trace (setup_event rd sd ls) (st_set_controller S x y)"
    and delete_anchor_events:
      "emits trace (\<lambda>e. reads rd e \<or> (\<exists>key r. e = EDelete sd KConfigMap key r)) (st_delete_anchor S x)"
    and client_create: "create_or_update_law d \<Longrightarrow>
      emits trace (\<lambda>e. setup_event rd sd ls e \<or> creates_labelled sd ls z e) (cl_create (st_client S) z)"
    and client_get: "cl_get (st_client S) = cl_get (api_client (d_server d) sd)"
    and client_list: "cl_list (st_client S) = cl_list (api_client (d_server d) sd)"
    and client_update: "cl_update (st_client S) = cl_update (api_client (d_server d) sd)"
    and client_patch: "cl_patch (st_client S) = cl_patch (api_client (d_server d) sd)"
    and client_delete: "cl_delete (st_client S) = cl_delete (api_client (d_server d) sd)"
begin

lemma meta_namespace_agree:
  assumes "st_object_meta S x s = (Ok key, s')" and "om_namespace (md y) = om_namespace (md x)"
    and "st_object_meta S y s = (Ok key', s'')"
  shows "k_namespace key' = k_namespace key"
  using meta_namespace [OF assms(1)] meta_namespace [OF assms(3)] namespace_only [OF assms(2)] by simp

text \<open>The rules a client of the interface uses, for the events \<open>P\<close> it is allowed.\<close>

lemma emits_namespace: "(\<And>e. reads rd e \<Longrightarrow> P e) \<Longrightarrow> emits trace P (st_namespace S x)"
  by (rule emits_mono [OF namespace_reads])

lemma emits_set_controller:
  "create_or_update_law d \<Longrightarrow> (\<And>e. setup_event rd sd ls e \<Longrightarrow> P e) \<Longrightarrow>
     emits trace P (st_set_controller S x y)"
  by (rule emits_mono [OF set_controller_events])

lemma emits_delete_anchor:
  "(\<And>e. reads rd e \<Longrightarrow> P e) \<Longrightarrow> (\<And>key r. P (EDelete sd KConfigMap key r)) \<Longrightarrow>
     emits trace P (st_delete_anchor S x)"
  by (rule emits_mono [OF delete_anchor_events]) auto

lemma emits_create:
  "create_or_update_law d \<Longrightarrow> (\<And>e. setup_event rd sd ls e \<Longrightarrow> P e) \<Longrightarrow>
     (\<And>e. creates_labelled sd ls z e \<Longrightarrow> P e) \<Longrightarrow> emits trace P (cl_create (st_client S) z)"
  by (rule emits_mono [OF client_create]) auto

lemma emits_get: "(\<And>r. P (EGet sd k key r)) \<Longrightarrow> emits trace P (cl_get (st_client S) k key)"
  by (simp add: client_get emits_call)

lemma emits_list: "(\<And>r. P (EList sd k opts r)) \<Longrightarrow> emits trace P (cl_list (st_client S) k opts)"
  by (simp add: client_list emits_call)

lemma emits_update: "(\<And>r. P (EUpdate sd z r)) \<Longrightarrow> emits trace P (cl_update (st_client S) z)"
  by (simp add: client_update emits_call)

lemma emits_patch: "(\<And>r. P (EPatch sd y z r)) \<Longrightarrow> emits trace P (cl_patch (st_client S) y z)"
  by (simp add: client_patch emits_call)

lemma emits_delete: "(\<And>r. P (EDelete sd k key r)) \<Longrightarrow> emits trace P (cl_delete (st_client S) k key)"
  by (simp add: client_delete emits_call)

end

section \<open>Both implementations meet the contract\<close>

lemma mapped_namespace_cong:
  "om_namespace (md x) = om_namespace (md y) \<Longrightarrow> mapped_namespace ms x = mapped_namespace ms y"
  by (simp add: mapped_namespace_def get_upstream_namespace_def split: option.split)

lemma emits_mapped_namespace:
  "emits trace (reads (sides_of cluster)) (mapped_namespace (new_mapped d cluster ls) x)"
  unfolding mapped_namespace_def get_upstream_namespace_def
  by (intro hist_intros) (auto simp: upstream_def intro!: emits_call)

lemma emits_mapped_set_controller:
  assumes "create_or_update_law d"
  shows "emits trace (setup_event (sides_of cluster) Downstream ls) (mapped_set_controller d (new_mapped d cluster ls) x y)"
proof -
  have create: "emits trace (setup_event (sides_of cluster) Downstream ls) (mapped_create d (new_mapped d cluster ls)
      (to_obj configmap_c (anchor_for (new_mapped d cluster ls) ann x y a)))" for ann a
    by (rule emits_mono [OF emits_mapped_create [OF assms]])
      (auto simp: creates_labelled_def anchor_for_def)
  show ?thesis
    unfolding mapped_set_controller_def Let_def
    by (intro emits_if emits_bind emits_wrapE emits_pure emits_get_or_zero emits_create_as emits_ret
        emits_fail) (auto simp: downstream_def create intro!: emits_call)
qed

lemma emits_mapped_delete_anchor:
  "emits trace (\<lambda>e. reads (sides_of cluster) e \<or> (\<exists>key r. e = EDelete Downstream KConfigMap key r))
     (mapped_delete_anchor d (new_mapped d cluster ls) x)"
  unfolding mapped_delete_anchor_def mapped_object_meta_def
  by (intro emits_bind emits_wrapE emits_tryA emits_get_as emits_case_sum emits_if emits_ret emits_fail
      emits_mono [OF emits_mapped_namespace])
    (auto simp: downstream_def intro!: emits_call)

interpretation mapped: resource_strategy d "new_mapped_strategy d cluster ls"
  "sides_of cluster" Downstream ls
  for d :: "'w deps" and cluster ls
  by unfold_locales
    (auto simp: new_mapped_strategy_def mapped_strategy_def mapped_object_meta_def downstream_def
      elim!: bindA_OkE
      intro: mapped_namespace_cong [THEN fun_cong] emits_mapped_namespace emits_mapped_set_controller
        emits_mapped_delete_anchor emits_mapped_create)

interpretation same: resource_strategy d "same_strategy d (upstream d cluster)" "{Upstream cluster}"
  "Upstream cluster" Map.empty
  for d :: "'w deps" and cluster
  by unfold_locales
    (auto simp: same_strategy_def upstream_def creates_labelled_def intro!: emits_call)

end
