(* ===== verification/Provider_Config.thy ===== *)
theory Provider_Config
  imports Api_Client
begin

text \<open>
  \<open>internal/config/config.go\<close> and the generated defaulting function of
  \<open>zz_generated.defaults.go\<close>: the server configuration, its defaults, the Crossplane provider
  config a cluster's resources use, and the options derived for the metrics and webhook servers.
\<close>

section \<open>The configuration\<close>

record tls_config =
  tls_secret_ref :: "objkey option"
  tls_cert_dir :: string
  tls_cert_name :: string
  tls_key_name :: string

record metrics_config =
  mc_secure :: "bool option"
  mc_bind :: string
  mc_tls :: tls_config

record webhook_config =
  wc_host :: string
  wc_port :: int
  wc_tls :: tls_config
  wc_client_ca :: string

record discovery_config =
  dc_mode :: string
  dc_internal :: bool
  dc_discovery_kubeconfig :: string
  dc_context :: string
  dc_project_kubeconfig :: string
  dc_selector :: "string option"

record downstream_config =
  dm_kubeconfig :: string
  dm_single_name :: string
  dm_discovery_prefix :: string
  dm_labels :: "string \<rightharpoonup> string"

record gcp_provider =
  gp_metrics :: metrics_config
  gp_webhook :: webhook_config
  gp_discovery :: discovery_config
  gp_downstream :: downstream_config
  gp_location_class :: string
  gp_images :: "(string \<rightharpoonup> string) option"
  gp_machine_types :: "(string \<rightharpoonup> string) option"

text \<open>A lookup in a possibly nil map.\<close>

definition nil_map :: "(string \<rightharpoonup> string) option \<Rightarrow> (string \<rightharpoonup> string)" where
  "nil_map m = (case m of None \<Rightarrow> Map.empty | Some f \<Rightarrow> f)"

section \<open>Defaults\<close>

definition or_default :: "string \<Rightarrow> string \<Rightarrow> string" where
  "or_default s v = (if s = [] then v else s)"

definition default_images :: "string \<rightharpoonup> string" where
  "default_images = [
     ''datumcloud/ubuntu-2204-lts'' \<mapsto> ''projects/ubuntu-os-cloud/global/images/ubuntu-2204-jammy-v20240927'',
     ''datumcloud/cos-stable-117-18613-0-79'' \<mapsto> ''projects/cos-cloud/global/images/cos-stable-117-18613-0-79'']"

definition default_machine_types :: "string \<rightharpoonup> string" where
  "default_machine_types = [''datumcloud/d1-standard-2'' \<mapsto> ''n2-standard-2'']"

definition set_defaults_provider :: "gcp_provider \<Rightarrow> gcp_provider" where
  "set_defaults_provider p = p\<lparr>
     gp_images := (if gp_images p = None then Some default_images else gp_images p),
     gp_machine_types := (if gp_machine_types p = None then Some default_machine_types
                          else gp_machine_types p)\<rparr>"

text \<open>\<open>filepath.Join\<close> of non-empty elements.\<close>

definition filepath_join :: "string list \<Rightarrow> string" where
  "filepath_join es = path_clean (join_with (CHR ''/'') es)"

definition set_defaults_webhook :: "string \<Rightarrow> webhook_config \<Rightarrow> webhook_config" where
  "set_defaults_webhook tmp c = c\<lparr>wc_tls := (wc_tls c)\<lparr>tls_cert_dir :=
     or_default (tls_cert_dir (wc_tls c)) (filepath_join [tmp, ''k8s-webhook-server'', ''serving-certs''])\<rparr>\<rparr>"

definition set_defaults_metrics :: "string \<Rightarrow> metrics_config \<Rightarrow> metrics_config" where
  "set_defaults_metrics tmp c = c\<lparr>mc_tls := (mc_tls c)\<lparr>tls_cert_dir :=
     or_default (tls_cert_dir (mc_tls c)) (filepath_join [tmp, ''k8s-metrics-server'', ''serving-certs''])\<rparr>\<rparr>"

definition default_key_pair :: "tls_config \<Rightarrow> tls_config" where
  "default_key_pair t = t\<lparr>tls_cert_name := or_default (tls_cert_name t) ''tls.crt'',
     tls_key_name := or_default (tls_key_name t) ''tls.key''\<rparr>"

text \<open>
  \<open>SetObjectDefaults_GCPProvider\<close>, in the order of the generated code; \<open>tmp\<close> is \<open>os.TempDir()\<close>.
\<close>

definition default_metrics :: "string \<Rightarrow> metrics_config \<Rightarrow> metrics_config" where
  "default_metrics tmp c0 = (let c = set_defaults_metrics tmp c0 in c\<lparr>
     mc_secure := (if mc_secure c = None then Some True else mc_secure c),
     mc_bind := or_default (mc_bind c) ''0'',
     mc_tls := default_key_pair (mc_tls c)\<rparr>)"

definition default_webhook :: "string \<Rightarrow> webhook_config \<Rightarrow> webhook_config" where
  "default_webhook tmp c0 = (let c = set_defaults_webhook tmp c0 in c\<lparr>
     wc_port := (if wc_port c = 0 then 9443 else wc_port c),
     wc_tls := default_key_pair (wc_tls c)\<rparr>)"

definition set_object_defaults :: "string \<Rightarrow> gcp_provider \<Rightarrow> gcp_provider" where
  "set_object_defaults tmp p0 = (let p = set_defaults_provider p0 in p\<lparr>
     gp_metrics := default_metrics tmp (gp_metrics p),
     gp_webhook := default_webhook tmp (gp_webhook p),
     gp_discovery := (gp_discovery p)\<lparr>dc_mode := or_default (dc_mode (gp_discovery p)) ''single''\<rparr>,
     gp_location_class := or_default (gp_location_class p) ''self-managed''\<rparr>)"

section \<open>Provider config names\<close>

text \<open>\<open>GetProviderConfigName\<close>: the panic of the single mode is a branch of the result.\<close>

definition provider_config_name :: "api_consts \<Rightarrow> gcp_provider \<Rightarrow> string \<Rightarrow> string res" where
  "provider_config_name k p cluster =
     (if dc_mode (gp_discovery p) = k_provider_single k then
        (if dm_single_name (gp_downstream p) = [] then Panic ''single provider config strategy name is required''
         else Ok (dm_single_name (gp_downstream p)))
      else if dm_discovery_prefix (gp_downstream p) = [] then Ok cluster
      else Ok (dm_discovery_prefix (gp_downstream p) @ trim_prefix cluster ''/''))"

definition provider_config :: "'w deps \<Rightarrow> gcp_provider \<Rightarrow> string \<Rightarrow> ('s, string) act" where
  "provider_config d p cluster = (\<lambda>s. (provider_config_name (d_consts d) p cluster, s))"

section \<open>Server options and kubeconfigs\<close>

record server_options =
  so_host :: string
  so_port :: int
  so_bind :: string
  so_secure :: "bool option"
  so_authn_filter :: bool
  so_cert_dir :: string
  so_cert_name :: string
  so_key_name :: string
  so_tls_secrets :: "objkey list"

text \<open>\<open>TLSConfig.Options\<close>: one option for each secret a handshake reads the key pair from.\<close>

definition tls_options :: "tls_config \<Rightarrow> objkey list" where
  "tls_options t = (case tls_secret_ref t of None \<Rightarrow> [] | Some ref \<Rightarrow> [ref])"

text \<open>
  The \<open>GetCertificate\<close> callback such an option installs; \<open>x509\<close> is \<open>tls.X509KeyPair\<close> on the bytes
  under the two keys of the secret.
\<close>

definition get_certificate ::
  "'s client \<Rightarrow> (string \<Rightarrow> string \<Rightarrow> goerr + 'c) \<Rightarrow> objkey \<Rightarrow> ('s, 'c) act" where
  "get_certificate c x509 ref =
     bindA (wrapE ''failed to get secret'' (get_as c secret_c ref)) (\<lambda>s.
       let data = (case pl s of None \<Rightarrow> Map.empty | Some kvs \<Rightarrow> map_of kvs)
       in wrapE ''failed to parse certificate''
            (pure (x509 (map_get data ''tls.crt'') (map_get data ''tls.key''))))"

definition webhook_options :: "webhook_config \<Rightarrow> server_options" where
  "webhook_options c = \<lparr>so_host = wc_host c, so_port = wc_port c, so_bind = [], so_secure = None,
     so_authn_filter = False, so_cert_dir = tls_cert_dir (wc_tls c),
     so_cert_name = tls_cert_name (wc_tls c), so_key_name = tls_key_name (wc_tls c),
     so_tls_secrets = tls_options (wc_tls c)\<rparr>"

definition metrics_options :: "metrics_config \<Rightarrow> server_options res" where
  "metrics_options c = (case mc_secure c of
     None \<Rightarrow> Panic ''nil pointer dereference''
   | Some secure \<Rightarrow> Ok \<lparr>so_host = [], so_port = 0, so_bind = mc_bind c, so_secure = Some secure,
       so_authn_filter = secure, so_cert_dir = tls_cert_dir (mc_tls c),
       so_cert_name = tls_cert_name (mc_tls c), so_key_name = tls_key_name (mc_tls c),
       so_tls_secrets = tls_options (mc_tls c)\<rparr>)"

text \<open>Which loader a \<open>rest.Config\<close> comes from.\<close>

datatype rest_source = DefaultConfig | FromKubeconfig string | FromContext string string

definition downstream_rest_config :: "downstream_config \<Rightarrow> rest_source" where
  "downstream_rest_config c =
     (if dm_kubeconfig c = [] then DefaultConfig else FromKubeconfig (dm_kubeconfig c))"

definition discovery_rest_config :: "discovery_config \<Rightarrow> rest_source" where
  "discovery_rest_config c =
     (if dc_discovery_kubeconfig c = [] then DefaultConfig
      else FromContext (dc_discovery_kubeconfig c) (dc_context c))"

definition project_rest_config :: "discovery_config \<Rightarrow> rest_source" where
  "project_rest_config c =
     (if dc_project_kubeconfig c = [] then DefaultConfig else FromKubeconfig (dc_project_kubeconfig c))"

section \<open>Lemmas\<close>

lemma emits_provider_config [hist_intros, simp, intro]: "emits tr P (provider_config d p c)"
  by (rule emitsI) (auto simp: provider_config_def)

lemma provider_config_run:
  "provider_config d p c s = (provider_config_name (d_consts d) p c, s)"
  by (simp add: provider_config_def)

lemma or_default_idem [simp]: "or_default (or_default s v) v = or_default s v"
  by (simp add: or_default_def)

lemma or_default_ne_Nil [simp]: "v \<noteq> [] \<Longrightarrow> or_default s v \<noteq> []"
  by (simp add: or_default_def)

lemma filepath_join_ne_Nil [simp]: "filepath_join es \<noteq> []"
  by (simp add: filepath_join_def)

lemmas defaults_defs = set_object_defaults_def default_metrics_def default_webhook_def
  default_key_pair_def set_defaults_provider_def set_defaults_webhook_def
  set_defaults_metrics_def Let_def

text \<open>Defaulting a configuration twice is defaulting it once.\<close>

lemma defaults_idempotent:
  "set_object_defaults tmp (set_object_defaults tmp p) = set_object_defaults tmp p"
  by (simp add: defaults_defs)

end
