(* ===== verification/Cleanup.thy ===== *)
theory Cleanup
  imports Resource_Strategy Provider_Config
begin

text \<open>
  What the reconcilers share: requests and results, the finalizer the operator puts on upstream
  objects, the names it derives from their UIDs, and the evidence that must be in the trace before
  the finalizer of a deleted object may go.
\<close>

section \<open>Requests, results, finalizers\<close>

record request =
  rq_cluster :: string
  rq_key :: objkey

text \<open>\<open>ctrl.Result{}\<close> and \<open>ctrl.Result{Requeue: true}\<close>\<close>

datatype ctrl_result = Done | Requeue

definition gcp_infra_finalizer :: string where
  "gcp_infra_finalizer = ''compute.datumapis.com/infra-provider-gcp''"

definition crossplane_finalizer :: string where
  "crossplane_finalizer = ''finalizer.managedresource.crossplane.io''"

definition has_finalizer :: "'w deps \<Rightarrow> 'b kobj \<Rightarrow> string \<Rightarrow> bool" where
  "has_finalizer d x f = d_contains_finalizer d (om_finalizers (md x)) f"

definition with_finalizer :: "'w deps \<Rightarrow> 'b kobj \<Rightarrow> string \<Rightarrow> 'b kobj" where
  "with_finalizer d x f = x\<lparr>md := (md x)\<lparr>om_finalizers := d_add_finalizer d (om_finalizers (md x)) f\<rparr>\<rparr>"

definition without_finalizer :: "'w deps \<Rightarrow> 'b kobj \<Rightarrow> string \<Rightarrow> 'b kobj" where
  "without_finalizer d x f =
     x\<lparr>md := (md x)\<lparr>om_finalizers := fst (d_remove_finalizer d (om_finalizers (md x)) f)\<rparr>\<rparr>"

text \<open>\<open>obj.Status.GetCondition(xpv1.TypeReady).Status == corev1.ConditionTrue\<close>\<close>

definition is_ready :: "'w deps \<Rightarrow> condition list \<Rightarrow> bool" where
  "is_ready d cs \<longleftrightarrow> c_status (d_get_condition d cs (k_type_ready (d_consts d))) = CTrue"

section \<open>Publishing a condition when the reconciler returns\<close>

text \<open>The variables the deferred closures of the reconcilers capture.\<close>

record 'b prog_locals =
  lv_obj :: "'b kobj"
  lv_cond :: condition

definition set_cond :: "(condition \<Rightarrow> condition) \<Rightarrow> ('s \<times> ('b, 'z) prog_locals_scheme, unit) act" where
  "set_cond f = assign (\<lambda>l. l\<lparr>lv_cond := f (lv_cond l)\<rparr>)"

text \<open>
  \<open>if apimeta.SetStatusCondition(&conds, cond) { err = errors.Join(err, Status().Update(ctx, obj)) }\<close>:
  the new value of \<open>err\<close>. The conditions of the payload are read by \<open>conds\<close> and written by \<open>upd\<close>.
\<close>

definition publish_condition ::
  "'w deps \<Rightarrow> 's client \<Rightarrow> 'b codec \<Rightarrow> ('b \<Rightarrow> condition list) \<Rightarrow> (condition list \<Rightarrow> 'b \<Rightarrow> 'b) \<Rightarrow>
     ('b, 'z) prog_locals_scheme \<Rightarrow> goerr option \<Rightarrow> ('s, goerr option) act" where
  "publish_condition d c k conds upd l err =
     (let x = lv_obj l; (cs, changed) = d_set_condition d (conds (pl x)) (lv_cond l) in
      if changed then
        bindA (tryA (status_update_as c k (x\<lparr>pl := upd cs (pl x)\<rparr>)))
          (\<lambda>r. ret (errors_join err (case r of Inl e \<Rightarrow> Some e | Inr _ \<Rightarrow> None)))
      else ret err)"

lemma emits_set_cond [hist_intros, simp, intro]: "emits (\<lambda>(s, l). tr s) P (set_cond f)"
  by (simp add: set_cond_def)

lemma keeps_set_cond [keeps_intros, intro]:
  "(\<And>l. I l \<Longrightarrow> I (l\<lparr>lv_cond := f (lv_cond l)\<rparr>)) \<Longrightarrow> keeps I (set_cond f)"
  by (auto simp: set_cond_def)

lemma emits_publish_condition [hist_intros, intro]:
  "(\<And>cs. emits tr P (status_update_as c k ((lv_obj l)\<lparr>pl := upd cs (pl (lv_obj l))\<rparr>))) \<Longrightarrow>
     emits tr P (publish_condition d c k conds upd l err)"
  unfolding publish_condition_def Let_def
  by (intro emits_case_prod emits_if emits_bind emits_tryA emits_ret)

lemma finalizer_simps [simp]:
  "om_deleted (md (with_finalizer d x f)) = om_deleted (md x)"
  "om_deleted (md (without_finalizer d x f)) = om_deleted (md x)"
  "om_uid (md (with_finalizer d x f)) = om_uid (md x)"
  "om_uid (md (without_finalizer d x f)) = om_uid (md x)"
  "pl (with_finalizer d x f) = pl x" "pl (without_finalizer d x f) = pl x"
  "obj_key (with_finalizer d x f) = obj_key x" "obj_key (without_finalizer d x f) = obj_key x"
  by (simp_all add: with_finalizer_def without_finalizer_def obj_key_def)

section \<open>Names of downstream objects\<close>

definition workload_name :: "string \<Rightarrow> string" where "workload_name uid = ''workload-'' @ uid"
definition network_name :: "string \<Rightarrow> string" where "network_name uid = ''network-'' @ uid"
definition subnet_name :: "string \<Rightarrow> string" where "subnet_name uid = ''subnet-'' @ uid"
definition instance_name :: "string \<Rightarrow> string" where "instance_name uid = ''instance-'' @ uid"

lemma names_inject [simp]:
  "workload_name u = workload_name v \<longleftrightarrow> u = v" "network_name u = network_name v \<longleftrightarrow> u = v"
  "subnet_name u = subnet_name v \<longleftrightarrow> u = v" "instance_name u = instance_name v \<longleftrightarrow> u = v"
  by (simp_all add: workload_name_def network_name_def subnet_name_def instance_name_def)

section \<open>Evidence of a clean-up\<close>

text \<open>A read or a deletion that shows the object is not there any more, or is on its way out.\<close>

definition gone :: "'w deps \<Rightarrow> goerr + 'a \<Rightarrow> bool" where
  "gone d r = (case r of Inl e \<Rightarrow> d_is_not_found d e | Inr _ \<Rightarrow> True)"

definition deleted_by :: "'w deps \<Rightarrow> kind \<Rightarrow> objkey \<Rightarrow> event set \<Rightarrow> bool" where
  "deleted_by d k key A \<longleftrightarrow> (\<exists>r. EDelete Downstream k key r \<in> A \<and> gone d r)"

definition anchor_gone :: "'w deps \<Rightarrow> string \<Rightarrow> event set \<Rightarrow> bool" where
  "anchor_gone d uid A \<longleftrightarrow>
     (\<exists>ns e. EGet Downstream KConfigMap (key_of ns (''anchor-'' @ uid)) (Inl e) \<in> A \<and> d_is_not_found d e) \<or>
     (\<exists>ns a. EGet Downstream KConfigMap (key_of ns (''anchor-'' @ uid)) (Inr a) \<in> A \<and>
        EDelete Downstream KConfigMap (obj_key a) (Inr ()) \<in> A)"

definition workload_firewalls :: "'w deps \<Rightarrow> string \<Rightarrow> list_opts" where
  "workload_firewalls d uid = \<lparr>lo_namespace = None,
     lo_labels = [(k_workload_uid_label (d_consts d), uid)], lo_index = None\<rparr>"

definition firewalls_gone :: "'w deps \<Rightarrow> string \<Rightarrow> event set \<Rightarrow> bool" where
  "firewalls_gone d uid A \<longleftrightarrow>
     (\<exists>fs. EList Downstream KFirewall (workload_firewalls d uid) (Inr fs) \<in> A \<and>
        (\<forall>f \<in> set fs. deleted_by d KFirewall (obj_key f) A))"

definition workload_evidence :: "'w deps \<Rightarrow> string \<Rightarrow> event set \<Rightarrow> bool" where
  "workload_evidence d uid A \<longleftrightarrow>
     anchor_gone d uid A \<and>
     deleted_by d KServiceAccount (key_of [] (workload_name uid)) A \<and>
     deleted_by d KGcpSecret (key_of [] (workload_name uid)) A \<and>
     firewalls_gone d uid A"

text \<open>
  For an instance: the read of its GCP instance found nothing, or an object Crossplane has let go of
  and whose deletion was under way before or has been asked for since.
\<close>

definition instance_evidence :: "'w deps \<Rightarrow> string \<Rightarrow> event set \<Rightarrow> bool" where
  "instance_evidence d uid A \<longleftrightarrow>
     (\<exists>e. EGet Downstream KGcpInstance (key_of [] (instance_name uid)) (Inl e) \<in> A \<and> d_is_not_found d e) \<or>
     (\<exists>g. EGet Downstream KGcpInstance (key_of [] (instance_name uid)) (Inr g) \<in> A \<and>
        (om_created (md g) \<noteq> None \<longrightarrow>
           \<not> d_contains_finalizer d (om_finalizers (md g)) crossplane_finalizer \<and>
           (om_deleted (md g) = None \<longrightarrow> EDelete Downstream KGcpInstance (obj_key g) (Inr ()) \<in> A)))"

text \<open>
  The events that need evidence: an upstream write of an object that is being deleted (the only thing
  the reconcilers ever write there is the object without their finalizer).
\<close>

fun removal :: "event \<Rightarrow> bool" where
  "removal (EUpdate (Upstream c) x r) = (om_deleted (md x) \<noteq> None)"
| "removal _ = False"

definition clean_for :: "'w deps \<Rightarrow> obj \<Rightarrow> event set \<Rightarrow> bool" where
  "clean_for d x A = (case obj_kind x of
       KWorkload \<Rightarrow> workload_evidence d (om_uid (md x)) A
     | KNetwork \<Rightarrow> deleted_by d KGcpNetwork (key_of [] (network_name (om_uid (md x)))) A
     | KSubnet \<Rightarrow> deleted_by d KSubnetwork (key_of [] (subnet_name (om_uid (md x)))) A
     | KInstance \<Rightarrow> instance_evidence d (om_uid (md x)) A
     | _ \<Rightarrow> False)"

fun evidence :: "'w deps \<Rightarrow> event \<Rightarrow> event set \<Rightarrow> bool" where
  "evidence d (EUpdate s x r) A = clean_for d x A"
| "evidence d _ A = False"

abbreviation clean_removals :: "'w deps \<Rightarrow> event list \<Rightarrow> bool" where
  "clean_removals d \<equiv> guarded removal (evidence d)"

lemma upward_deleted_by [simp]: "upward (deleted_by d k key)"
  by (auto simp: upward_def deleted_by_def)

lemma deleted_by_insert: "deleted_by d k key A \<Longrightarrow> deleted_by d k key (insert e A)"
  by (auto simp: deleted_by_def)

lemma upward_anchor_gone [simp]: "upward (anchor_gone d uid)"
  by (rule upwardI) (unfold anchor_gone_def, elim disjE exE conjE, (blast dest: subsetD)+)

lemma upward_firewalls_gone [simp]: "upward (firewalls_gone d uid)"
proof (rule upwardI)
  fix A B
  assume "firewalls_gone d uid A" and sub: "A \<subseteq> B"
  then obtain fs where fs: "EList Downstream KFirewall (workload_firewalls d uid) (Inr fs) \<in> A"
    "\<And>f. f \<in> set fs \<Longrightarrow> deleted_by d KFirewall (obj_key f) A"
    by (auto simp: firewalls_gone_def)
  have "deleted_by d KFirewall (obj_key f) B" if "f \<in> set fs" for f
    using upwardD [OF upward_deleted_by fs(2) [OF that] sub] .
  with fs(1) sub show "firewalls_gone d uid B" by (auto simp: firewalls_gone_def)
qed

lemma upward_instance_evidence [simp]: "upward (instance_evidence d uid)"
proof (rule upwardI)
  fix A B
  assume ev: "instance_evidence d uid A" and sub: "A \<subseteq> B"
  have "e \<in> A \<Longrightarrow> e \<in> B" for e using sub by blast
  with ev show "instance_evidence d uid B" unfolding instance_evidence_def by meson
qed

lemma upward_workload_evidence [simp]: "upward (workload_evidence d uid)"
proof (rule upwardI)
  fix A B
  assume "workload_evidence d uid A" "A \<subseteq> B"
  then show "workload_evidence d uid B"
    unfolding workload_evidence_def
    using upwardD [OF upward_anchor_gone, of d uid A B]
      upwardD [OF upward_firewalls_gone, of d uid A B]
      upwardD [OF upward_deleted_by, of d KServiceAccount "key_of [] (workload_name uid)" A B]
      upwardD [OF upward_deleted_by, of d KGcpSecret "key_of [] (workload_name uid)" A B]
    by simp
qed

lemma upward_clean_for [simp]: "upward (clean_for d x)"
proof (rule upwardI)
  fix A B
  assume A: "clean_for d x A" "A \<subseteq> B"
  then show "clean_for d x B"
    by (cases "obj_kind x") (auto simp: clean_for_def elim: upwardD [OF upward_deleted_by]
      upwardD [OF upward_workload_evidence] upwardD [OF upward_instance_evidence])
qed

lemma upward_evidence [simp]: "upward (evidence d e)"
  by (cases e) (auto intro!: upwardI elim: upwardD [OF upward_clean_for])

text \<open>Deleting with a missing object tolerated leaves the evidence of its deletion.\<close>

lemma leaves_delete:
  assumes "cl_delete c = cl_delete (downstream d)"
  shows "leaves trace (deleted_by d k key) (delete_ignoring_not_found d c k key)"
proof -
  have "hist trace (\<lambda>r es. \<exists>x. r = of_sum x \<and> es = [EDelete Downstream k key x]) (cl_delete c k key)"
    by (auto simp: assms downstream_def intro!: hist_call)
  then have "okhist trace (\<lambda>r es. es = [EDelete Downstream k key r]) (tryA (cl_delete c k key))"
    unfolding okhist_def by (rule hist_tryA) auto
  then show ?thesis
    unfolding leaves_def delete_ignoring_not_found_def
    by (rule okhist_bind [where ?Q2.0 = "\<lambda>r _ es. es = [] \<and> gone d r"])
      (auto simp: deleted_by_def gone_def okhist_ret split: sum.splits)
qed

end
