(* ===== verification/Location_Util.thy ===== *)
theory Location_Util
  imports Api_Client
begin

text \<open>
  \<open>internal/locationutil/location.go\<close>: the gate every controller passes first. It fetches the
  location of a resource and says whether this deployment of the operator should process it.
\<close>

definition should_process :: "string \<Rightarrow> location \<Rightarrow> bool" where
  "should_process cls l =
     (if loc_gcp l = None then False else if cls = [] then True else loc_class l = cls)"

definition get_location ::
  "'s client \<Rightarrow> objkey \<Rightarrow> string \<Rightarrow> ('s, location kobj \<times> bool) act" where
  "get_location c ref cls =
     bindA (wrapE ''failed fetching location'' (get_as c location_c ref))
       (\<lambda>l. ret (l, should_process cls (pl l)))"

text \<open>\<open>location.Spec.Provider.GCP\<close>, dereferenced.\<close>

definition gcp_of :: "location \<Rightarrow> ('s, gcp_location) act" where
  "gcp_of l = (case loc_gcp l of None \<Rightarrow> panic ''nil pointer dereference'' | Some g \<Rightarrow> ret g)"

lemma emits_gcp_of [hist_intros, intro, simp]: "emits tr P (gcp_of l)"
  by (simp add: gcp_of_def split: option.split)

lemma gcp_of_Some [simp]: "loc_gcp l = Some g \<Longrightarrow> gcp_of l = ret g"
  by (simp add: gcp_of_def)

lemma emits_get_location [hist_intros, intro]:
  "emits tr P (cl_get c KLocation ref) \<Longrightarrow> emits tr P (get_location c ref cls)"
  unfolding get_location_def by (intro emits_bind emits_wrapE emits_get_as) auto

lemma should_process_gcp: "should_process cls l \<Longrightarrow> \<exists>g. loc_gcp l = Some g"
  by (auto simp: should_process_def split: if_splits)

lemma get_location_gcp:
  "get_location c ref cls s = (Ok (l, True), s') \<Longrightarrow> \<exists>g. loc_gcp (pl l) = Some g"
  by (auto simp: get_location_def dest: should_process_gcp elim!: bindA_OkE)

end
