(* ===== verification/Reconciler_Contract.thy ===== *)
theory Reconciler_Contract
  imports Cleanup Location_Util
begin

text \<open>
  What every reconciler of the operator promises, whatever the API servers answer: the scope of the
  calls it makes for a request, and that it lets go of a deleted object only after the clean-up. The
  locale \<open>reconciler\<close> is that contract; each controller's theory interprets it on its reconciler, and
  \<open>Operator_System\<close> composes the interpretations.
\<close>

section \<open>The scope of a request\<close>

text \<open>
  For a request for the object \<open>key\<close> of kind \<open>k\<close> in the upstream cluster \<open>c\<close>: reads go to that
  cluster and the downstream one; what is created is created downstream, with the labels \<open>ls\<close>; patches
  and deletions are downstream; upstream, only the requested object is written.
\<close>

fun in_scope :: "(string \<rightharpoonup> string) \<Rightarrow> kind \<Rightarrow> request \<Rightarrow> event \<Rightarrow> bool" where
  "in_scope ls k rq (ECreate s x r) = (s = Downstream \<and> ls \<subseteq>\<^sub>m om_labels (md x))"
| "in_scope ls k rq (EUpdate s x r) =
     (s = Downstream \<or> s = Upstream (rq_cluster rq) \<and> obj_kind x = k \<and> obj_key x = rq_key rq)"
| "in_scope ls k rq (EStatusUpdate s x r) =
     (s = Upstream (rq_cluster rq) \<and> obj_kind x = k \<and> obj_key x = rq_key rq)"
| "in_scope ls k rq (EPatch s x y r) = (s = Downstream)"
| "in_scope ls k rq (EDelete s k' key r) = (s = Downstream)"
| "in_scope ls k rq e = reads (sides_of (rq_cluster rq)) e"

lemma in_scope_reads [simp, intro]:
  "reads (sides_of (rq_cluster rq)) e \<Longrightarrow> in_scope ls k rq e"
  by (cases e) auto

lemma in_scope_setup [simp, intro]:
  "setup_event (sides_of (rq_cluster rq)) Downstream ls e \<Longrightarrow> in_scope ls k rq e"
  by (cases e) auto

lemma in_scope_creates [simp, intro]: "creates_labelled Downstream ls x e \<Longrightarrow> in_scope ls k rq e"
  by (auto simp: creates_labelled_def)

lemma reads_not_removal [simp]: "reads A e \<Longrightarrow> \<not> removal e"
  by (cases e rule: removal.cases) auto

lemma setup_not_removal [simp]: "setup_event A Downstream ls e \<Longrightarrow> \<not> removal e"
  by (cases e rule: removal.cases) auto

lemma creates_not_removal [simp]: "creates_labelled sd ls x e \<Longrightarrow> \<not> removal e"
  by (auto simp: creates_labelled_def)

text \<open>The calls a reconciler makes outside its clean-up: in scope, and no finalizer is taken away.\<close>

abbreviation plain :: "(string \<rightharpoonup> string) \<Rightarrow> kind \<Rightarrow> request \<Rightarrow> event \<Rightarrow> bool" where
  "plain ls k rq e \<equiv> in_scope ls k rq e \<and> \<not> removal e"

section \<open>The contract\<close>

locale reconciler =
  fixes d :: "'w deps" and R :: "request \<Rightarrow> ('w world, ctrl_result) act"
    and k :: kind and ls :: "string \<rightharpoonup> string"
  assumes scoped: "library_laws d \<Longrightarrow> emits trace (in_scope ls k rq) (R rq)"
    and clean: "library_laws d \<Longrightarrow> hist trace (\<lambda>_ es. clean_removals d es) (R rq)"
begin

text \<open>Both promises about one run.\<close>

lemma run:
  assumes "library_laws d" and "R rq w = (r, w')"
  obtains es where "trace w' = trace w @ es" "\<forall>e \<in> set es. in_scope ls k rq e" "clean_removals d es"
proof -
  obtain es where es: "trace w' = trace w @ es" "\<forall>e \<in> set es. in_scope ls k rq e"
    using emitsE [OF scoped [OF assms(1)] assms(2)] by blast
  moreover obtain es' where "trace w' = trace w @ es'" "clean_removals d es'"
    using histE [OF clean [OF assms(1)] assms(2)] by blast
  ultimately show thesis using that by auto
qed

text \<open>No other tenant's cluster is written or read.\<close>

lemma isolated:
  assumes "library_laws d"
  shows "emits trace (\<lambda>e. \<forall>c x r. e = EUpdate (Upstream c) x r \<or> e = EStatusUpdate (Upstream c) x r \<longrightarrow>
           c = rq_cluster rq \<and> obj_key x = rq_key rq) (R rq)"
  by (rule emits_mono [OF scoped [OF assms]]) auto

lemma no_upstream_create:
  assumes "library_laws d"
  shows "emits trace (\<lambda>e. \<forall>s x r. e = ECreate s x r \<longrightarrow> s = Downstream \<and> ls \<subseteq>\<^sub>m om_labels (md x)) (R rq)"
  by (rule emits_mono [OF scoped [OF assms]]) auto

end

section \<open>Rules for the controllers\<close>

lemma plain_clean: "emits trace (plain ls k rq) m \<Longrightarrow> hist trace (\<lambda>_ es. clean_removals d es) m"
  by (rule guarded_emits) (erule emits_mono, simp)

lemma plain_scoped: "emits trace (plain ls k rq) m \<Longrightarrow> emits trace (in_scope ls k rq) m"
  by (erule emits_mono) simp

lemma clean_for_simps [simp]:
  "clean_for d (to_obj workload_c wl) = workload_evidence d (om_uid (md wl))"
  "clean_for d (to_obj network_c n) = deleted_by d KGcpNetwork (key_of [] (network_name (om_uid (md n))))"
  "clean_for d (to_obj subnet_c sn) = deleted_by d KSubnetwork (key_of [] (subnet_name (om_uid (md sn))))"
  "clean_for d (to_obj instance_c i) = instance_evidence d (om_uid (md i))"
  by (simp_all add: fun_eq_iff clean_for_def)

lemmas clean_seq = guarded_seq [OF upward_evidence]

lemma clean_quiet: "emits trace (\<lambda>_. False) m \<Longrightarrow> hist trace (\<lambda>_ es. clean_removals d es) m"
  by (rule guarded_emits) (erule emits_mono, simp)

lemma clean_ret [simp, intro]: "hist trace (\<lambda>_ es. clean_removals d es) (ret x)"
  "hist trace (\<lambda>_ es. clean_removals d es) (fail e)"
  by (auto intro: hist_ret hist_fail)

text \<open>A clean-up, then the one update that lets the object go.\<close>

lemma clean_finalize:
  assumes quiet: "emits trace (\<lambda>e. \<not> removal e) m"
    and left: "leaves trace (clean_for d (to_obj k x)) m"
  shows "hist trace (\<lambda>_ es. clean_removals d es)
           (bindA m (\<lambda>_. bindA (update_as (upstream d cluster) k x) (\<lambda>_. ret y)))"
proof (rule guarded_bind [OF upward_evidence quiet])
  show "okhist trace (\<lambda>_ es. \<forall>e. removal e \<longrightarrow>
      (\<exists>r. e = EUpdate (Upstream cluster) (to_obj k x) r) \<longrightarrow> evidence d e (set es)) m"
    using left unfolding leaves_def by (rule okhist_mono) auto
  show "emits trace (\<lambda>e. removal e \<longrightarrow> (\<exists>r. e = EUpdate (Upstream cluster) (to_obj k x) r))
      (bindA (update_as (upstream d cluster) k x) (\<lambda>_. ret y))"
    by (auto simp: upstream_def intro!: emits_bind emits_update_as emits_call)
qed

text \<open>The calls through a strategy's client, for the scope of its cluster.\<close>

lemma plain_mapped_create:
  assumes "create_or_update_law d"
  shows "emits trace (plain ls k rq) (mapped_create d (new_mapped d (rq_cluster rq) ls) x)"
  by (rule emits_mono [OF emits_mapped_create [OF assms]]) auto

lemma appends_ensure_namespace:
  "create_or_update_law d \<Longrightarrow> appends trace (ensure_namespace d (new_mapped d cluster ls) x)"
  by (rule appends_emits [OF emits_ensure_namespace])

text \<open>A creation that succeeded is in the trace with the object's labels and the managed ones.\<close>

lemma okhist_create_as:
  assumes "create_or_update_law d" and "codec_ok k"
  shows "okhist trace (\<lambda>y es. ECreate Downstream (add_labels ls (to_obj k x)) (Inr (to_obj k y)) \<in> set es)
    (create_as (mapped_client d (new_mapped d cluster ls)) k x)"
proof -
  have "okhist trace (\<lambda>y es. ECreate Downstream (add_labels ls (to_obj k x)) (Inr y) \<in> set es)
      (mapped_create d (new_mapped d cluster ls) (to_obj k x))"
    unfolding mapped_create_def
  proof (rule okhist_bind)
    show "okhist trace (\<lambda>_ _. True) (wrapE msg (ensure_namespace d (new_mapped d cluster ls) y))" for msg y
      using appends_ensure_namespace [OF assms(1)] unfolding appends_def emits_def
      by (intro okhist_wrapE okhist_hist) auto
    show "okhist trace (\<lambda>y es. ECreate Downstream (add_labels ls (to_obj k x)) (Inr y) \<in> set es)
        (cl_create (ms_downstream (new_mapped d cluster ls)) (add_labels (ms_labels (new_mapped d cluster ls)) (to_obj k x)))"
      by (auto simp: okhist_def downstream_def intro!: hist_call)
  qed simp
  then show ?thesis
    unfolding create_as_def mapped_client_simps
    by (rule okhist_bind [where ?Q2.0 = "\<lambda>y z es. y = to_obj k z"])
      (use of_obj_InrD [OF assms(2)] in \<open>auto intro!: okhist_pure\<close>)
qed

lemma plain_create_or_patch:
  assumes "library_laws d" and "codec_ok c"
    and "\<And>x s y s'. f x s = (Ok y, s') \<Longrightarrow> obj_key y = obj_key x"
    and "\<And>z. emits trace (plain ls k rq) (f z)"
  shows "emits trace (plain ls k rq)
    (create_or_patch_as d (mapped_client d (new_mapped d (rq_cluster rq) ls)) c x f)"
  by (rule emits_create_or_patch_as)
    (use assms library_lawsD [OF assms(1)] in
      \<open>auto simp: downstream_def intro!: emits_call plain_mapped_create\<close>)

lemma plain_create_or_update:
  assumes "library_laws d" and "codec_ok c"
    and "\<And>x s y s'. f x s = (Ok y, s') \<Longrightarrow> obj_key y = obj_key x"
    and "\<And>z. emits trace (plain ls k rq) (f z)"
  shows "emits trace (plain ls k rq)
    (create_or_update_as d (mapped_client d (new_mapped d (rq_cluster rq) ls)) c x f)"
  by (rule emits_create_or_update_as)
    (use assms library_lawsD [OF assms(1)] in
      \<open>auto simp: downstream_def intro!: emits_call plain_mapped_create\<close>)

lemma plain_get_as:
  "emits trace (plain ls k rq) (get_as (upstream d (rq_cluster rq)) cd key)"
  "emits trace (plain ls k rq) (get_as (mapped_client d (new_mapped d (rq_cluster rq) ls')) cd key)"
  "emits trace (plain ls k rq) (get_as (downstream d) cd key)"
  by (auto simp: upstream_def downstream_def intro!: emits_get_as emits_call)

lemma plain_get_or_zero:
  "emits trace (plain ls k rq) (get_or_zero d (mapped_client d (new_mapped d (rq_cluster rq) ls')) cd key z)"
  "emits trace (plain ls k rq) (get_or_zero d (downstream d) cd key z)"
  by (auto simp: downstream_def intro!: emits_get_or_zero emits_call)

lemma plain_delete: "emits trace (plain ls k rq) (delete_ignoring_not_found d (downstream d) k' key)"
  by (auto simp: downstream_def intro!: emits_delete_ignoring_not_found emits_call)

lemma plain_status_update:
  assumes "codec_ok cd" and "cd_kind cd = k" and "obj_key x = rq_key rq"
  shows "emits trace (plain ls k rq) (status_update_as (upstream d (rq_cluster rq)) cd x)"
  using assms by (auto simp: upstream_def intro!: emits_status_update_as emits_call)

lemma plain_update:
  assumes "codec_ok cd" and "cd_kind cd = k" and "obj_key x = rq_key rq" and "om_deleted (md x) = None"
  shows "emits trace (plain ls k rq) (update_as (upstream d (rq_cluster rq)) cd x)"
  using assms by (auto simp: upstream_def intro!: emits_update_as emits_call)

lemma plain_location: "emits trace (plain ls k rq) (get_location (upstream d (rq_cluster rq)) ref cls)"
  by (auto simp: upstream_def intro!: emits_get_location emits_call)

text \<open>A read that tolerates a missing object.\<close>

lemma okhist_get_or_zero:
  assumes "codec_ok k" and "not_found_law d"
  shows "okhist trace (\<lambda>x es. (\<exists>e. es = [EGet s (cd_kind k) key (Inl e)] \<and> d_is_not_found d e \<and> x = z) \<or>
      es = [EGet s (cd_kind k) key (Inr (to_obj k x))])
    (get_or_zero d (api_client sv s) k key z)"
  unfolding get_or_zero_def
  by (rule okhist_bind [OF okhist_try_get [OF assms],
        where ?Q2.0 = "\<lambda>r x es. es = [] \<and> (case r of Inr y \<Rightarrow> x = y | Inl e \<Rightarrow> d_is_not_found d e \<and> x = z)"])
    (auto split: sum.splits intro!: okhist_ret)

lemma get_or_zero_mapped:
  "get_or_zero d (mapped_client d (new_mapped d cluster ls)) k key z =
   get_or_zero d (api_client (d_server d) Downstream) k key z"
  by (simp add: get_or_zero_def get_as_def downstream_def)

text \<open>Reading the object of the request: the rest of the reconciler works on an object with that key.\<close>

lemma emits_requested:
  assumes "server_law d" and "emits trace P (get_as (upstream d cluster) c key)"
    and "\<And>e. emits trace P (f (Inl e))"
    and "\<And>x. obj_key x = key \<Longrightarrow> emits trace P (f (Inr x))"
  shows "emits trace P (bindA (tryA (get_as (upstream d cluster) c key)) f)"
proof (rule emits_bind_run)
  fix r s s'
  assume run: "tryA (get_as (upstream d cluster) c key) s = (Ok r, s')"
  show "emits trace P (f r)"
  proof (cases r)
    case (Inr x)
    with run get_as_key [OF assms(1)] have "obj_key x = key" by (auto simp: tryA_Ok_iff upstream_def)
    with assms(4) Inr show ?thesis by simp
  qed (use assms(3) in simp)
qed (use assms(2) in auto)

end
