(* ===== verification/Workload_Controller.thy ===== *)
theory Workload_Controller
  imports Reconciler_Contract
begin

text \<open>
  \<open>internal/controller/workload_controller.go\<close>: the workload reconciler, which adds the operator's
  finalizer to a workload and, once the workload is deleted, deletes the anchor, the service account,
  the secret and the firewalls made for it before it takes the finalizer away.
\<close>

section \<open>The reconciler\<close>

definition workload_cleanup :: "'w deps \<Rightarrow> gcp_provider \<Rightarrow> string \<Rightarrow> unit kobj \<Rightarrow> ('w world, unit) act" where
  "workload_cleanup d cfg cluster wl =
     (let S = new_mapped_strategy d cluster (dm_labels (gp_downstream cfg));
          c = st_client S;
          key = key_of [] (workload_name (om_uid (md wl)))
      in bindA (wrapE ''failed to delete anchor for workload''
           (st_delete_anchor S (to_obj workload_c wl))) (\<lambda>_.
         bindA (wrapE ''failed to delete service account''
           (delete_ignoring_not_found d c KServiceAccount key)) (\<lambda>_.
         bindA (wrapE ''failed to delete secret''
           (delete_ignoring_not_found d c KGcpSecret key)) (\<lambda>_.
         bindA (wrapE ''failed to list firewall rules''
           (cl_list c KFirewall (workload_firewalls d (om_uid (md wl))))) (\<lambda>rules.
         eachA (\<lambda>rule. wrapE ''failed to delete firewall rule''
           (delete_ignoring_not_found d c KFirewall (obj_key rule))) rules)))))"

definition workload_reconcile ::
  "'w deps \<Rightarrow> gcp_provider \<Rightarrow> request \<Rightarrow> ('w world, ctrl_result) act" where
  "workload_reconcile d cfg rq =
     (let cluster = rq_cluster rq; c = upstream d cluster in
      bindA (get_cluster d cluster) (\<lambda>_.
      bindA (tryA (get_as c workload_c (rq_key rq))) (\<lambda>r. case r of
        Inl e \<Rightarrow> if d_is_not_found d e then ret Done else fail e
      | Inr wl \<Rightarrow>
          if om_deleted (md wl) \<noteq> None then
            (if has_finalizer d wl gcp_infra_finalizer then
               bindA (workload_cleanup d cfg cluster wl) (\<lambda>_.
               bindA (update_as c workload_c (without_finalizer d wl gcp_infra_finalizer)) (\<lambda>_.
               ret Done))
             else ret Done)
          else if \<not> has_finalizer d wl gcp_infra_finalizer then
            bindA (update_as c workload_c (with_finalizer d wl gcp_infra_finalizer)) (\<lambda>_. ret Done)
          else ret Done)))"

section \<open>The clean-up comes first\<close>

lemma new_mapped_strategy_client [simp]:
  "st_client (new_mapped_strategy d cluster ls) = mapped_client d (new_mapped d cluster ls)"
  "st_delete_anchor (new_mapped_strategy d cluster ls) = mapped_delete_anchor d (new_mapped d cluster ls)"
  by (simp_all add: new_mapped_strategy_def mapped_strategy_def)

text \<open>Deleting the anchor returns without an error only where the anchor is gone.\<close>

lemma leaves_anchor_gone:
  assumes "not_found_law d"
  shows "leaves trace (anchor_gone d (om_uid (md x))) (mapped_delete_anchor d (new_mapped d cluster ls) x)"
  unfolding mapped_delete_anchor_def
proof (rule leaves_later)
  show "appends trace (wrapE msg (mapped_object_meta (new_mapped d cluster ls) x))" for msg
    unfolding mapped_object_meta_def
    by (rule appends_emits [where P = "reads (sides_of cluster)"]) (intro emits_wrapE emits_bind emits_mapped_namespace emits_ret)
next
  fix key
  let ?key = "key_of (k_namespace key) (''anchor-'' @ om_uid (md x))"
  let ?c = "mapped_client d (new_mapped d cluster ls)"
  have get: "okhist trace (\<lambda>r es. case r of
      Inl e \<Rightarrow> d_is_not_found d e \<longrightarrow> es = [EGet Downstream KConfigMap ?key (Inl e)]
    | Inr a \<Rightarrow> es = [EGet Downstream KConfigMap ?key (Inr (to_obj configmap_c a))])
      (tryA (get_as ?c configmap_c ?key))"
  proof -
    have "get_as ?c configmap_c ?key = get_as (api_client (d_server d) Downstream) configmap_c ?key"
      by (simp add: get_as_def downstream_def)
    then show ?thesis
      using okhist_try_get [OF codecs_ok(10) assms, of Downstream ?key "d_server d"]
      unfolding codec_kinds by (simp only:)
  qed
  have del: "okhist trace (\<lambda>_ es. es = [EDelete Downstream KConfigMap k (Inr ())])
      (cl_delete ?c KConfigMap k)" for k
    by (auto simp: okhist_def downstream_def intro!: hist_call)
  show "leaves trace (anchor_gone d (om_uid (md x)))
     (bindA (tryA (get_as ?c configmap_c (key_of (k_namespace key) (anchor_name x)))) (\<lambda>r. case r of
       Inl e \<Rightarrow> if d_is_not_found d e then ret () else fail (Wrapped ''failed listing configmaps'' e)
     | Inr a \<Rightarrow> cl_delete ?c KConfigMap (obj_key a)))"
    unfolding leaves_def anchor_name_def
  proof (rule okhist_bind [OF get, where ?Q2.0 = "\<lambda>r _ es. case r of
        Inl e \<Rightarrow> d_is_not_found d e \<and> es = []
      | Inr a \<Rightarrow> es = [EDelete Downstream KConfigMap (obj_key a) (Inr ())]"])
    fix r :: "goerr + (string \<times> string) list kobj"
    show "okhist trace (\<lambda>_ es. case r of
          Inl e \<Rightarrow> d_is_not_found d e \<and> es = []
        | Inr a \<Rightarrow> es = [EDelete Downstream KConfigMap (obj_key a) (Inr ())])
      (case r of Inl e \<Rightarrow> if d_is_not_found d e then ret () else fail (Wrapped ''failed listing configmaps'' e)
       | Inr a \<Rightarrow> cl_delete ?c KConfigMap (obj_key a))"
      by (cases r) (use del in \<open>auto intro: okhist_ret\<close>)
  qed (auto simp: anchor_gone_def split: sum.splits)
qed simp

lemma leaves_firewalls_gone:
  "leaves trace (firewalls_gone d uid)
     (bindA (wrapE msg (cl_list (downstream d) KFirewall (workload_firewalls d uid))) (\<lambda>rules.
        eachA (\<lambda>rule. wrapE msg' (delete_ignoring_not_found d c KFirewall (obj_key rule))) rules))"
  if "cl_delete c = cl_delete (downstream d)" for msg msg'
  unfolding leaves_def
proof (rule okhist_bind)
  show "okhist trace (\<lambda>fs es. es = [EList Downstream KFirewall (workload_firewalls d uid) (Inr fs)])
      (wrapE msg (cl_list (downstream d) KFirewall (workload_firewalls d uid)))"
    by (rule okhist_wrapE) (auto simp: okhist_def downstream_def intro!: hist_call)
  show "okhist trace (\<lambda>_ es. \<forall>f \<in> set fs. deleted_by d KFirewall (obj_key f) (set es))
      (eachA (\<lambda>rule. wrapE msg' (delete_ignoring_not_found d c KFirewall (obj_key rule))) fs)" for fs
  proof -
    have "leaves trace (\<lambda>A. \<forall>f \<in> set fs. deleted_by d KFirewall (obj_key f) A)
        (eachA (\<lambda>rule. wrapE msg' (delete_ignoring_not_found d c KFirewall (obj_key rule))) fs)"
      by (intro leaves_eachA upward_deleted_by leaves_wrapE leaves_delete that)
    then show ?thesis by (simp only: leaves_def)
  qed
qed (auto simp: firewalls_gone_def intro: deleted_by_insert)

lemma leaves_workload_evidence:
  assumes "not_found_law d"
  shows "leaves trace (workload_evidence d (om_uid (md wl))) (workload_cleanup d cfg cluster wl)"
proof -
  let ?ms = "new_mapped d cluster (dm_labels (gp_downstream cfg))"
  let ?key = "key_of [] (workload_name (om_uid (md wl)))"
  have eq: "workload_evidence d (om_uid (md wl)) = (\<lambda>A. anchor_gone d (om_uid (md wl)) A \<and>
      deleted_by d KServiceAccount ?key A \<and> deleted_by d KGcpSecret ?key A \<and>
      firewalls_gone d (om_uid (md wl)) A)"
    by (simp add: workload_evidence_def fun_eq_iff)
  have client: "cl_delete (mapped_client d ?ms) = cl_delete (downstream d)" by simp
  have anchor: "leaves trace (anchor_gone d (om_uid (md wl))) (mapped_delete_anchor d ?ms (to_obj workload_c wl))"
    using leaves_anchor_gone [OF assms, of "to_obj workload_c wl"] by simp
  show ?thesis
    unfolding eq workload_cleanup_def Let_def new_mapped_strategy_client
    by (intro leaves_seq leaves_wrapE upward_conj upward_anchor_gone upward_deleted_by
        upward_firewalls_gone anchor leaves_delete [OF client])
      (simp add: leaves_firewalls_gone)
qed

text \<open>A clean-up itself writes nothing upstream.\<close>

lemma plain_workload_cleanup: "emits trace (plain ls k rq) (workload_cleanup d cfg (rq_cluster rq) wl)"
proof -
  have "emits trace (plain ls k rq) (mapped_delete_anchor d (new_mapped d (rq_cluster rq) ls') x)" for ls' x
    by (rule emits_mono [OF emits_mapped_delete_anchor]) auto
  then show ?thesis
    unfolding workload_cleanup_def Let_def
    by (intro emits_bind emits_wrapE emits_eachA emits_delete_ignoring_not_found)
      (auto simp: downstream_def intro!: emits_call)
qed

lemma workload_scoped:
  assumes "library_laws d"
  shows "emits trace (in_scope ls KWorkload rq) (workload_reconcile d cfg rq)"
proof -
  have "emits trace (in_scope ls KWorkload rq) (update_as (upstream d (rq_cluster rq)) workload_c wl)"
    if "obj_key wl = rq_key rq" for wl
    using that by (auto simp: upstream_def intro!: emits_update_as emits_call)
  then show ?thesis
    unfolding workload_reconcile_def Let_def
    by (intro emits_bind emits_get_cluster emits_requested library_lawsD [OF assms] plain_scoped [OF plain_get_as(1)])
      (auto intro!: emits_bind plain_scoped [OF plain_workload_cleanup])
qed

lemma workload_clean:
  assumes "library_laws d"
  shows "hist trace (\<lambda>_ es. clean_removals d es) (workload_reconcile d cfg rq)"
proof -
  have fin: "hist trace (\<lambda>_ es. clean_removals d es) (bindA (workload_cleanup d cfg (rq_cluster rq) wl) (\<lambda>_.
      bindA (update_as (upstream d (rq_cluster rq)) workload_c (without_finalizer d wl f)) (\<lambda>_. ret Done)))" for wl f
    by (rule clean_finalize)
      (use leaves_workload_evidence [OF library_lawsD(3) [OF assms], of wl] in
        \<open>auto intro: emits_mono [OF plain_workload_cleanup]\<close>)
  have add: "hist trace (\<lambda>_ es. clean_removals d es)
      (bindA (update_as (upstream d (rq_cluster rq)) workload_c wl) (\<lambda>_. ret Done))"
    if "om_deleted (md wl) = None" for wl
    using that by (intro guarded_emits emits_bind) (auto simp: upstream_def intro!: emits_update_as emits_call)
  show ?thesis
    unfolding workload_reconcile_def Let_def
    by (intro clean_seq plain_clean [OF plain_get_as(1)] guarded_emits [OF emits_get_cluster]
        guarded_emits [OF emits_tryA]) 
      (auto intro: fin add emits_mono [OF plain_get_as(1)] split: sum.splits)
qed

interpretation workload: reconciler d "workload_reconcile d cfg" KWorkload ls
  for d :: "'w deps" and cfg ls
  by unfold_locales (rule workload_scoped workload_clean; assumption)+

end
