(* ===== verification/Network_Controller.thy ===== *)
theory Network_Controller
  imports Reconciler_Contract
begin

text \<open>
  \<open>internal/controller/network_controller.go\<close>: the network reconciler. It keeps the operator's
  finalizer on a network and deletes the GCP network downstream before it takes the finalizer away.
\<close>

definition network_reconcile :: "'w deps \<Rightarrow> request \<Rightarrow> ('w world, ctrl_result) act" where
  "network_reconcile d rq =
     (let cluster = rq_cluster rq; c = upstream d cluster in
      bindA (get_cluster d cluster) (\<lambda>_.
      bindA (tryA (get_as c network_c (rq_key rq))) (\<lambda>r. case r of
        Inl e \<Rightarrow> if d_is_not_found d e then ret Done else fail e
      | Inr n \<Rightarrow>
          if om_deleted (md n) \<noteq> None then
            (if has_finalizer d n gcp_infra_finalizer then
               bindA (wrapE ''failed to delete downstream network''
                 (delete_ignoring_not_found d (downstream d) KGcpNetwork
                   (key_of [] (network_name (om_uid (md n)))))) (\<lambda>_.
               bindA (update_as c network_c (without_finalizer d n gcp_infra_finalizer)) (\<lambda>_.
               ret Done))
             else ret Done)
          else if \<not> has_finalizer d n gcp_infra_finalizer then
            bindA (update_as c network_c (with_finalizer d n gcp_infra_finalizer)) (\<lambda>_. ret Done)
          else ret Done)))"

lemma network_scoped:
  assumes "library_laws d"
  shows "emits trace (in_scope ls KNetwork rq) (network_reconcile d rq)"
proof -
  have "emits trace (in_scope ls KNetwork rq) (update_as (upstream d (rq_cluster rq)) network_c n)"
    if "obj_key n = rq_key rq" for n
    using that by (auto simp: upstream_def intro!: emits_update_as emits_call)
  then show ?thesis
    unfolding network_reconcile_def Let_def
    by (intro emits_bind emits_get_cluster emits_requested library_lawsD [OF assms] plain_scoped [OF plain_get_as(1)])
      (auto intro!: emits_bind emits_wrapE plain_scoped [OF plain_delete])
qed

lemma network_clean:
  assumes "library_laws d"
  shows "hist trace (\<lambda>_ es. clean_removals d es) (network_reconcile d rq)"
proof -
  have fin: "hist trace (\<lambda>_ es. clean_removals d es) (bindA (wrapE msg
        (delete_ignoring_not_found d (downstream d) KGcpNetwork (key_of [] (network_name (om_uid (md n)))))) (\<lambda>_.
      bindA (update_as (upstream d (rq_cluster rq)) network_c (without_finalizer d n f)) (\<lambda>_. ret Done)))" for n f msg
    by (rule clean_finalize)
      (auto intro: emits_wrapE emits_mono [OF plain_delete] leaves_wrapE leaves_delete)
  have add: "hist trace (\<lambda>_ es. clean_removals d es)
      (bindA (update_as (upstream d (rq_cluster rq)) network_c n) (\<lambda>_. ret Done))"
    if "om_deleted (md n) = None" for n
    using that by (intro guarded_emits emits_bind) (auto simp: upstream_def intro!: emits_update_as emits_call)
  show ?thesis
    unfolding network_reconcile_def Let_def
    by (intro clean_seq guarded_emits [OF emits_get_cluster] guarded_emits [OF emits_tryA])
      (auto intro: fin add emits_mono [OF plain_get_as(1)] split: sum.splits)
qed

interpretation network: reconciler d "network_reconcile d" KNetwork ls
  for d :: "'w deps" and ls
  by unfold_locales (rule network_scoped network_clean; assumption)+

end
