(* ===== verification/Network_Context_Controller.thy ===== *)
theory Network_Context_Controller
  imports Reconciler_Contract
begin

text \<open>
  \<open>internal/controller/networkcontext_controller.go\<close>: the network context reconciler. It creates or
  patches the GCP network of the context's network and publishes, whatever way it returns, whether the
  context is programmed.
\<close>

section \<open>The reconciler\<close>

text \<open>The callback of \<open>CreateOrPatch\<close>: the desired GCP network.\<close>

definition desired_network ::
  "'w deps \<Rightarrow> gcp_provider \<Rightarrow> string \<Rightarrow> network kobj \<Rightarrow> location \<Rightarrow> gcp_network kobj \<Rightarrow>
     ('w world, gcp_network kobj) act" where
  "desired_network d cfg cluster n loc g =
     bindA (provider_config d cfg cluster) (\<lambda>pc.
     bindA (gcp_of loc) (\<lambda>gl.
     ret \<lparr>md = (md g)\<lparr>om_annotations := (om_annotations (md g))(upstream_cluster_key \<mapsto> cluster)\<rparr>,
       pl = (pl g)\<lparr>gw_res := \<lparr>rs_manage_all = False, rs_delete = False, rs_provider = Some pc\<rparr>,
         gw_mtu := Some (n_mtu (pl n)), gw_auto_subnets := Some False,
         gw_policy_order := Some ''AFTER_CLASSIC_FIREWALL'', gw_routing := Some ''REGIONAL'',
         gw_project := Some (gl_project gl)\<rparr>\<rparr>))"

text \<open>What the function returns after the GCP network was written, with the condition it leaves.\<close>

definition context_outcome ::
  "'w deps \<Rightarrow> gcp_network kobj \<Rightarrow> ('s \<times> (network_context, 'z) prog_locals_scheme, ctrl_result) act" where
  "context_outcome d g =
     (let k = d_consts d; synced = d_get_condition d (gw_conditions (pl g)) (k_type_synced k) in
      if c_reason synced = ''ReconcileError'' then
        (let msg = ''Network failed to create: '' @ c_message synced in
         bindA (set_cond (\<lambda>c. c\<lparr>c_reason := ''NetworkFailedToCreate'', c_message := msg\<rparr>)) (\<lambda>_.
         fail (ErrorText msg)))
      else if \<not> is_ready d (gw_conditions (pl g)) then
        bindA (set_cond (\<lambda>c. c\<lparr>c_status := CFalse, c_reason := k_context_in_progress k,
          c_message := ''Network is being programmed.''\<rparr>)) (\<lambda>_. ret Done)
      else
        bindA (set_cond (\<lambda>c. c\<lparr>c_status := CTrue, c_reason := k_context_programmed k,
          c_message := ''Network is ready.''\<rparr>)) (\<lambda>_. ret Done))"

definition context_program ::
  "'w deps \<Rightarrow> gcp_provider \<Rightarrow> request \<Rightarrow> location \<Rightarrow> network_context kobj \<Rightarrow>
     ('w world \<times> network_context prog_locals, ctrl_result) act" where
  "context_program d cfg rq loc nc =
     (let cluster = rq_cluster rq;
          S = new_mapped_strategy d cluster (dm_labels (gp_downstream cfg)) in
      bindA (lift (wrapE ''failed fetching network''
        (get_as (upstream d cluster) network_c
          (key_of (om_namespace (md nc)) (nc_network (pl nc)))))) (\<lambda>n.
      bindA (lift (tryA (create_or_patch_as d (st_client S) gcp_network_c
        (named [] (network_name (om_uid (md n))) zero_gcp_network)
        (desired_network d cfg cluster n loc)))) (\<lambda>r. case r of
          Inl e \<Rightarrow> if d_is_conflict d e then ret Requeue else fail e
        | Inr g \<Rightarrow> context_outcome d g)))"

definition context_condition0 :: "'w deps \<Rightarrow> network_context kobj \<Rightarrow> condition" where
  "context_condition0 d nc = \<lparr>c_type = k_context_programmed (d_consts d), c_status = CFalse,
     c_reason = k_context_not_programmed (d_consts d), c_generation = om_generation (md nc),
     c_message = ''Network has not been programmed''\<rparr>"

definition publish_context ::
  "'w deps \<Rightarrow> string \<Rightarrow> network_context prog_locals \<Rightarrow> goerr option \<Rightarrow> ('w world, goerr option) act" where
  "publish_context d cluster = publish_condition d (upstream d cluster) context_c nc_conditions
     (\<lambda>cs b. b\<lparr>nc_conditions := cs\<rparr>)"

definition context_reconcile :: "'w deps \<Rightarrow> gcp_provider \<Rightarrow> string \<Rightarrow> request \<Rightarrow> ('w world, ctrl_result) act" where
  "context_reconcile d cfg cls rq =
     (let cluster = rq_cluster rq; c = upstream d cluster in
      bindA (get_cluster d cluster) (\<lambda>_.
      bindA (tryA (get_as c context_c (rq_key rq))) (\<lambda>r. case r of
        Inl e \<Rightarrow> if d_is_not_found d e then ret Done else fail e
      | Inr nc \<Rightarrow>
          bindA (get_location c (nc_location (pl nc)) cls) (\<lambda>(loc, process).
            if \<not> process then ret Done
            else if om_deleted (md nc) \<noteq> None then ret Done
            else if d_condition_true d (nc_conditions (pl nc)) (k_context_programmed (d_consts d)) then ret Done
            else defer_named \<lparr>lv_obj = nc, lv_cond = context_condition0 d nc\<rparr>
              (publish_context d cluster) (context_program d cfg rq (pl loc) nc)))))"

section \<open>The contract\<close>

lemma desired_network_key:
  "desired_network d cfg cluster n loc g s = (Ok g', s') \<Longrightarrow> obj_key g' = obj_key g"
  by (auto simp: desired_network_def obj_key_def elim!: bindA_OkE)

lemma emits_desired_network [hist_intros, intro, simp]:
  "emits trace P (desired_network d cfg cluster n loc g)"
  by (auto simp: desired_network_def intro!: hist_intros)

lemma plain_context_program:
  assumes "library_laws d"
  shows "emits (\<lambda>(s, l). trace s) (plain (dm_labels (gp_downstream cfg)) k rq) (context_program d cfg rq loc nc)"
proof -
  have "emits trace (plain (dm_labels (gp_downstream cfg)) k rq)
      (create_or_patch_as d (mapped_client d (new_mapped d (rq_cluster rq) (dm_labels (gp_downstream cfg))))
        gcp_network_c x (desired_network d cfg (rq_cluster rq) n loc))" for x n
    by (rule plain_create_or_patch [OF assms]) (auto dest: desired_network_key)
  then show ?thesis
    unfolding context_program_def context_outcome_def Let_def new_mapped_strategy_def mapped_strategy_def
      strategy.simps
    by (intro hist_intros plain_get_as) 
qed

lemma keeps_context_program: "keeps (\<lambda>l. lv_obj l = x) (context_program d cfg rq loc nc)"
  unfolding context_program_def context_outcome_def Let_def by (intro keeps_intros) auto

lemma context_plain:
  assumes "library_laws d"
  shows "emits trace (plain (dm_labels (gp_downstream cfg)) KContext rq) (context_reconcile d cfg cls rq)"
proof -
  have "emits trace (plain (dm_labels (gp_downstream cfg)) KContext rq)
      (defer_named \<lparr>lv_obj = nc, lv_cond = context_condition0 d nc\<rparr>
        (publish_context d (rq_cluster rq)) (context_program d cfg rq loc nc))"
    if "obj_key nc = rq_key rq" for nc loc
    by (rule emits_defer_named [OF stays_emits [OF keeps_context_program plain_context_program [OF assms]]])
      (use that in \<open>auto simp: publish_context_def obj_key_def
        intro!: emits_publish_condition plain_status_update\<close>)
  then show ?thesis
    unfolding context_reconcile_def Let_def
    by (intro emits_bind emits_get_cluster emits_requested library_lawsD [OF assms] plain_get_as)
      (auto intro!: hist_intros plain_location)
qed

interpretation netcontext: reconciler d "context_reconcile d cfg cls" KContext "dm_labels (gp_downstream cfg)"
  for d :: "'w deps" and cfg cls
  by unfold_locales (blast intro: plain_scoped plain_clean context_plain)+

end
