(* ===== verification/Subnet_Controller.thy ===== *)
theory Subnet_Controller
  imports Reconciler_Contract
begin

text \<open>
  \<open>internal/controller/subnet_controller.go\<close>: the subnet reconciler. A registered finalizer deletes
  the GCP subnetwork; a subnet with an allocated prefix gets a GCP subnetwork, created once, and the
  reconciler publishes whether it is programmed. The function has no named error result, so the error
  its deferred function assigns is not returned: \<open>defer_unnamed\<close>.
\<close>

section \<open>The reconciler\<close>

text \<open>\<open>Finalize\<close>, the registered finalizer.\<close>

definition subnet_finalize :: "'w deps \<Rightarrow> obj \<Rightarrow> ('w world, unit) act" where
  "subnet_finalize d x = wrapE ''failed to delete downstream subnet''
     (delete_ignoring_not_found d (downstream d) KSubnetwork (key_of [] (subnet_name (om_uid (md x)))))"

definition subnet_finalizers :: "'w deps \<Rightarrow> subnet kobj \<Rightarrow> ('w world, subnet kobj \<times> bool) act" where
  "subnet_finalizers d sn =
     bindA (d_finalize d gcp_infra_finalizer (subnet_finalize d) (to_obj subnet_c sn))
       (\<lambda>(x, updated). bindA (pure (of_obj subnet_c x)) (\<lambda>sn'. ret (sn', updated)))"

text \<open>\<open>v, ok := err.(kerrors.Aggregate); ok && v.Is(errResourceIsDeleting)\<close>\<close>

definition is_deleting :: "goerr \<Rightarrow> bool" where
  "is_deleting e = (case e of Joined es \<Rightarrow> errors_is e ResourceIsDeleting | _ \<Rightarrow> False)"

definition desired_subnetwork ::
  "'w deps \<Rightarrow> gcp_provider \<Rightarrow> string \<Rightarrow> subnet kobj \<Rightarrow> network kobj \<Rightarrow> location \<Rightarrow> ('s, subnetwork kobj) act" where
  "desired_subnetwork d cfg cluster sn n loc =
     bindA (provider_config d cfg cluster) (\<lambda>pc.
     case (sn_start (pl sn), sn_prefix (pl sn)) of
       (Some start, Some len) \<Rightarrow> bindA (gcp_of loc) (\<lambda>gl.
         let x = named [] (subnet_name (om_uid (md sn))) zero_subnetwork in
         ret \<lparr>md = (md x)\<lparr>om_annotations := [upstream_name_key \<mapsto> om_name (md sn),
               upstream_namespace_key \<mapsto> om_namespace (md sn), upstream_cluster_key \<mapsto> cluster]\<rparr>,
           pl = (pl x)\<lparr>
             sw_res := \<lparr>rs_manage_all = False, rs_delete = False, rs_provider = Some pc\<rparr>,
             sw_cidr := Some (start @ ''/'' @ itoa len),
             sw_network_ref := Some (network_name (om_uid (md n))),
             sw_project := Some (gl_project gl), sw_region := Some (gl_region gl),
             sw_purpose := Some ''PRIVATE'', sw_stack := Some ''IPV4_ONLY''\<rparr>\<rparr>)
     | _ \<Rightarrow> panic ''nil pointer dereference'')"

text \<open>The part of \<open>Reconcile\<close> under the deferred status update.\<close>

definition subnet_program ::
  "'w deps \<Rightarrow> gcp_provider \<Rightarrow> request \<Rightarrow> location \<Rightarrow> subnet kobj \<Rightarrow>
     ('w world \<times> subnet prog_locals, ctrl_result) act" where
  "subnet_program d cfg rq loc sn =
     (let cluster = rq_cluster rq; c = upstream d cluster; k = d_consts d;
          S = new_mapped_strategy d cluster (dm_labels (gp_downstream cfg)) in
      if \<not> d_condition_true d (sn_conditions (pl sn)) (k_subnet_allocated k) then ret Done
      else
      bindA (lift (wrapE ''failed to get network context''
        (get_as c context_c (key_of (om_namespace (md sn)) (sn_context (pl sn)))))) (\<lambda>nc.
      bindA (lift (wrapE ''failed to get network''
        (get_as c network_c (key_of (om_namespace (md nc)) (nc_network (pl nc)))))) (\<lambda>n.
      bindA (lift (wrapE ''failed to get downstream subnet''
        (get_or_zero d (st_client S) subnetwork_c (key_of [] (subnet_name (om_uid (md sn))))
          (named [] (subnet_name (om_uid (md sn))) zero_subnetwork)))) (\<lambda>g0.
      bindA (if om_created (md g0) = None
             then bindA (lift (desired_subnetwork d cfg cluster sn n loc)) (\<lambda>x.
               lift (wrapE ''failed to create downstream subnet'' (create_as (st_client S) subnetwork_c x)))
             else ret g0) (\<lambda>g.
      if \<not> is_ready d (sw_conditions (pl g)) then
        bindA (set_cond (\<lambda>cd. cd\<lparr>c_status := CFalse, c_reason := k_subnet_in_progress k,
          c_message := ''Subnet is being programmed.''\<rparr>)) (\<lambda>_. ret Done)
      else
        bindA (set_cond (\<lambda>cd. cd\<lparr>c_status := CTrue, c_reason := k_subnet_programmed_reason k,
          c_message := ''Subnet is ready.''\<rparr>)) (\<lambda>_. ret Done))))))"

definition subnet_condition0 :: "'w deps \<Rightarrow> subnet kobj \<Rightarrow> condition" where
  "subnet_condition0 d sn = \<lparr>c_type = k_subnet_programmed (d_consts d), c_status = CFalse,
     c_reason = k_subnet_not_programmed (d_consts d), c_generation = om_generation (md sn),
     c_message = ''Subnet has not been programmed''\<rparr>"

definition publish_subnet ::
  "'w deps \<Rightarrow> string \<Rightarrow> subnet prog_locals \<Rightarrow> goerr option \<Rightarrow> ('w world, goerr option) act" where
  "publish_subnet d cluster = publish_condition d (upstream d cluster) subnet_c sn_conditions
     (\<lambda>cs b. b\<lparr>sn_conditions := cs\<rparr>)"

definition subnet_reconcile :: "'w deps \<Rightarrow> gcp_provider \<Rightarrow> string \<Rightarrow> request \<Rightarrow> ('w world, ctrl_result) act" where
  "subnet_reconcile d cfg cls rq =
     (let cluster = rq_cluster rq; c = upstream d cluster in
      bindA (get_cluster d cluster) (\<lambda>_.
      bindA (tryA (get_as c subnet_c (rq_key rq))) (\<lambda>r. case r of
        Inl e \<Rightarrow> if d_is_not_found d e then ret Done else fail e
      | Inr sn \<Rightarrow>
          bindA (get_location c (sn_location (pl sn)) cls) (\<lambda>(loc, process).
            if \<not> process then ret Done
            else bindA (tryA (subnet_finalizers d sn)) (\<lambda>f. case f of
              Inl e \<Rightarrow> if is_deleting e then ret Done else fail (Wrapped ''failed to finalize'' e)
            | Inr (sn1, updated) \<Rightarrow>
                if updated then
                  bindA (wrapE ''failed to update based on finalization result''
                    (update_as c subnet_c sn1)) (\<lambda>_. ret Done)
                else if om_deleted (md sn1) \<noteq> None then ret Done
                else if d_condition_true d (sn_conditions (pl sn1)) (k_subnet_programmed (d_consts d)) then ret Done
                else defer_unnamed \<lparr>lv_obj = sn1, lv_cond = subnet_condition0 d sn1\<rparr>
                  (publish_subnet d cluster) (subnet_program d cfg rq (pl loc) sn1))))))"

section \<open>The contract\<close>

lemma emits_desired_subnetwork [hist_intros, intro, simp]:
  "emits trace P (desired_subnetwork d cfg cluster sn n loc)"
  by (auto simp: desired_subnetwork_def Let_def intro!: hist_intros split: option.split)

lemma plain_subnet_program:
  assumes "library_laws d"
  shows "emits (\<lambda>(s, l). trace s) (plain (dm_labels (gp_downstream cfg)) k rq) (subnet_program d cfg rq loc sn)"
  unfolding subnet_program_def Let_def new_mapped_strategy_def mapped_strategy_def strategy.simps
  by (intro hist_intros plain_get_as plain_get_or_zero)
    (auto intro: plain_mapped_create [OF library_lawsD(1) [OF assms]])

lemma keeps_subnet_program: "keeps (\<lambda>l. lv_obj l = x) (subnet_program d cfg rq loc sn)"
  unfolding subnet_program_def Let_def by (intro keeps_intros) auto

lemma plain_subnet_published:
  assumes "library_laws d" and "obj_key sn = rq_key rq"
  shows "emits trace (plain (dm_labels (gp_downstream cfg)) KSubnet rq)
    (defer_unnamed \<lparr>lv_obj = sn, lv_cond = subnet_condition0 d sn\<rparr>
      (publish_subnet d (rq_cluster rq)) (subnet_program d cfg rq loc sn))"
  by (rule emits_defer_unnamed [OF stays_emits [OF keeps_subnet_program plain_subnet_program [OF assms(1)]]])
    (use assms(2) in \<open>auto simp: publish_subnet_def obj_key_def
      intro!: emits_publish_condition plain_status_update\<close>)

text \<open>
  What the registered finalizer does, from the library's law: it makes no call but the deletion of the
  GCP subnetwork, and where it returns a deleted subnet to be updated, that deletion was made.
\<close>

lemma subnet_finalizers_law:
  assumes "finalize_law d"
  shows "subnet_finalizers d sn =
    (if om_deleted (md sn) = None then
       (if gcp_infra_finalizer \<in> set (om_finalizers (md sn)) then ret (sn, False)
        else ret (sn\<lparr>md := (md sn)\<lparr>om_finalizers := om_finalizers (md sn) @ [gcp_infra_finalizer]\<rparr>\<rparr>, True))
     else if gcp_infra_finalizer \<in> set (om_finalizers (md sn)) then
       bindA (tryA (subnet_finalize d (to_obj subnet_c sn))) (\<lambda>r. case r of
         Inl e \<Rightarrow> fail (Joined [e])
       | Inr _ \<Rightarrow> ret (sn\<lparr>md := (md sn)\<lparr>om_finalizers :=
           filter (\<lambda>g. g \<noteq> gcp_infra_finalizer) (om_finalizers (md sn))\<rparr>\<rparr>, True))
     else ret (sn, False))"
proof -
  have conv: "of_obj subnet_c (to_obj subnet_c sn\<lparr>md := m\<rparr>) = Inr (sn\<lparr>md := m\<rparr>)" for m
    by (simp add: of_obj_def subnet_c_def to_obj_def)
  have same: "of_obj subnet_c (to_obj subnet_c sn) = Inr sn" by simp
  have law: "d_finalize d gcp_infra_finalizer f x =
     (if om_deleted (md x) = None then
        (if gcp_infra_finalizer \<in> set (om_finalizers (md x)) then ret (x, False)
         else ret (x\<lparr>md := (md x)\<lparr>om_finalizers := om_finalizers (md x) @ [gcp_infra_finalizer]\<rparr>\<rparr>, True))
      else if gcp_infra_finalizer \<in> set (om_finalizers (md x)) then
        bindA (tryA (f x)) (\<lambda>r. case r of
          Inl e \<Rightarrow> fail (Joined [e])
        | Inr _ \<Rightarrow> ret (x\<lparr>md := (md x)\<lparr>om_finalizers := filter (\<lambda>g. g \<noteq> gcp_infra_finalizer) (om_finalizers (md x))\<rparr>\<rparr>, True))
      else ret (x, False))" for f x
    using assms unfolding finalize_law_def by blast
  have case_bind: "bindA (case r of Inl e \<Rightarrow> fail (h e) | Inr _ \<Rightarrow> ret x) g =
      (case r of Inl e \<Rightarrow> fail (h e) | Inr _ \<Rightarrow> g x)" for r :: "goerr + unit" and h x g
    by (cases r) simp_all
  show ?thesis
    unfolding subnet_finalizers_def law
    by (simp add: conv same bindA_assoc case_bind cong: sum.case_cong)
qed

lemma plain_subnet_finalize: "emits trace (plain ls k rq) (subnet_finalize d x)"
  unfolding subnet_finalize_def by (intro emits_wrapE plain_delete)

lemma plain_subnet_finalizers:
  assumes "library_laws d"
  shows "emits trace (plain ls k rq) (subnet_finalizers d sn)"
  unfolding subnet_finalizers_law [OF library_lawsD(6) [OF assms]]
  by (intro hist_intros plain_subnet_finalize)

lemma okhist_subnet_finalizers:
  assumes "library_laws d"
  shows "okhist trace (\<lambda>(sn', updated) es. obj_key sn' = obj_key sn \<and>
      (om_deleted (md sn') \<noteq> None \<longrightarrow> updated \<longrightarrow> clean_for d (to_obj subnet_c sn') (set es)))
      (subnet_finalizers d sn)"
proof -
  let ?Q = "\<lambda>(sn', updated) es. obj_key sn' = obj_key sn \<and>
      (om_deleted (md sn') \<noteq> None \<longrightarrow> updated \<longrightarrow> clean_for d (to_obj subnet_c sn') (set es))"
  let ?del = "deleted_by d KSubnetwork (key_of [] (subnet_name (om_uid (md sn))))"
  let ?sn = "sn\<lparr>md := (md sn)\<lparr>om_finalizers :=
    filter (\<lambda>g. g \<noteq> gcp_infra_finalizer) (om_finalizers (md sn))\<rparr>\<rparr>"
  have "leaves trace ?del (subnet_finalize d (to_obj subnet_c sn))"
    unfolding subnet_finalize_def by (simp add: leaves_wrapE leaves_delete)
  then have tried: "okhist trace (\<lambda>r es. r = Inr () \<longrightarrow> ?del (set es)) (tryA (subnet_finalize d (to_obj subnet_c sn)))"
    unfolding leaves_def okhist_def by (rule hist_tryA) auto
  have "okhist trace ?Q (bindA (tryA (subnet_finalize d (to_obj subnet_c sn))) (\<lambda>r. case r of
         Inl e \<Rightarrow> fail (Joined [e]) | Inr _ \<Rightarrow> ret (?sn, True)))"
    by (rule okhist_bind [OF tried, where ?Q2.0 = "\<lambda>r y es. r = Inr () \<and> y = (?sn, True) \<and> es = []"])
      (auto simp: obj_key_def okhist_ret split: sum.split)
  then show ?thesis
    unfolding subnet_finalizers_law [OF library_lawsD(6) [OF assms]]
    by (auto intro!: okhist_ret simp: obj_key_def)
qed

text \<open>After the finalizers: only the update that carries their result may remove one.\<close>

lemma subnet_after_finalizers:
  assumes "library_laws d" and "obj_key sn = rq_key rq"
  shows "emits trace (in_scope (dm_labels (gp_downstream cfg)) KSubnet rq)
    (if updated then
       bindA (wrapE msg (update_as (upstream d (rq_cluster rq)) subnet_c sn)) (\<lambda>_. ret Done)
     else if om_deleted (md sn) \<noteq> None then ret Done
     else if d_condition_true d (sn_conditions (pl sn)) t then ret Done
     else defer_unnamed \<lparr>lv_obj = sn, lv_cond = subnet_condition0 d sn\<rparr>
       (publish_subnet d (rq_cluster rq)) (subnet_program d cfg rq loc sn))"
  using assms
  by (auto simp: upstream_def intro!: emits_bind emits_wrapE emits_update_as emits_call
      emits_mono [OF plain_subnet_published])

lemma subnet_published_quiet:
  assumes "library_laws d"
  shows "emits trace (\<lambda>e. \<not> removal e)
    (defer_unnamed \<lparr>lv_obj = sn, lv_cond = c0\<rparr> (publish_subnet d cluster) (subnet_program d cfg rq loc sn))"
  by (rule emits_defer_unnamed [where I = "\<lambda>l. lv_obj l = sn"])
    (auto intro!: stays_emits keeps_subnet_program simp: publish_subnet_def upstream_def intro!: emits_publish_condition emits_status_update_as
      emits_call emits_mono [OF plain_subnet_program [OF assms]])

lemma subnet_scoped:
  assumes "library_laws d"
  shows "emits trace (in_scope (dm_labels (gp_downstream cfg)) KSubnet rq) (subnet_reconcile d cfg cls rq)"
proof -
  let ?P = "in_scope (dm_labels (gp_downstream cfg)) KSubnet rq"
  have "emits trace ?P (bindA (tryA (subnet_finalizers d sn)) (\<lambda>f. case f of
      Inl e \<Rightarrow> if is_deleting e then ret Done else fail (Wrapped ''failed to finalize'' e)
    | Inr (sn1, updated) \<Rightarrow>
        if updated then
          bindA (wrapE ''failed to update based on finalization result''
            (update_as (upstream d (rq_cluster rq)) subnet_c sn1)) (\<lambda>_. ret Done)
        else if om_deleted (md sn1) \<noteq> None then ret Done
        else if d_condition_true d (sn_conditions (pl sn1)) (k_subnet_programmed (d_consts d)) then ret Done
        else defer_unnamed \<lparr>lv_obj = sn1, lv_cond = subnet_condition0 d sn1\<rparr>
          (publish_subnet d (rq_cluster rq)) (subnet_program d cfg rq loc sn1)))"
    (is "emits trace ?P (bindA _ ?k)") if key: "obj_key sn = rq_key rq" for sn loc
  proof (rule emits_bind_run)
    show "emits trace ?P (tryA (subnet_finalizers d sn))"
      by (intro emits_tryA plain_scoped [OF plain_subnet_finalizers] assms)
    fix f w w'
    assume run: "tryA (subnet_finalizers d sn) w = (Ok f, w')"
    show "emits trace ?P (?k f)"
    proof (cases f)
      case (Inr p)
      obtain sn1 updated where p: "p = (sn1, updated)" by (cases p)
      with run Inr have "subnet_finalizers d sn w = (Ok (sn1, updated), w')" by (simp add: tryA_Ok_iff)
      from okhistE [OF okhist_subnet_finalizers [OF assms] this] have "obj_key sn1 = obj_key sn"
        unfolding prod.case by metis
      then show ?thesis
        using key by (simp only: Inr p sum.case prod.case subnet_after_finalizers [OF assms])
    qed auto
  qed
  then show ?thesis
    unfolding subnet_reconcile_def Let_def
    by (intro emits_bind emits_get_cluster emits_requested library_lawsD [OF assms] plain_scoped [OF plain_get_as(1)])
      (auto intro!: emits_bind plain_scoped [OF plain_location])
qed

lemma subnet_clean:
  assumes "library_laws d"
  shows "hist trace (\<lambda>_ es. clean_removals d es) (subnet_reconcile d cfg cls rq)"
proof -
  let ?u = "upstream d (rq_cluster rq)"
  have "hist trace (\<lambda>_ es. clean_removals d es) (bindA (tryA (subnet_finalizers d sn)) (\<lambda>f. case f of
      Inl e \<Rightarrow> if is_deleting e then ret Done else fail (Wrapped ''failed to finalize'' e)
    | Inr (sn1, updated) \<Rightarrow>
        if updated then
          bindA (wrapE ''failed to update based on finalization result'' (update_as ?u subnet_c sn1)) (\<lambda>_. ret Done)
        else if om_deleted (md sn1) \<noteq> None then ret Done
        else if d_condition_true d (sn_conditions (pl sn1)) (k_subnet_programmed (d_consts d)) then ret Done
        else defer_unnamed \<lparr>lv_obj = sn1, lv_cond = subnet_condition0 d sn1\<rparr>
          (publish_subnet d (rq_cluster rq)) (subnet_program d cfg rq loc sn1)))" for sn loc
  proof (rule guarded_bind [OF upward_evidence, where G = "\<lambda>f e. \<exists>sn1 r. f = Inr (sn1, True) \<and>
        e = EUpdate (Upstream (rq_cluster rq)) (to_obj subnet_c sn1) r"])
    show "emits trace (\<lambda>e. \<not> removal e) (tryA (subnet_finalizers d sn))"
      by (intro emits_tryA emits_mono [OF plain_subnet_finalizers] assms) auto
    show "okhist trace (\<lambda>f es. \<forall>e. removal e \<longrightarrow> (\<exists>sn1 r. f = Inr (sn1, True) \<and>
        e = EUpdate (Upstream (rq_cluster rq)) (to_obj subnet_c sn1) r) \<longrightarrow> evidence d e (set es))
        (tryA (subnet_finalizers d sn))"
      using okhist_subnet_finalizers [OF assms, of sn] unfolding okhist_def
      by (rule hist_tryA) auto
  qed (auto simp: upstream_def intro!: emits_bind emits_wrapE emits_update_as emits_call
      emits_mono [OF subnet_published_quiet [OF assms]] split: sum.split)
  then show ?thesis
    unfolding subnet_reconcile_def Let_def
    by (intro clean_seq guarded_emits [OF emits_get_cluster] guarded_emits [OF emits_tryA])
      (auto intro!: clean_seq plain_clean [OF plain_location] emits_mono [OF plain_get_as(1)] split: sum.splits)
qed

interpretation subnet: reconciler d "subnet_reconcile d cfg cls" KSubnet "dm_labels (gp_downstream cfg)"
  for d :: "'w deps" and cfg cls
  by unfold_locales (blast intro: subnet_scoped subnet_clean)+

end
