(* ===== verification/Instance_Power.thy ===== *)
theory Instance_Power
  imports Reconciler_Contract
begin

text \<open>
  From \<open>internal/controller/instance_controller.go\<close>: \<open>syncInstancePowerState\<close>, which turns the status of
  the GCP instance into the Running condition of the instance, and \<open>Finalize\<close>, which deletes the GCP
  instance and lets go of the instance once Crossplane has let go of the GCP instance.
\<close>

section \<open>The power state\<close>

text \<open>The \<open>switch\<close> on the current status: an empty case leaves the condition as it is.\<close>

definition power_switch :: "api_consts \<Rightarrow> string \<Rightarrow> condition \<Rightarrow> condition" where
  "power_switch k s c =
     (if s = ''PROVISIONING'' then c\<lparr>c_reason := k_running_starting k, c_message := ''Instance is starting''\<rparr>
      else if s = ''STAGING'' then c\<lparr>c_reason := k_running_starting k, c_message := ''Instance is staging''\<rparr>
      else if s = ''RUNNING'' then c\<lparr>c_status := CTrue, c_reason := k_running_running k,
        c_message := ''Instance is running''\<rparr>
      else if s = ''STOPPING'' then c\<lparr>c_reason := k_running_stopping k, c_message := ''Instance is stopping''\<rparr>
      else if s = ''SUSPENDING'' then c
      else if s = ''SUSPENDED'' then c\<lparr>c_reason := k_running_stopped k,
        c_message := ''Instance is suspended or suspending at provider''\<rparr>
      else if s = ''REPAIRING'' then c\<lparr>c_reason := k_running_stopped k,
        c_message := ''Instance is being repaired at provider''\<rparr>
      else if s = ''TERMINATED'' then c\<lparr>c_reason := k_running_stopped k, c_message := ''Instance is not running''\<rparr>
      else c)"

definition running_condition :: "api_consts \<Rightarrow> inst kobj \<Rightarrow> gcp_instance kobj \<Rightarrow> condition" where
  "running_condition k x g =
     (let c = \<lparr>c_type = k_instance_running k, c_status = CFalse, c_reason = k_running_stopped k,
            c_generation = om_generation (md x), c_message = ''Instance is not running''\<rparr> in
      if om_deleted (md x) \<noteq> None then
        c\<lparr>c_reason := k_running_stopping k, c_message := ''Instance is being deleted''\<rparr>
      else power_switch k (case gi_current_status (pl g) of None \<Rightarrow> ''PROVISIONING'' | Some s \<Rightarrow> s) c)"

text \<open>
  \<open>syncInstancePowerState\<close>. It writes through its pointer to the instance, so the instance it leaves is
  part of the result, with the error it returns.
\<close>

definition sync_power_state ::
  "'w deps \<Rightarrow> 's client \<Rightarrow> inst kobj \<Rightarrow> gcp_instance kobj \<Rightarrow> ('s, inst kobj \<times> goerr option) act" where
  "sync_power_state d c x g =
     (let (cs, changed) = d_set_condition d (i_conditions (pl x)) (running_condition (d_consts d) x g);
          x1 = x\<lparr>pl := (pl x)\<lparr>i_conditions := cs\<rparr>\<rparr> in
      if changed then
        bindA (tryA (status_update_as c instance_c x1)) (\<lambda>r. case r of
          Inl e \<Rightarrow> ret (x1, Some (Wrapped ''failed to update instance status'' e))
        | Inr x2 \<Rightarrow> ret (x2, None))
      else ret (x1, None))"

section \<open>Finalize\<close>

definition instance_finalize :: "'w deps \<Rightarrow> string \<Rightarrow> inst kobj \<Rightarrow> ('w world, unit) act" where
  "instance_finalize d cluster x =
     (let c = upstream d cluster; dc = downstream d in
      bindA (wrapE ''failed fetching downstream instance''
        (get_or_zero d dc gcp_instance_c (key_of [] (instance_name (om_uid (md x)))) zero_gcp_instance)) (\<lambda>g.
      bindA (if om_created (md g) \<noteq> None \<and> om_deleted (md g) = None
             then wrapE ''failed to delete downstream instance'' (cl_delete dc KGcpInstance (obj_key g))
             else ret ()) (\<lambda>_.
      if om_created (md g) \<noteq> None \<and> has_finalizer d g crossplane_finalizer then
        bindA (sync_power_state d c x g) (\<lambda>(_, err). case err of None \<Rightarrow> ret () | Some e \<Rightarrow> fail e)
      else
      bindA (if snd (d_remove_finalizer d (om_finalizers (md g)) gcp_infra_finalizer)
             then bindA (wrapE ''failed to remove finalizer''
               (update_as dc gcp_instance_c (without_finalizer d g gcp_infra_finalizer))) (\<lambda>_. ret ())
             else ret ()) (\<lambda>_.
      if snd (d_remove_finalizer d (om_finalizers (md x)) gcp_infra_finalizer)
      then bindA (wrapE ''failed to remove finalizer''
        (update_as c instance_c (without_finalizer d x gcp_infra_finalizer))) (\<lambda>_. ret ())
      else ret ()))))"

section \<open>What they emit\<close>

lemma plain_sync_power_state:
  assumes "obj_key x = rq_key rq"
  shows "emits trace (plain ls KInstance rq) (sync_power_state d (upstream d (rq_cluster rq)) x g)"
proof -
  have "emits trace (plain ls KInstance rq) (status_update_as (upstream d (rq_cluster rq)) instance_c
      (x\<lparr>pl := (pl x)\<lparr>i_conditions := cs\<rparr>\<rparr>))" for cs
    by (rule plain_status_update) (use assms in \<open>auto simp: obj_key_def\<close>)
  then show ?thesis
    unfolding sync_power_state_def Let_def
    by (intro emits_case_prod emits_if emits_bind emits_tryA emits_ret emits_case_sum)
qed

lemma sync_quiet: "emits trace (\<lambda>e. \<not> removal e) (sync_power_state d (upstream d cluster) x g)"
  unfolding sync_power_state_def Let_def
  by (intro emits_case_prod emits_if emits_bind emits_tryA emits_ret emits_case_sum emits_status_update_as)
    (auto simp: upstream_def intro!: emits_call)

lemma sync_power_state_key:
  assumes "server_law d" and "sync_power_state d (upstream d cluster) x g s = (Ok (x', err), s')"
  shows "obj_key x' = obj_key x"
proof -
  obtain cs changed where cs: "d_set_condition d (i_conditions (pl x)) (running_condition (d_consts d) x g) = (cs, changed)"
    by fastforce
  let ?x1 = "x\<lparr>pl := (pl x)\<lparr>i_conditions := cs\<rparr>\<rparr>"
  have x1: "obj_key ?x1 = obj_key x" by (simp add: obj_key_def)
  from assms(2) cs show ?thesis
    by (auto simp: sync_power_state_def Let_def tryA_Ok_iff upstream_def x1 elim!: bindA_OkE split: if_splits sum.splits
        dest!: status_update_as_key [OF assms(1)])
qed

lemma instance_finalize_scoped:
  assumes "obj_key x = rq_key rq"
  shows "emits trace (in_scope ls KInstance rq) (instance_finalize d (rq_cluster rq) x)"
proof -
  have sync: "emits trace (in_scope ls KInstance rq) (sync_power_state d (upstream d (rq_cluster rq)) x g)" for g
    by (rule plain_scoped [OF plain_sync_power_state [OF assms]])
  show ?thesis
    unfolding instance_finalize_def Let_def
    by (intro emits_bind emits_wrapE emits_if emits_ret emits_case_prod emits_case_option emits_fail sync
        emits_get_or_zero emits_update_as)
      (use assms in \<open>auto simp: downstream_def upstream_def intro!: emits_call\<close>)
qed

text \<open>The read and the deletion a clean-up starts with are the evidence it needs later.\<close>

lemma okhist_teardown:
  assumes "not_found_law d"
  shows "okhist trace (\<lambda>g es. \<not> (om_created (md g) \<noteq> None \<and> has_finalizer d g crossplane_finalizer) \<longrightarrow>
      instance_evidence d uid (set es))
    (bindA (wrapE m1 (get_or_zero d (downstream d) gcp_instance_c (key_of [] (instance_name uid)) zero_gcp_instance)) (\<lambda>g.
     bindA (if om_created (md g) \<noteq> None \<and> om_deleted (md g) = None
            then wrapE m2 (cl_delete (downstream d) KGcpInstance (obj_key g)) else ret ()) (\<lambda>_. ret g)))"
proof (rule okhist_bind)
  show "okhist trace (\<lambda>g es. (\<exists>e. es = [EGet Downstream KGcpInstance (key_of [] (instance_name uid)) (Inl e)] \<and>
        d_is_not_found d e \<and> g = zero_gcp_instance) \<or>
      es = [EGet Downstream KGcpInstance (key_of [] (instance_name uid)) (Inr (to_obj gcp_instance_c g))])
      (wrapE m1 (get_or_zero d (downstream d) gcp_instance_c (key_of [] (instance_name uid)) zero_gcp_instance))"
    using okhist_get_or_zero [OF codecs_ok(16) assms, of Downstream]
    unfolding downstream_def codec_kinds by (rule okhist_wrapE)
  show "okhist trace (\<lambda>y es. y = g \<and> (om_created (md g) \<noteq> None \<and> om_deleted (md g) = None \<longrightarrow>
        es = [EDelete Downstream KGcpInstance (obj_key g) (Inr ())]))
     (bindA (if om_created (md g) \<noteq> None \<and> om_deleted (md g) = None
            then wrapE m2 (cl_delete (downstream d) KGcpInstance (obj_key g)) else ret ()) (\<lambda>_. ret g))" for g
  proof (cases "om_created (md g) \<noteq> None \<and> om_deleted (md g) = None")
    case True
    have "okhist trace (\<lambda>_ es. es = [EDelete Downstream KGcpInstance (obj_key g) (Inr ())])
        (wrapE m2 (cl_delete (downstream d) KGcpInstance (obj_key g)))"
      by (rule okhist_wrapE) (auto simp: okhist_def downstream_def intro!: hist_call)
    then have "okhist trace (\<lambda>y es. y = g \<and> es = [EDelete Downstream KGcpInstance (obj_key g) (Inr ())])
        (bindA (wrapE m2 (cl_delete (downstream d) KGcpInstance (obj_key g))) (\<lambda>_. ret g))"
      by (rule okhist_bind [where ?Q2.0 = "\<lambda>_ y es. y = g \<and> es = []"]) (auto intro: okhist_ret)
    with True show ?thesis by simp
  qed (auto intro: okhist_ret)
qed (auto simp: instance_evidence_def has_finalizer_def)

lemma instance_finalize_clean:
  assumes "library_laws d"
  shows "hist trace (\<lambda>_ es. clean_removals d es) (instance_finalize d cluster x)"
proof -
  let ?c = "upstream d cluster" and ?dc = "downstream d"
  let ?key = "key_of [] (instance_name (om_uid (md x)))"
  let ?pre = "bindA (wrapE ''failed fetching downstream instance''
      (get_or_zero d ?dc gcp_instance_c ?key zero_gcp_instance)) (\<lambda>g.
    bindA (if om_created (md g) \<noteq> None \<and> om_deleted (md g) = None
           then wrapE ''failed to delete downstream instance'' (cl_delete ?dc KGcpInstance (obj_key g))
           else ret ()) (\<lambda>_. ret g))"
  let ?rest = "\<lambda>g. if om_created (md g) \<noteq> None \<and> has_finalizer d g crossplane_finalizer then
        bindA (sync_power_state d ?c x g) (\<lambda>(_, err). case err of None \<Rightarrow> ret () | Some e \<Rightarrow> fail e)
      else
      bindA (if snd (d_remove_finalizer d (om_finalizers (md g)) gcp_infra_finalizer)
             then bindA (wrapE ''failed to remove finalizer''
               (update_as ?dc gcp_instance_c (without_finalizer d g gcp_infra_finalizer))) (\<lambda>_. ret ())
             else ret ()) (\<lambda>_.
      if snd (d_remove_finalizer d (om_finalizers (md x)) gcp_infra_finalizer)
      then bindA (wrapE ''failed to remove finalizer''
        (update_as ?c instance_c (without_finalizer d x gcp_infra_finalizer))) (\<lambda>_. ret ())
      else ret ())"
  have split: "instance_finalize d cluster x = bindA ?pre ?rest"
    by (simp only: instance_finalize_def Let_def bindA_assoc bindA_ret)
  show ?thesis
    unfolding split
  proof (rule guarded_bind [OF upward_evidence, where G = "\<lambda>g e.
        \<not> (om_created (md g) \<noteq> None \<and> has_finalizer d g crossplane_finalizer) \<and>
        (\<exists>r. e = EUpdate (Upstream cluster) (to_obj instance_c (without_finalizer d x gcp_infra_finalizer)) r)"])
    show "emits trace (\<lambda>e. \<not> removal e) ?pre"
      by (intro emits_bind emits_wrapE emits_if emits_ret emits_get_or_zero)
        (auto simp: downstream_def intro!: emits_call)
    show "okhist trace (\<lambda>g es. \<forall>e. removal e \<longrightarrow>
        \<not> (om_created (md g) \<noteq> None \<and> has_finalizer d g crossplane_finalizer) \<and>
        (\<exists>r. e = EUpdate (Upstream cluster) (to_obj instance_c (without_finalizer d x gcp_infra_finalizer)) r) \<longrightarrow>
        evidence d e (set es)) ?pre"
      by (rule okhist_mono [OF okhist_teardown [OF library_lawsD(3) [OF assms]]]) auto
    show "emits trace (\<lambda>e. removal e \<longrightarrow>
        \<not> (om_created (md g) \<noteq> None \<and> has_finalizer d g crossplane_finalizer) \<and>
        (\<exists>r. e = EUpdate (Upstream cluster) (to_obj instance_c (without_finalizer d x gcp_infra_finalizer)) r))
        (?rest g)" for g
      by (intro emits_if emits_bind emits_wrapE emits_ret emits_fail emits_case_prod emits_case_option
          emits_update_as emits_mono [OF sync_quiet])
        (auto simp: downstream_def upstream_def intro!: emits_call)
  qed
qed

end
