(* ===== verification/Reference_Server.thy ===== *)
theory Reference_Server
  imports Api_Client
begin

text \<open>
  An in-memory API server and plain implementations of the library functions. Nothing in the model of
  the operator uses them: they show that the documented laws can hold together, and the witnesses of the
  properties run the reconcilers on them.
\<close>

section \<open>The server\<close>

type_synonym store = "(side \<times> obj) list"

fun same_side :: "side \<Rightarrow> side \<Rightarrow> bool" where
  "same_side Downstream Downstream = True"
| "same_side (Upstream c) (Upstream c') = (c = c')"
| "same_side _ _ = False"

definition same_object :: "side \<Rightarrow> kind \<Rightarrow> objkey \<Rightarrow> side \<times> obj \<Rightarrow> bool" where
  "same_object s k key e \<longleftrightarrow> same_side (fst e) s \<and> obj_kind (snd e) = k \<and> obj_key (snd e) = key"

definition not_found :: goerr where "not_found = ApiError ''NotFound''"

definition store_get :: "side \<Rightarrow> kind \<Rightarrow> objkey \<Rightarrow> store \<Rightarrow> (goerr + obj) \<times> store" where
  "store_get s k key st =
     (case find (same_object s k key) st of None \<Rightarrow> (Inl not_found, st) | Some e \<Rightarrow> (Inr (snd e), st))"

definition matches_labels :: "(string \<times> string) list \<Rightarrow> obj \<Rightarrow> bool" where
  "matches_labels ls x = list_all (\<lambda>(k, v). om_labels (md x) k = Some v) ls"

definition store_list :: "side \<Rightarrow> kind \<Rightarrow> list_opts \<Rightarrow> store \<Rightarrow> (goerr + obj list) \<times> store" where
  "store_list s k opts st = (Inr (map snd (filter (\<lambda>e. same_side (fst e) s \<and> obj_kind (snd e) = k \<and>
     matches_labels (lo_labels opts) (snd e)) st)), st)"

definition store_put :: "side \<Rightarrow> obj \<Rightarrow> store \<Rightarrow> store" where
  "store_put s x st = filter (\<lambda>e. \<not> same_object s (obj_kind x) (obj_key x) e) st @ [(s, x)]"

definition store_create :: "side \<Rightarrow> obj \<Rightarrow> store \<Rightarrow> (goerr + obj) \<times> store" where
  "store_create s x st =
     (if find (same_object s (obj_kind x) (obj_key x)) st \<noteq> None then (Inl (ApiError ''AlreadyExists''), st)
      else let y = x\<lparr>md := (md x)\<lparr>om_created := Some 1\<rparr>\<rparr> in (Inr y, store_put s y st))"

text \<open>An update that takes the last finalizer of a deleted object removes it.\<close>

definition store_update :: "side \<Rightarrow> obj \<Rightarrow> store \<Rightarrow> (goerr + obj) \<times> store" where
  "store_update s x st =
     (if find (same_object s (obj_kind x) (obj_key x)) st = None then (Inl not_found, st)
      else if om_deleted (md x) \<noteq> None \<and> om_finalizers (md x) = [] then
        (Inr x, filter (\<lambda>e. \<not> same_object s (obj_kind x) (obj_key x) e) st)
      else (Inr x, store_put s x st))"

definition store_delete :: "side \<Rightarrow> kind \<Rightarrow> objkey \<Rightarrow> store \<Rightarrow> (goerr + unit) \<times> store" where
  "store_delete s k key st = (case find (same_object s k key) st of
     None \<Rightarrow> (Inl not_found, st)
   | Some e \<Rightarrow> if om_finalizers (md (snd e)) = [] then (Inr (), filter (\<lambda>e. \<not> same_object s k key e) st)
       else (Inr (), store_put s ((snd e)\<lparr>md := (md (snd e))\<lparr>om_deleted := Some 1\<rparr>\<rparr>) st))"

definition ref_server :: "store server" where
  "ref_server = \<lparr>
     sv_cluster = (\<lambda>c st. (Inr (), st)), sv_now = (\<lambda>st. (''now'', st)),
     sv_get = store_get, sv_list = store_list, sv_create = store_create, sv_update = store_update,
     sv_status_update = store_update, sv_patch = (\<lambda>s _. store_update s), sv_delete = store_delete\<rparr>"

section \<open>The library\<close>

definition ref_consts :: api_consts where
  "ref_consts = \<lparr>
     k_workload_uid_label = ''workload-uid'', k_deployment_uid_label = ''deployment-uid'',
     k_ssh_keys_annotation = ''ssh-keys'', k_instance_programmed = ''Programmed'',
     k_instance_pending = ''PendingProgramming'', k_instance_programmed_reason = ''Programmed'',
     k_instance_running = ''Running'', k_running_stopped = ''Stopped'', k_running_stopping = ''Stopping'',
     k_running_starting = ''Starting'', k_running_running = ''Running'',
     k_context_programmed = ''Programmed'', k_context_not_programmed = ''NotProgrammed'',
     k_context_in_progress = ''ProgrammingInProgress'', k_subnet_programmed = ''Programmed'',
     k_subnet_allocated = ''Allocated'', k_subnet_not_programmed = ''NotProgrammed'',
     k_subnet_in_progress = ''ProgrammingInProgress'', k_subnet_programmed_reason = ''Programmed'',
     k_type_ready = ''Ready'', k_type_synced = ''Synced'', k_external_name = ''external-name'',
     k_external_create_succeeded = ''external-create-succeeded'', k_populate_script = ''script'',
     k_provider_single = ''single'', k_provider_milo = ''milo''\<rparr>"

definition ref_set_condition :: "condition list \<Rightarrow> condition \<Rightarrow> condition list \<times> bool" where
  "ref_set_condition cs c = (case find (\<lambda>x. c_type x = c_type c) cs of
     None \<Rightarrow> (cs @ [c], True)
   | Some c0 \<Rightarrow> (map (\<lambda>x. if c_type x = c_type c then c else x) cs, c0 \<noteq> c))"

definition ref_get_condition :: "condition list \<Rightarrow> string \<Rightarrow> condition" where
  "ref_get_condition cs t = (case find (\<lambda>x. c_type x = t) cs of
     None \<Rightarrow> \<lparr>c_type = t, c_status = CUnknown, c_reason = [], c_generation = 0, c_message = []\<rparr>
   | Some c \<Rightarrow> c)"

definition ref_condition_true :: "condition list \<Rightarrow> string \<Rightarrow> bool" where
  "ref_condition_true cs t =
     (case find (\<lambda>x. c_type x = t) cs of None \<Rightarrow> False | Some c \<Rightarrow> c_status c = CTrue)"

definition ref_set_owner :: "bool \<Rightarrow> obj \<Rightarrow> obj \<Rightarrow> goerr + obj" where
  "ref_set_owner ctl owner x = Inr (x\<lparr>md := (md x)\<lparr>om_owners := om_owners (md x) @
     [\<lparr>or_kind = [], or_name = om_name (md owner), or_uid = om_uid (md owner), or_controller = ctl\<rparr>]\<rparr>\<rparr>)"

definition ref_finalize :: "string \<Rightarrow> (obj \<Rightarrow> ('s, unit) act) \<Rightarrow> obj \<Rightarrow> ('s, obj \<times> bool) act" where
  "ref_finalize key f x =
     (if om_deleted (md x) = None then
        (if key \<in> set (om_finalizers (md x)) then ret (x, False)
         else ret (x\<lparr>md := (md x)\<lparr>om_finalizers := om_finalizers (md x) @ [key]\<rparr>\<rparr>, True))
      else if key \<in> set (om_finalizers (md x)) then
        bindA (tryA (f x)) (\<lambda>r. case r of
          Inl e \<Rightarrow> fail (Joined [e])
        | Inr _ \<Rightarrow> ret (x\<lparr>md := (md x)\<lparr>om_finalizers := filter (\<lambda>g. g \<noteq> key) (om_finalizers (md x))\<rparr>\<rparr>, True))
      else ret (x, False))"

text \<open>
  The two upserts are the documented procedure. Objects hold maps that are functions, which no program
  can compare, so this library takes every callback to have changed its object.
\<close>

definition ref_base :: "store deps" where
  "ref_base = \<lparr>
     d_server = ref_server, d_consts = ref_consts,
     d_is_not_found = (\<lambda>e. e = not_found), d_is_conflict = (\<lambda>e. e = ApiError ''Conflict''),
     d_deep_equal = (\<lambda>x y. False),
     d_contains_finalizer = (\<lambda>fs f. f \<in> set fs),
     d_add_finalizer = (\<lambda>fs f. if f \<in> set fs then fs else fs @ [f]),
     d_remove_finalizer = (\<lambda>fs f. (filter (\<lambda>g. g \<noteq> f) fs, f \<in> set fs)),
     d_set_condition = ref_set_condition, d_condition_true = ref_condition_true,
     d_get_condition = ref_get_condition, d_controller_of = find or_controller,
     d_set_owner_ref = ref_set_owner False, d_set_controller_ref = ref_set_owner True,
     d_gvk = (\<lambda>x. Inr (''group'', ''kind'')),
     d_set_meta_label = (\<lambda>m k v. m(k \<mapsto> v)), d_unsorted_list = id,
     d_encode_pod = (\<lambda>p. Inr ''pod''), d_yaml_marshal = (\<lambda>c. Inr ''yaml''),
     d_int_value = (\<lambda>v. case v of IntVal i \<Rightarrow> i | StrVal _ \<Rightarrow> 0), d_as_float64 = (\<lambda>_. 2 ^ 33),
     d_create_or_update = (\<lambda>c x f. fail not_found), d_create_or_patch = (\<lambda>c x f. fail not_found),
     d_finalize = ref_finalize\<rparr>"

definition ref_deps :: "store deps" where
  "ref_deps = ref_base\<lparr>
     d_create_or_update := upsert_doc ref_base (\<lambda>c _. cl_update c),
     d_create_or_patch := upsert_doc ref_base cl_patch\<rparr>"

section \<open>The laws hold\<close>

lemma ref_upsert: "upsert_doc ref_deps = upsert_doc ref_base"
proof -
  have "d_is_not_found ref_deps = d_is_not_found ref_base" "d_deep_equal ref_deps = d_deep_equal ref_base"
    by (simp_all add: ref_deps_def)
  then show ?thesis by (intro ext) (simp only: upsert_doc_def)
qed

lemma find_same_object:
  "find (same_object s k key) st = Some e \<Longrightarrow> obj_key (snd e) = key \<and> obj_kind (snd e) = k"
  by (auto simp: find_Some_iff same_object_def)

lemma ref_condition_law: "condition_law ref_deps"
proof -
  have find_map: "find (\<lambda>x. c_type x = t) (map (\<lambda>x. if c_type x = c_type c then c else x) cs) =
      (if t = c_type c then map_option (\<lambda>_. c) (find (\<lambda>x. c_type x = c_type c) cs) else find (\<lambda>x. c_type x = t) cs)"
    for t c cs
    by (induction cs) auto
  have find_app: "find (\<lambda>x. c_type x = t) (cs @ [c]) =
      (case find (\<lambda>x. c_type x = t) cs of None \<Rightarrow> if c_type c = t then Some c else None | Some y \<Rightarrow> Some y)" for t c cs
    by (induction cs) auto
  show ?thesis
    by (auto simp: condition_law_def ref_deps_def ref_base_def ref_set_condition_def ref_condition_true_def
        find_map find_app split: option.splits)
qed

theorem ref_laws: "library_laws ref_deps"
  unfolding library_laws_def
proof (intro conjI)
  show "create_or_update_law ref_deps"
    by (simp add: create_or_update_law_def ref_upsert) (simp add: ref_deps_def)
  show "create_or_patch_law ref_deps"
    by (simp add: create_or_patch_law_def ref_upsert) (simp add: ref_deps_def)
  show "not_found_law ref_deps"
    by (simp add: not_found_law_def ref_deps_def ref_base_def not_found_def)
  show "finalizer_law ref_deps"
    by (auto simp: finalizer_law_def ref_deps_def ref_base_def)
  show "condition_law ref_deps" by (rule ref_condition_law)
  show "finalize_law ref_deps"
    by (simp add: finalize_law_def ref_deps_def ref_base_def ref_finalize_def)
  show "owner_law ref_deps"
    by (auto simp: owner_law_def ref_deps_def ref_base_def ref_set_owner_def)
  show "server_law ref_deps"
    by (auto simp: server_law_def ref_deps_def ref_base_def ref_server_def store_get_def store_update_def
        dest: find_same_object split: option.splits if_splits)
qed

end
