(* ===== verification/Scenarios.thy ===== *)
theory Scenarios
  imports Cleanup Location_Util Reference_Server
begin

text \<open>
  Concrete configurations, objects and worlds on the in-memory server of \<open>Reference_Server\<close>, on which the
  witnesses of the properties run the reconcilers.
\<close>

definition ref_tls :: tls_config where
  "ref_tls = \<lparr>tls_secret_ref = None, tls_cert_dir = [], tls_cert_name = [], tls_key_name = []\<rparr>"

definition ref_cfg :: gcp_provider where
  "ref_cfg = \<lparr>gp_metrics = \<lparr>mc_secure = None, mc_bind = [], mc_tls = ref_tls\<rparr>,
     gp_webhook = \<lparr>wc_host = [], wc_port = 0, wc_tls = ref_tls, wc_client_ca = []\<rparr>,
     gp_discovery = \<lparr>dc_mode = ''single'', dc_internal = False, dc_discovery_kubeconfig = [], dc_context = [],
       dc_project_kubeconfig = [], dc_selector = None\<rparr>,
     gp_downstream = \<lparr>dm_kubeconfig = [], dm_single_name = ''gcp'', dm_discovery_prefix = [],
       dm_labels = [''managed-by'' \<mapsto> ''datum'']\<rparr>,
     gp_location_class = [], gp_images = None, gp_machine_types = None\<rparr>"

text \<open>An object that exists, one with the operator's finalizer, and one that is being deleted as well.\<close>

definition live :: "string \<Rightarrow> string \<Rightarrow> string \<Rightarrow> body \<Rightarrow> obj" where
  "live ns n uid b = \<lparr>md = zero_meta\<lparr>om_name := n, om_namespace := ns, om_uid := uid, om_created := Some 0\<rparr>, pl = b\<rparr>"

definition finalized :: "obj \<Rightarrow> obj" where
  "finalized x = x\<lparr>md := (md x)\<lparr>om_finalizers := [gcp_infra_finalizer]\<rparr>\<rparr>"

definition dying :: "obj \<Rightarrow> obj" where
  "dying x = x\<lparr>md := (md x)\<lparr>om_finalizers := [gcp_infra_finalizer], om_deleted := Some 0\<rparr>\<rparr>"

definition cond :: "string \<Rightarrow> cond_status \<Rightarrow> condition" where
  "cond t s = \<lparr>c_type = t, c_status = s, c_reason = [], c_generation = 0, c_message = []\<rparr>"

abbreviation tenant :: side where "tenant \<equiv> Upstream ''c''"

definition ref_rq :: request where "ref_rq = \<lparr>rq_cluster = ''c'', rq_key = key_of ''ns'' ''x''\<rparr>"

definition on :: "store \<Rightarrow> store world" where "on st = \<lparr>srv = st, trace = []\<rparr>"

definition ref_namespace :: "side \<times> obj" where "ref_namespace = (tenant, live [] ''ns'' ''n1'' BNamespace)"

definition ref_loc :: location where
  "ref_loc = \<lparr>loc_class = [], loc_gcp = Some \<lparr>gl_project = ''p'', gl_region = ''r'', gl_zone = ''z''\<rparr>\<rparr>"

definition ref_location :: "side \<times> obj" where
  "ref_location = (tenant, live ''ns'' ''loc'' ''l1'' (BLocation ref_loc))"

text \<open>A network, a context of it, and a subnet of the context with an allocated prefix.\<close>

definition as_kobj :: "obj \<Rightarrow> 'b \<Rightarrow> 'b kobj" where
  "as_kobj x b = \<lparr>md = md x, pl = b\<rparr>"

definition ref_net :: "network kobj" where
  "ref_net = as_kobj (live ''ns'' ''net'' ''n7'' BWorkload) \<lparr>n_mtu = 1460\<rparr>"

definition ref_context :: "network_context kobj" where
  "ref_context = as_kobj (live ''ns'' ''ctx'' ''c1'' BWorkload)
     \<lparr>nc_location = key_of ''ns'' ''loc'', nc_network = ''net'', nc_conditions = []\<rparr>"

definition ref_subnet :: "subnet kobj" where
  "ref_subnet = as_kobj (finalized (live ''ns'' ''x'' ''s1'' BWorkload))
     \<lparr>sn_location = key_of ''ns'' ''loc'', sn_context = ''ctx'', sn_conditions = [cond ''Allocated'' CTrue],
       sn_start = Some ''10.1.0.0'', sn_prefix = Some 24\<rparr>"

definition ref_workload :: "unit kobj" where
  "ref_workload = as_kobj (live ''ns'' ''x'' ''u1'' BWorkload) ()"

definition ref_inst :: inst where
  "ref_inst = \<lparr>i_location = Some (key_of ''ns'' ''loc''),
     i_controller = Some \<lparr>ic_gates = [], ic_template_hash = ''hash''\<rparr>,
     i_runtime = \<lparr>rt_sandbox = Some [], rt_vm = None, rt_instance_type = ''datumcloud/d1-standard-2''\<rparr>,
     i_volumes = [], i_nics = 0, i_conditions = [], i_observed_hash = None, i_nic_status = []\<rparr>"

text \<open>A deleted workload with the anchor made for it.\<close>

definition dying_workload :: "store world" where
  "dying_workload = on [ref_namespace, (tenant, dying (live ''ns'' ''x'' ''u1'' BWorkload)),
     (Downstream, live ''ns-n1'' ''anchor-u1'' ''a1'' (BConfigMap []))]"

end
