(* ===== verification/Instance_Cloud.thy ===== *)
theory Instance_Cloud
  imports Reconciler_Contract Scenarios
begin

text \<open>
  From \<open>internal/controller/instance_controller.go\<close>: how an instance's volumes become a cloud-init
  document and a boot disk. The sandbox runtime renders a static pod with host path volumes, the VM
  runtime links mount points to the places cloud-init writes to, \<open>buildConfigMaps\<close> writes the config
  map files, \<open>buildGCPInstanceVolumes\<close> picks the boot disk. A plain \<open>return ctrl.Result{}, nil\<close> in the
  middle of a loop is the value \<open>None\<close>.
\<close>

section \<open>The volume map\<close>

definition no_source :: volume_source where
  "no_source = \<lparr>vs_disk = None, vs_configmap = None, vs_secret = None\<rparr>"

definition volume_map :: "inst_volume list \<Rightarrow> string \<Rightarrow> volume_source" where
  "volume_map vs n =
     (case fold (\<lambda>v m. m(v_name v \<mapsto> v_source v)) vs Map.empty n of None \<Rightarrow> no_source | Some s \<Rightarrow> s)"

section \<open>The sandbox runtime\<close>

text \<open>\<open>volume.Disk.Template.Spec.Populator\<close>, with its nil dereference.\<close>

definition disk_populator_of :: "disk_source \<Rightarrow> ('s, disk_populator option) act" where
  "disk_populator_of dk = (case ds_template dk of
     None \<Rightarrow> panic ''nil pointer dereference'' | Some t \<Rightarrow> ret (dt_populator t))"

definition has_filesystem :: "disk_populator option \<Rightarrow> bool" where
  "has_filesystem p = (case p of None \<Rightarrow> False | Some q \<Rightarrow> pop_filesystem q \<noteq> None)"

definition mount_disk :: "string \<Rightarrow> string \<Rightarrow> volume_source \<Rightarrow> volume_mount list \<Rightarrow> ('s, volume_mount list) act" where
  "mount_disk n path v ms = (case vs_disk v of
     None \<Rightarrow> ret ms
   | Some dk \<Rightarrow> bindA (disk_populator_of dk) (\<lambda>p.
       if \<not> has_filesystem p then fail (ErrorText ''cannot mount volume with unknown filesystem'')
       else ret (ms @ [\<lparr>vm_name = ''disk-'' @ n, vm_path = path\<rparr>])))"

definition mount_ref :: "string \<Rightarrow> string \<Rightarrow> data_ref option \<Rightarrow> volume_mount list \<Rightarrow> volume_mount list option" where
  "mount_ref pre path ref ms = (case ref of
     None \<Rightarrow> Some ms
   | Some r \<Rightarrow> if dr_items r \<noteq> [] then None
       else Some (ms @ [\<lparr>vm_name = pre @ dr_name r, vm_path = path\<rparr>]))"

definition sandbox_mount ::
  "(string \<Rightarrow> volume_source) \<Rightarrow> vol_attachment \<Rightarrow> volume_mount list \<Rightarrow> ('s, volume_mount list option) act" where
  "sandbox_mount vols a ms = (case va_mount a of
     None \<Rightarrow> ret (Some ms)
   | Some path \<Rightarrow> (let v = vols (va_name a) in
       bindA (mount_disk (va_name a) path v ms) (\<lambda>ms1.
       case mount_ref ''configmap-'' path (vs_configmap v) ms1 of
         None \<Rightarrow> ret None
       | Some ms2 \<Rightarrow> ret (mount_ref ''secret-'' path (vs_secret v) ms2))))"

definition sandbox_container ::
  "(string \<Rightarrow> volume_source) \<Rightarrow> container \<Rightarrow> pod_container list \<Rightarrow> ('s, pod_container list option) act" where
  "sandbox_container vols c cs =
     bindA (stepA (sandbox_mount vols) (ct_attachments c) []) (\<lambda>r. case r of
       None \<Rightarrow> ret None
     | Some ms \<Rightarrow> ret (Some (cs @
         [\<lparr>pc_name = ct_name c, pc_image = ct_image c, pc_env = ct_env c, pc_mounts = ms\<rparr>])))"

text \<open>The host path volumes of one instance volume; a disk without a filesystem ends the iteration.\<close>

definition pod_volume_step :: "inst_volume \<Rightarrow> pod_volume list \<Rightarrow> ('s, pod_volume list) act" where
  "pod_volume_step v acc =
     (let n = v_name v; src = v_source v;
          refs = (case vs_configmap src of None \<Rightarrow> [] | Some r \<Rightarrow>
              [\<lparr>pv_name = ''configmap-'' @ dr_name r, pv_host_path = ''/etc/configmaps/'' @ dr_name r\<rparr>]) @
            (case vs_secret src of None \<Rightarrow> [] | Some r \<Rightarrow>
              [\<lparr>pv_name = ''secret-'' @ dr_name r, pv_host_path = ''/etc/secrets/content/'' @ dr_name r\<rparr>])
      in case vs_disk src of
        None \<Rightarrow> ret (acc @ refs)
      | Some dk \<Rightarrow> bindA (disk_populator_of dk) (\<lambda>p.
          if \<not> has_filesystem p then ret acc
          else ret (acc @ [\<lparr>pv_name = ''disk-'' @ n, pv_host_path = ''/mnt/disk-'' @ n\<rparr>] @ refs)))"

definition sandbox_pod :: "inst \<Rightarrow> container list \<Rightarrow> ('s, pod option) act" where
  "sandbox_pod i cs =
     bindA (stepA (sandbox_container (volume_map (i_volumes i))) cs []) (\<lambda>r. case r of
       None \<Rightarrow> ret None
     | Some pcs \<Rightarrow> bindA (forA pod_volume_step (i_volumes i) []) (\<lambda>pvs.
         ret (Some \<lparr>pod_name = ''instance'', pod_namespace = ''default'', pod_host_network = True,
           pod_containers = pcs, pod_volumes = pvs\<rparr>)))"

definition sandbox_cloud_config :: "string \<Rightarrow> cloud_config" where
  "sandbox_cloud_config manifest = add_file
     (b64_file ''/etc/kubernetes/manifests/instance.yaml'' ''0644'' manifest)
     (zero_cloud_config\<lparr>cc_run_cmd := [''iptables -I INPUT 1 -j ACCEPT'', ''systemctl enable kubelet --now'']\<rparr>)"

definition sandbox_boot_volume :: inst_volume where
  "sandbox_boot_volume = \<lparr>v_name = ''datum-boot'', v_source = \<lparr>
     vs_disk = Some \<lparr>ds_device = None, ds_template = Some \<lparr>dt_type = ''pd-standard'',
       dt_populator = Some \<lparr>pop_image = Some ''datumcloud/cos-stable-117-18613-0-79'', pop_filesystem = None\<rparr>,
       dt_requests = None\<rparr>\<rparr>,
     vs_configmap = None, vs_secret = None\<rparr>\<rparr>"

section \<open>The VM runtime\<close>

definition set_insert :: "'a \<Rightarrow> 'a list \<Rightarrow> 'a list" where
  "set_insert x xs = (if x \<in> set xs then xs else xs @ [x])"

text \<open>The commands for one reference: the parent directory, and the link to the files.\<close>

definition link_ref ::
  "string \<Rightarrow> string \<Rightarrow> data_ref option \<Rightarrow> string list \<times> string list \<Rightarrow> (string list \<times> string list) option" where
  "link_ref base path ref acc = (case ref of
     None \<Rightarrow> Some acc
   | Some r \<Rightarrow> if dr_items r \<noteq> [] then None
       else Some (set_insert (''mkdir -p '' @ path_dir path) (fst acc),
         snd acc @ [''ln -s '' @ base @ dr_name r @ '' '' @ path]))"

definition vm_attachment ::
  "(string \<Rightarrow> volume_source) \<Rightarrow> vol_attachment \<Rightarrow> string list \<times> string list \<Rightarrow> (string list \<times> string list) option" where
  "vm_attachment vols a acc = (case va_mount a of
     None \<Rightarrow> Some acc
   | Some path \<Rightarrow> (let v = vols (va_name a) in
       case link_ref ''/etc/configmaps/'' path (vs_configmap v) acc of
         None \<Rightarrow> None
       | Some acc1 \<Rightarrow> link_ref ''/etc/secrets/content/'' path (vs_secret v) acc1))"

fun vm_attachments ::
  "(string \<Rightarrow> volume_source) \<Rightarrow> vol_attachment list \<Rightarrow> string list \<times> string list \<Rightarrow> (string list \<times> string list) option" where
  "vm_attachments vols [] acc = Some acc"
| "vm_attachments vols (a # as) acc = (case vm_attachment vols a acc of
     None \<Rightarrow> None | Some acc' \<Rightarrow> vm_attachments vols as acc')"

definition vm_cloud_config :: "'w deps \<Rightarrow> inst \<Rightarrow> vol_attachment list \<Rightarrow> cloud_config option" where
  "vm_cloud_config d i as = (case vm_attachments (volume_map (i_volumes i)) as ([], []) of
     None \<Rightarrow> None
   | Some (dirs, cmds) \<Rightarrow> Some (zero_cloud_config\<lparr>cc_run_cmd := d_unsorted_list d dirs @ cmds\<rparr>))"

definition vm_metadata :: "'w deps \<Rightarrow> inst kobj \<Rightarrow> (string \<rightharpoonup> string)" where
  "vm_metadata d x = [''ssh-keys'' \<mapsto> map_get (om_annotations (md x)) (k_ssh_keys_annotation (d_consts d))]"

section \<open>Config maps and the boot disk\<close>

definition configmap_file :: "string \<Rightarrow> string \<times> string \<Rightarrow> write_file" where
  "configmap_file cm kv = b64_file (''/etc/configmaps/'' @ cm @ ''/'' @ fst kv) ''0644'' (snd kv)"

definition configmap_keys :: "inst kobj \<Rightarrow> objkey list" where
  "configmap_keys x = concat (map (\<lambda>v. case vs_configmap (v_source v) of
     None \<Rightarrow> [] | Some r \<Rightarrow> [key_of (om_namespace (md x)) (dr_name r)]) (i_volumes (pl x)))"

definition build_config_maps :: "'s client \<Rightarrow> inst kobj \<Rightarrow> cloud_config \<Rightarrow> ('s, cloud_config) act" where
  "build_config_maps c x cc0 =
     forA (\<lambda>key cc. bindA (wrapE ''failed to get configmap'' (get_as c configmap_c key)) (\<lambda>cm.
       ret (fold (\<lambda>kv. add_file (configmap_file (om_name (md cm)) kv)) (pl cm) cc)))
     (configmap_keys x) cc0"

definition boot_disk_step ::
  "'w deps \<Rightarrow> gcp_provider \<Rightarrow> nat \<times> inst_volume \<Rightarrow> gcp_instance \<Rightarrow> ('s, gcp_instance) act" where
  "boot_disk_step d cfg iv g = (let (i, v) = iv in
     case vs_disk (v_source v) of
       None \<Rightarrow> ret g
     | Some dk \<Rightarrow> (case ds_template dk of
         None \<Rightarrow> ret g
       | Some t \<Rightarrow> (case dt_populator t of
           None \<Rightarrow> ret g
         | Some p \<Rightarrow> (case pop_image p of
             None \<Rightarrow> ret g
           | Some img \<Rightarrow> (case nil_map (gp_images cfg) img of
               None \<Rightarrow> fail (ErrorText (''unable to map datum image name: '' @ img))
             | Some src \<Rightarrow>
                 (let disk = \<lparr>bd_auto_delete = True,
                        bd_device = (case ds_device dk of None \<Rightarrow> ''volume-'' @ dec_nat i | Some dev \<Rightarrow> dev),
                        bd_image = src, bd_type = dt_type t,
                        bd_labels = [''volume_name'' \<mapsto> v_name v], bd_size = None\<rparr> in
                  case dt_requests t of
                    None \<Rightarrow> ret (g\<lparr>gi_boot_disk := Some disk\<rparr>)
                  | Some reqs \<Rightarrow> (case reqs ''storage'' of
                      None \<Rightarrow> fail (ErrorText (''unable to locate storage resource request for volume: '' @ v_name v))
                    | Some q \<Rightarrow> ret (g\<lparr>gi_boot_disk :=
                        Some (disk\<lparr>bd_size := Some (d_as_float64 d q / 2 ^ 30)\<rparr>)\<rparr>))))))))"

definition build_volumes :: "'w deps \<Rightarrow> gcp_provider \<Rightarrow> inst \<Rightarrow> gcp_instance \<Rightarrow> ('s, gcp_instance) act" where
  "build_volumes d cfg i = forA (boot_disk_step d cfg) (enumerate 0 (i_volumes i))"

section \<open>Lemmas on the volume map\<close>

lemma volume_map_cases:
  "volume_map vs n = no_source \<or> (\<exists>v \<in> set vs. v_name v = n \<and> v_source v = volume_map vs n)"
proof -
  have "fold (\<lambda>v m. m(v_name v \<mapsto> v_source v)) vs m0 n = Some s \<Longrightarrow>
      m0 n = Some s \<or> (\<exists>v \<in> set vs. v_name v = n \<and> v_source v = s)" for m0 s
    by (induction vs arbitrary: m0) (fastforce split: if_splits)+
  from this [of Map.empty] show ?thesis
    by (auto simp: volume_map_def split: option.split)
qed

section \<open>Mounts refer to declared volumes\<close>

text \<open>The names of the pod volumes an instance volume gives.\<close>

definition ref_names :: "volume_source \<Rightarrow> string list" where
  "ref_names src = (case vs_configmap src of None \<Rightarrow> [] | Some r \<Rightarrow> [''configmap-'' @ dr_name r]) @
     (case vs_secret src of None \<Rightarrow> [] | Some r \<Rightarrow> [''secret-'' @ dr_name r])"

definition volume_names :: "inst_volume \<Rightarrow> string list" where
  "volume_names v = (case vs_disk (v_source v) of
     None \<Rightarrow> ref_names (v_source v)
   | Some dk \<Rightarrow> (case ds_template dk of None \<Rightarrow> []
       | Some t \<Rightarrow> if has_filesystem (dt_populator t) then (''disk-'' @ v_name v) # ref_names (v_source v) else []))"

lemma pod_volume_step_names:
  "pod_volume_step v acc s = (Ok acc', s') \<Longrightarrow> map pv_name acc' = map pv_name acc @ volume_names v"
  by (auto simp: pod_volume_step_def volume_names_def ref_names_def disk_populator_of_def Let_def
      elim!: bindA_OkE split: option.splits if_splits)

lemma pod_volumes_names:
  "forA pod_volume_step vs acc s = (Ok pvs, s') \<Longrightarrow>
     map pv_name pvs = map pv_name acc @ concat (map volume_names vs)"
  by (induction vs arbitrary: acc s) (auto elim!: bindA_OkE dest!: pod_volume_step_names)

definition mountable :: "inst_volume list \<Rightarrow> volume_mount list \<Rightarrow> bool" where
  "mountable vs ms \<longleftrightarrow> (\<forall>m \<in> set ms. \<exists>v \<in> set vs. vm_name m \<in> set (volume_names v))"

lemma sandbox_mount_mountable:
  assumes run: "sandbox_mount (volume_map vs) a ms s = (Ok (Some ms'), s')" and ms: "mountable vs ms"
  shows "mountable vs ms'"
proof (cases "va_mount a")
  case None
  with run ms show ?thesis by (simp add: sandbox_mount_def)
next
  case (Some path)
  consider (none) "volume_map vs (va_name a) = no_source"
    | (vol) v where "v \<in> set vs" "v_name v = va_name a" "v_source v = volume_map vs (va_name a)"
    using volume_map_cases [of vs "va_name a"] by blast
  then show ?thesis
  proof cases
    case none
    with run ms Some show ?thesis
      by (simp add: sandbox_mount_def mount_disk_def mount_ref_def no_source_def Let_def)
  next
    case vol
    from run Some vol have "\<forall>m \<in> set ms'. m \<in> set ms \<or> vm_name m \<in> set (volume_names v)"
      by (auto simp: sandbox_mount_def mount_disk_def mount_ref_def disk_populator_of_def volume_names_def
          ref_names_def Let_def elim!: bindA_OkE split: option.splits if_splits)
    with ms vol(1) show ?thesis by (auto simp: mountable_def)
  qed
qed

lemma sandbox_containers_mountable:
  assumes "stepA (sandbox_container (volume_map vs)) cs [] s = (Ok (Some pcs), s')"
  shows "\<forall>c \<in> set pcs. mountable vs (pc_mounts c)"
proof (rule stepA_invariant [OF assms])
  fix c acc s acc' s'
  assume acc: "\<forall>c \<in> set acc. mountable vs (pc_mounts c)"
    and "sandbox_container (volume_map vs) c acc s = (Ok (Some acc'), s')"
  then obtain ms s1 where ms: "stepA (sandbox_mount (volume_map vs)) (ct_attachments c) [] s = (Ok (Some ms), s1)"
    and acc': "acc' = acc @ [\<lparr>pc_name = ct_name c, pc_image = ct_image c, pc_env = ct_env c, pc_mounts = ms\<rparr>]"
    by (auto simp: sandbox_container_def elim!: bindA_OkE split: option.splits)
  have "mountable vs ms"
    by (rule stepA_invariant [OF ms, where I = "mountable vs"]) (simp add: mountable_def, rule sandbox_mount_mountable)
  with acc acc' show "\<forall>c \<in> set acc'. mountable vs (pc_mounts c)" by auto
qed simp

text \<open>
  C28: In the static pod of a sandbox instance, every volume mount of every container names a volume the
  pod declares.
\<close>

theorem sandbox_mounts_declared:
  assumes "sandbox_pod i cs s = (Ok (Some p), s')"
  shows "\<forall>c \<in> set (pod_containers p). \<forall>m \<in> set (pc_mounts c). vm_name m \<in> pv_name ` set (pod_volumes p)"
proof -
  from assms obtain pcs pvs s1 s2 where "stepA (sandbox_container (volume_map (i_volumes i))) cs [] s = (Ok (Some pcs), s1)"
    and "forA pod_volume_step (i_volumes i) [] s1 = (Ok pvs, s2)"
    and p: "pod_containers p = pcs" "pod_volumes p = pvs"
    by (auto simp: sandbox_pod_def elim!: bindA_OkE split: option.splits)
  have mounts: "\<forall>c \<in> set pcs. mountable (i_volumes i) (pc_mounts c)"
    by (rule sandbox_containers_mountable) fact
  have names: "map pv_name pvs = concat (map volume_names (i_volumes i))"
    using pod_volumes_names [OF \<open>forA pod_volume_step (i_volumes i) [] s1 = (Ok pvs, s2)\<close>] by simp
  have "pv_name ` set pvs = set (concat (map volume_names (i_volumes i)))"
    by (metis names set_map)
  with mounts show ?thesis by (fastforce simp: p mountable_def)
qed

text \<open>A sandbox with a disk, a config map and a secret mounted.\<close>

definition ref_volumes :: "inst_volume list" where
  "ref_volumes = [
     \<lparr>v_name = ''data'', v_source = no_source\<lparr>vs_disk := Some \<lparr>ds_device = None, ds_template =
        Some \<lparr>dt_type = ''pd-ssd'', dt_populator = Some \<lparr>pop_image = None, pop_filesystem = Some ''ext4''\<rparr>,
          dt_requests = None\<rparr>\<rparr>\<rparr>\<rparr>,
     \<lparr>v_name = ''conf'', v_source = no_source\<lparr>vs_configmap := Some \<lparr>dr_name = ''cm'', dr_items = []\<rparr>\<rparr>\<rparr>,
     \<lparr>v_name = ''cred'', v_source = no_source\<lparr>vs_secret := Some \<lparr>dr_name = ''sec'', dr_items = []\<rparr>\<rparr>\<rparr>]"

definition ref_attachments :: "vol_attachment list" where
  "ref_attachments = [\<lparr>va_name = ''data'', va_mount = Some ''/data''\<rparr>,
     \<lparr>va_name = ''conf'', va_mount = Some ''/etc/app/conf''\<rparr>, \<lparr>va_name = ''cred'', va_mount = Some ''/run/cred''\<rparr>]"

definition ref_containers :: "container list" where
  "ref_containers = [\<lparr>ct_name = ''app'', ct_image = ''img'', ct_env = [], ct_attachments = ref_attachments\<rparr>]"

definition ref_pod :: "pod res" where
  "ref_pod = (case fst (sandbox_pod (ref_inst\<lparr>i_volumes := ref_volumes\<rparr>) ref_containers ()) of
     Ok (Some p) \<Rightarrow> Ok p | _ \<Rightarrow> Panic [])"

lemma ref_pod_run:
  "case ref_pod of Ok p \<Rightarrow> concat (map (\<lambda>c. map vm_name (pc_mounts c)) (pod_containers p)) =
      [''disk-data'', ''configmap-cm'', ''secret-sec''] | _ \<Rightarrow> False"
  by code_simp

theorem sandbox_mounts_declared_witness:
  "\<exists>p. ref_pod = Ok p \<and> (\<forall>c \<in> set (pod_containers p). \<forall>m \<in> set (pc_mounts c).
     vm_name m \<in> pv_name ` set (pod_volumes p)) \<and> (\<exists>c \<in> set (pod_containers p). pc_mounts c \<noteq> [])"
proof -
  obtain p where p: "ref_pod = Ok p"
    and names: "concat (map (\<lambda>c. map vm_name (pc_mounts c)) (pod_containers p)) =
      [''disk-data'', ''configmap-cm'', ''secret-sec'']"
    by (rule res_okE [OF ref_pod_run])
  have "concat (map (\<lambda>c. map vm_name (pc_mounts c)) (pod_containers p)) = []"
    if "\<not> (\<exists>c \<in> set (pod_containers p). pc_mounts c \<noteq> [])" using that by simp
  with names have mounts: "\<exists>c \<in> set (pod_containers p). pc_mounts c \<noteq> []" by (metis list.distinct(1))
  from p have "sandbox_pod (ref_inst\<lparr>i_volumes := ref_volumes\<rparr>) ref_containers () = (Ok (Some p), ())"
    by (auto simp: ref_pod_def prod_eq_iff split: res.splits option.splits)
  from sandbox_mounts_declared [OF this] p mounts show ?thesis by blast
qed

section \<open>Links come after their directories\<close>

lemma set_set_insert [simp]: "set (set_insert x xs) = insert x (set xs)"
  by (auto simp: set_insert_def)

text \<open>The links made so far, with the directories they need.\<close>

definition linked :: "string list \<times> string list \<Rightarrow> vol_attachment \<Rightarrow> string \<Rightarrow> bool" where
  "linked acc a target \<longleftrightarrow> (\<forall>path. va_mount a = Some path \<longrightarrow>
     ''mkdir -p '' @ path_dir path \<in> set (fst acc) \<and> ''ln -s '' @ target @ '' '' @ path \<in> set (snd acc))"

definition targets :: "volume_source \<Rightarrow> string list" where
  "targets v = (case vs_configmap v of None \<Rightarrow> [] | Some r \<Rightarrow> [''/etc/configmaps/'' @ dr_name r]) @
     (case vs_secret v of None \<Rightarrow> [] | Some r \<Rightarrow> [''/etc/secrets/content/'' @ dr_name r])"

lemma vm_attachment_step:
  assumes "vm_attachment vols a acc = Some acc'"
  shows "set (fst acc) \<subseteq> set (fst acc')" "set (snd acc) \<subseteq> set (snd acc')"
    "\<forall>t \<in> set (targets (vols (va_name a))). linked acc' a t"
  using assms
  by (auto simp: vm_attachment_def link_ref_def linked_def targets_def Let_def split: option.splits if_splits)

lemma vm_attachments_linked:
  assumes "vm_attachments vols as acc = Some acc'"
  shows "set (fst acc) \<subseteq> set (fst acc') \<and> set (snd acc) \<subseteq> set (snd acc') \<and>
     (\<forall>a \<in> set as. \<forall>t \<in> set (targets (vols (va_name a))). linked acc' a t)"
  using assms
proof (induction as arbitrary: acc)
  case (Cons a as)
  then obtain acc1 where one: "vm_attachment vols a acc = Some acc1" and rest: "vm_attachments vols as acc1 = Some acc'"
    by (auto split: option.splits)
  from Cons.IH [OF rest] have ih: "set (fst acc1) \<subseteq> set (fst acc')" "set (snd acc1) \<subseteq> set (snd acc')"
    "\<forall>a \<in> set as. \<forall>t \<in> set (targets (vols (va_name a))). linked acc' a t" by simp_all
  have "linked acc' a t" if "t \<in> set (targets (vols (va_name a)))" for t
    using vm_attachment_step(3) [OF one] that ih(1,2) by (fastforce simp: linked_def)
  with ih vm_attachment_step(1,2) [OF one] show ?case by auto
qed auto

text \<open>
  C29: The boot commands of a VM instance make the parent directory of every mounted config map and
  secret before the link to it.
\<close>

theorem vm_links_after_directories:
  assumes "\<forall>xs. set (d_unsorted_list d xs) = set xs"
    and "vm_cloud_config d i as = Some cc" and "a \<in> set as" and "va_mount a = Some path"
    and "t \<in> set (targets (volume_map (i_volumes i) (va_name a)))"
  shows "\<exists>pre post. cc_run_cmd cc = pre @ post \<and> ''mkdir -p '' @ path_dir path \<in> set pre \<and>
    ''ln -s '' @ t @ '' '' @ path \<in> set post"
proof -
  from assms(2) obtain dirs cmds where run: "vm_attachments (volume_map (i_volumes i)) as ([], []) = Some (dirs, cmds)"
    and cc: "cc_run_cmd cc = d_unsorted_list d dirs @ cmds"
    by (auto simp: vm_cloud_config_def split: option.splits)
  from vm_attachments_linked [OF run] assms(3-5) have "linked (dirs, cmds) a t" by blast
  with assms(1,4) cc show ?thesis by (auto simp: linked_def)
qed

lemma ref_path_dir: "path_dir ''/etc/app/conf'' = ''/etc/app''"
  by code_simp

definition ref_vm_config :: cloud_config where
  "ref_vm_config = the (vm_cloud_config ref_deps (ref_inst\<lparr>i_volumes := ref_volumes\<rparr>) ref_attachments)"

theorem vm_links_after_directories_witness:
  "\<exists>pre post. cc_run_cmd ref_vm_config = pre @ post \<and> ''mkdir -p /etc/app'' \<in> set pre \<and>
     ''ln -s /etc/configmaps/cm /etc/app/conf'' \<in> set post"
proof -
  let ?i = "ref_inst\<lparr>i_volumes := ref_volumes\<rparr>"
  let ?a = "\<lparr>va_name = ''conf'', va_mount = Some ''/etc/app/conf''\<rparr>"
  have "\<forall>xs. set (d_unsorted_list ref_deps xs) = set xs"
    by (simp add: ref_deps_def ref_base_def)
  moreover have "vm_cloud_config ref_deps ?i ref_attachments = Some ref_vm_config"
  proof -
    have "case vm_cloud_config ref_deps ?i ref_attachments of None \<Rightarrow> False | Some c \<Rightarrow> True" by code_simp
    then show ?thesis by (auto simp: ref_vm_config_def split: option.splits)
  qed
  moreover have "?a \<in> set ref_attachments" by (simp add: ref_attachments_def)
  moreover have "''/etc/configmaps/cm'' \<in> set (targets (volume_map (i_volumes ?i) (va_name ?a)))" by code_simp
  ultimately show ?thesis
    using vm_links_after_directories [of ref_deps ?i ref_attachments ref_vm_config ?a "''/etc/app/conf''" "''/etc/configmaps/cm''"]
      ref_path_dir by simp
qed

section \<open>Config map files\<close>

lemma get_as_run:
  assumes "codec_ok k" and "get_as (api_client sv s) k key w = (Ok x, w')"
  shows "trace w' = trace w @ [EGet s (cd_kind k) key (Inr (to_obj k x))]"
proof -
  from assms(2) obtain y w1 where "call (sv_get sv s (cd_kind k) key) (EGet s (cd_kind k) key) w = (Ok y, w1)"
    and "of_obj k y = Inr x" "w' = w1"
    by (auto simp: get_as_def elim!: bindA_OkE)
  with of_obj_InrD [OF assms(1)] show ?thesis
    by (auto simp: call_def split: prod.splits)
qed

lemma add_files_fold:
  "cc_write_files (fold (\<lambda>kv. add_file (configmap_file n kv)) kvs cc) = cc_write_files cc @ map (configmap_file n) kvs"
  by (induction kvs arbitrary: cc) simp_all

text \<open>The files of a config map that a document holds, with contents that decode to its data.\<close>

definition holds_files :: "cloud_config \<Rightarrow> (string \<times> string) list kobj \<Rightarrow> bool" where
  "holds_files cc cm \<longleftrightarrow> (\<forall>(k, v) \<in> set (pl cm). \<exists>f \<in> set (cc_write_files cc).
     wf_path f = ''/etc/configmaps/'' @ om_name (md cm) @ ''/'' @ k \<and> base64_decode (wf_content f) = Some v)"

lemma configmaps_held:
  assumes "forA (\<lambda>key cc. bindA (wrapE ''failed to get configmap'' (get_as (upstream d c) configmap_c key)) (\<lambda>cm.
       ret (fold (\<lambda>kv. add_file (configmap_file (om_name (md cm)) kv)) (pl cm) cc))) keys cc w = (Ok cc', w')"
  shows "\<exists>es. trace w' = trace w @ es \<and> set (cc_write_files cc) \<subseteq> set (cc_write_files cc') \<and>
    (\<forall>key \<in> set keys. \<exists>cm. EGet (Upstream c) KConfigMap key (Inr (to_obj configmap_c cm)) \<in> set es \<and>
       holds_files cc' cm)"
  using assms
proof (induction keys arbitrary: cc w)
  case (Cons key keys)
  then obtain cm w1 where get: "get_as (upstream d c) configmap_c key w = (Ok cm, w1)"
    and rest: "forA (\<lambda>key cc. bindA (wrapE ''failed to get configmap'' (get_as (upstream d c) configmap_c key)) (\<lambda>cm.
       ret (fold (\<lambda>kv. add_file (configmap_file (om_name (md cm)) kv)) (pl cm) cc))) keys
       (fold (\<lambda>kv. add_file (configmap_file (om_name (md cm)) kv)) (pl cm) cc) w1 = (Ok cc', w')"
    by (auto elim!: bindA_OkE)
  from Cons.IH [OF rest] obtain es where es: "trace w' = trace w1 @ es"
    "set (cc_write_files (fold (\<lambda>kv. add_file (configmap_file (om_name (md cm)) kv)) (pl cm) cc)) \<subseteq> set (cc_write_files cc')"
    "\<forall>key \<in> set keys. \<exists>cm. EGet (Upstream c) KConfigMap key (Inr (to_obj configmap_c cm)) \<in> set es \<and> holds_files cc' cm"
    by blast
  have "trace w1 = trace w @ [EGet (Upstream c) KConfigMap key (Inr (to_obj configmap_c cm))]"
    using get_as_run [OF _ get [unfolded upstream_def]] by simp
  moreover have "holds_files cc' cm"
    unfolding holds_files_def
  proof (clarify)
    fix k v
    assume "(k, v) \<in> set (pl cm)"
    then have "configmap_file (om_name (md cm)) (k, v) \<in> set (cc_write_files cc')"
      using es(2) by (auto simp: add_files_fold)
    then show "\<exists>f \<in> set (cc_write_files cc').
        wf_path f = ''/etc/configmaps/'' @ om_name (md cm) @ ''/'' @ k \<and> base64_decode (wf_content f) = Some v"
      by (rule bexI [rotated]) (simp add: configmap_file_def b64_file_content, simp add: b64_file_def)
  qed
  ultimately show ?case using es by (auto simp: add_files_fold)
qed auto

text \<open>
  C30: When \<open>buildConfigMaps\<close> returns without an error, it has read every config map the instance's
  volumes name from the instance's cluster, and for every key of each of them the cloud-init document
  writes a file under \<open>/etc/configmaps\<close> whose content decodes to the value.
\<close>

theorem config_map_files:
  assumes "build_config_maps (upstream d c) x cc w = (Ok cc', w')"
  shows "\<exists>es. trace w' = trace w @ es \<and>
    (\<forall>v \<in> set (i_volumes (pl x)). \<forall>r. vs_configmap (v_source v) = Some r \<longrightarrow>
      (\<exists>cm. EGet (Upstream c) KConfigMap (key_of (om_namespace (md x)) (dr_name r)) (Inr (to_obj configmap_c cm)) \<in> set es \<and>
        (\<forall>(k, v) \<in> set (pl cm). \<exists>f \<in> set (cc_write_files cc').
           wf_path f = ''/etc/configmaps/'' @ om_name (md cm) @ ''/'' @ k \<and> base64_decode (wf_content f) = Some v)))"
proof -
  from configmaps_held [OF assms [unfolded build_config_maps_def]]
  obtain es where es: "trace w' = trace w @ es"
    "\<And>key. key \<in> set (configmap_keys x) \<Longrightarrow>
      \<exists>cm. EGet (Upstream c) KConfigMap key (Inr (to_obj configmap_c cm)) \<in> set es \<and> holds_files cc' cm"
    by blast
  have "key_of (om_namespace (md x)) (dr_name r) \<in> set (configmap_keys x)"
    if "v \<in> set (i_volumes (pl x))" "vs_configmap (v_source v) = Some r" for v r
    using that by (force simp: configmap_keys_def)
  with es show ?thesis unfolding holds_files_def by blast
qed

text \<open>A world with the config map the instance mounts.\<close>

definition ref_configmap :: obj where
  "ref_configmap = live ''ns'' ''cm'' ''m1'' (BConfigMap [(''a.conf'', ''x=1'')])"

definition ref_instance :: "inst kobj" where
  "ref_instance = \<lparr>md = md (live ''ns'' ''x'' ''u1'' BWorkload), pl = ref_inst\<lparr>i_volumes := ref_volumes\<rparr>\<rparr>"

definition ref_cm_run :: "cloud_config res \<times> store world" where
  "ref_cm_run = build_config_maps (upstream ref_deps ''c'') ref_instance zero_cloud_config
     (on [(tenant, ref_configmap)])"

theorem config_map_files_witness:
  "\<exists>cc'. fst ref_cm_run = Ok cc' \<and>
    (\<exists>cm. EGet tenant KConfigMap (key_of ''ns'' ''cm'') (Inr (to_obj configmap_c cm)) \<in> set (trace (snd ref_cm_run)) \<and>
      (\<forall>(k, v) \<in> set (pl cm). \<exists>f \<in> set (cc_write_files cc').
         wf_path f = ''/etc/configmaps/'' @ om_name (md cm) @ ''/'' @ k \<and> base64_decode (wf_content f) = Some v))"
proof -
  have "case fst ref_cm_run of Ok c \<Rightarrow> True | _ \<Rightarrow> False" by code_simp
  then obtain cc' where cc': "fst ref_cm_run = Ok cc'" by (auto split: res.splits)
  then have run: "build_config_maps (upstream ref_deps ''c'') ref_instance zero_cloud_config
      (on [(tenant, ref_configmap)]) = (Ok cc', snd ref_cm_run)"
    by (simp add: ref_cm_run_def prod_eq_iff)
  have vol: "\<lparr>v_name = ''conf'', v_source = no_source\<lparr>vs_configmap := Some \<lparr>dr_name = ''cm'', dr_items = []\<rparr>\<rparr>\<rparr>
      \<in> set (i_volumes (pl ref_instance))" (is "?v \<in> _")
    by (simp add: ref_instance_def ref_volumes_def)
  have names: "om_namespace (md ref_instance) = ''ns''" "trace (on [(tenant, ref_configmap)]) = []"
    by (simp_all add: ref_instance_def live_def on_def)
  from config_map_files [OF run] vol obtain cm where
    "EGet tenant KConfigMap (key_of ''ns'' ''cm'') (Inr (to_obj configmap_c cm)) \<in> set (trace (snd ref_cm_run))"
    "\<forall>(k, v) \<in> set (pl cm). \<exists>f \<in> set (cc_write_files cc').
         wf_path f = ''/etc/configmaps/'' @ om_name (md cm) @ ''/'' @ k \<and> base64_decode (wf_content f) = Some v"
    by (fastforce simp: names)
  with cc' show ?thesis by blast
qed

section \<open>The boot disk\<close>

text \<open>An image that populates a disk of a volume.\<close>

definition volume_image :: "inst_volume \<Rightarrow> string option" where
  "volume_image v = Option.bind (vs_disk (v_source v)) (\<lambda>dk. Option.bind (ds_template dk)
     (\<lambda>t. Option.bind (dt_populator t) pop_image))"

lemma boot_disk_step_none: "volume_image v = None \<Longrightarrow> boot_disk_step d cfg (n, v) g = ret g"
  by (auto simp: boot_disk_step_def volume_image_def split: option.splits)

lemma build_volumes_none:
  "\<forall>v \<in> set vs. volume_image v = None \<Longrightarrow> forA (boot_disk_step d cfg) (enumerate n vs) g = ret g"
  by (induction vs arbitrary: n) (simp_all add: boot_disk_step_none)

lemma boot_disk_step_frame:
  "boot_disk_step d cfg iv g s = (Ok g', s') \<Longrightarrow> g' = g\<lparr>gi_boot_disk := gi_boot_disk g'\<rparr>"
  by (auto simp: boot_disk_step_def Let_def split: prod.splits option.splits)

lemma build_volumes_frame:
  assumes "build_volumes d cfg i g s = (Ok g', s')"
  shows "g' = g\<lparr>gi_boot_disk := gi_boot_disk g'\<rparr>"
proof (rule forA_invariant [OF assms [unfolded build_volumes_def], where I = "\<lambda>h. h = g\<lparr>gi_boot_disk := gi_boot_disk h\<rparr>"])
  fix iv h t h' t'
  assume "h = g\<lparr>gi_boot_disk := gi_boot_disk h\<rparr>" and "boot_disk_step d cfg iv h t = (Ok h', t')"
  then show "h' = g\<lparr>gi_boot_disk := gi_boot_disk h'\<rparr>"
    by (metis boot_disk_step_frame gcp_instance.surjective gcp_instance.update_convs(11))
qed simp

end
