(* ===== verification/Instance_Network.thy ===== *)
theory Instance_Network
  imports Reconciler_Contract Scenarios
begin

text \<open>
  From \<open>internal/controller/instance_controller.go\<close>: \<open>buildGCPInstanceNetworkInterfaces\<close>, which points
  the GCP instance's interfaces at the networks and subnets of its bindings, and
  \<open>reconcileNetworkInterfaceNetworkPolicies\<close>, which creates a firewall for every ingress rule of the
  interfaces' policies. A \<open>return nil\<close> in the middle of a loop is the value \<open>None\<close>.
\<close>

section \<open>From an interface to its network\<close>

definition binding_key :: "string \<Rightarrow> deployment kobj \<Rightarrow> nat \<Rightarrow> objkey" where
  "binding_key ns dep i = key_of ns (om_name (md dep) @ ''-net-'' @ dec_nat i)"

definition nic_context :: "'s client \<Rightarrow> objkey \<Rightarrow> ('s, network_context kobj) act" where
  "nic_context c key =
     bindA (wrapE ''failed fetching network binding for interface'' (get_as c binding_c key)) (\<lambda>b.
     case nb_context (pl b) of
       None \<Rightarrow> fail (ErrorText ''network binding not associated with network context'')
     | Some ref \<Rightarrow> wrapE ''failed fetching network context'' (get_as c context_c ref))"

definition network_key :: "network_context kobj \<Rightarrow> objkey" where
  "network_key nc = key_of (om_namespace (md nc)) (nc_network (pl nc))"

section \<open>Network interfaces\<close>

definition zero_nic :: gcp_nic where
  "zero_nic = \<lparr>gn_network = None, gn_subnetwork = None, gn_access = []\<rparr>"

definition nic_step ::
  "'s client \<Rightarrow> deployment kobj \<Rightarrow> inst kobj \<Rightarrow> nat \<Rightarrow> gcp_nic list \<Rightarrow> ('s, gcp_nic list) act" where
  "nic_step c dep x i nics =
     bindA (nic_context c (binding_key (om_namespace (md x)) dep i)) (\<lambda>nc.
     bindA (wrapE ''failed fetching network'' (get_as c network_c (network_key nc))) (\<lambda>n.
     bindA (wrapE ''failed fetching subnet'' (get_as c subnet_c
       (key_of (om_namespace (md nc)) (om_name (md nc) @ ''-0'')))) (\<lambda>sn.
     if i < length nics then
       ret (nics[i := (nics ! i)\<lparr>gn_network := Some (network_name (om_uid (md n))),
         gn_subnetwork := Some (subnet_name (om_uid (md sn))),
         gn_access := [\<lparr>ac_natip = Some [], ac_tier = Some ''PREMIUM'', ac_ptr = Some []\<rparr>]\<rparr>])
     else panic ''index out of range'')))"

definition build_nics ::
  "'s client \<Rightarrow> deployment kobj \<Rightarrow> inst kobj \<Rightarrow> gcp_instance \<Rightarrow> ('s, gcp_instance) act" where
  "build_nics c dep x g =
     bindA (forA (nic_step c dep x) [0..<i_nics (pl x)]
       (if gi_nics g = [] then replicate (i_nics (pl x)) zero_nic else gi_nics g))
       (\<lambda>nics. ret (g\<lparr>gi_nics := nics\<rparr>))"

section \<open>Firewalls\<close>

definition firewall_name :: "string \<Rightarrow> nat \<Rightarrow> nat \<Rightarrow> string" where
  "firewall_name uid i r = ''deployment-'' @ uid @ ''-net-'' @ dec_nat i @ ''-'' @ dec_nat r"

text \<open>One port of a rule; \<open>None\<close> is a named port, whose lookup is not implemented.\<close>

definition port_allow :: "'w deps \<Rightarrow> policy_port \<Rightarrow> fw_allow option" where
  "port_allow d p =
     (let proto = (case pp_protocol p of None \<Rightarrow> ''tcp'' | Some s \<Rightarrow> to_lower s) in
      case pp_port p of
        None \<Rightarrow> Some \<lparr>fa_protocol = proto, fa_ports = []\<rparr>
      | Some v \<Rightarrow> (let s = itoa (d_int_value d v) in
          if s = ''0'' then None
          else Some \<lparr>fa_protocol = proto,
            fa_ports = [case pp_end p of None \<Rightarrow> s | Some e \<Rightarrow> s @ ''-'' @ itoa e]\<rparr>))"

fun port_allows :: "'w deps \<Rightarrow> policy_port list \<Rightarrow> fw_allow list option" where
  "port_allows d [] = Some []"
| "port_allows d (p # ps) = (case port_allow d p of
     None \<Rightarrow> None
   | Some a \<Rightarrow> (case port_allows d ps of None \<Rightarrow> None | Some as \<Rightarrow> Some (a # as)))"

definition source_ranges :: "string option list \<Rightarrow> string list" where
  "source_ranges peers = concat (map (\<lambda>p. case p of None \<Rightarrow> [] | Some cidr \<Rightarrow> [cidr]) peers)"

definition new_firewall ::
  "'w deps \<Rightarrow> string \<Rightarrow> string \<Rightarrow> unit kobj \<Rightarrow> deployment kobj \<Rightarrow> network kobj \<Rightarrow> nat \<Rightarrow> nat \<Rightarrow>
     fw_allow list \<Rightarrow> string list \<Rightarrow> firewall kobj" where
  "new_firewall d pc project wl dep n i r allows sources =
     (let x = named [] (firewall_name (om_uid (md dep)) i r) zero_firewall in
      \<lparr>md = (md x)\<lparr>om_labels := [k_workload_uid_label (d_consts d) \<mapsto> om_uid (md wl),
            k_deployment_uid_label (d_consts d) \<mapsto> om_uid (md dep)]\<rparr>,
       pl = \<lparr>fw_res = \<lparr>rs_manage_all = True, rs_delete = True, rs_provider = Some pc\<rparr>,
         fw_project = project,
         fw_description = ''instance interface policy for '' @ om_name (md dep) @ '': interfaceIndex:'' @
           dec_nat i @ '', ruleIndex:'' @ dec_nat r,
         fw_direction = ''INGRESS'', fw_network_ref = network_name (om_uid (md n)), fw_priority = 65534,
         fw_tags = [''workload-'' @ om_uid (md wl), ''deployment-'' @ om_uid (md dep)],
         fw_allows = allows, fw_sources = sources\<rparr>\<rparr>)"

text \<open>One rule: a firewall that is there already is left alone.\<close>

definition policy_rule ::
  "'w deps \<Rightarrow> gcp_provider \<Rightarrow> string \<Rightarrow> string \<Rightarrow> 'w world client \<Rightarrow> unit kobj \<Rightarrow> deployment kobj \<Rightarrow>
     network kobj \<Rightarrow> nat \<Rightarrow> nat \<times> ingress_rule \<Rightarrow> unit \<Rightarrow> ('w world, unit option) act" where
  "policy_rule d cfg cluster project dc wl dep n i ir u = (let (r, rule) = ir in
     bindA (wrapE ''failed to read firewall from k8s API''
       (get_or_zero d dc firewall_c (key_of [] (firewall_name (om_uid (md dep)) i r)) zero_firewall)) (\<lambda>f0.
     if om_created (md f0) \<noteq> None then ret (Some ())
     else
     bindA (provider_config d cfg cluster) (\<lambda>pc.
     case port_allows d (ir_ports rule) of
       None \<Rightarrow> ret None
     | Some allows \<Rightarrow>
         bindA (wrapE ''failed to create firewall'' (create_as dc firewall_c
           (new_firewall d pc project wl dep n i r allows (source_ranges (ir_from rule))))) (\<lambda>_.
         ret (Some ())))))"

definition interface_policy ::
  "'w deps \<Rightarrow> gcp_provider \<Rightarrow> string \<Rightarrow> string \<Rightarrow> 'w world client \<Rightarrow> 'w world client \<Rightarrow> unit kobj \<Rightarrow>
     deployment kobj \<Rightarrow> nat \<times> ingress_rule list option \<Rightarrow> unit \<Rightarrow> ('w world, unit option) act" where
  "interface_policy d cfg cluster project c dc wl dep ip u = (let (i, policy) = ip in
     case policy of
       None \<Rightarrow> ret (Some ())
     | Some rules \<Rightarrow>
         bindA (nic_context c (binding_key (om_namespace (md dep)) dep i)) (\<lambda>nc.
         bindA (wrapE ''failed to get network'' (get_as c network_c (network_key nc))) (\<lambda>n.
         stepA (policy_rule d cfg cluster project dc wl dep n i) (enumerate 0 rules) ())))"

definition network_policies ::
  "'w deps \<Rightarrow> gcp_provider \<Rightarrow> string \<Rightarrow> string \<Rightarrow> 'w world client \<Rightarrow> 'w world client \<Rightarrow> unit kobj \<Rightarrow>
     deployment kobj \<Rightarrow> ('w world, unit) act" where
  "network_policies d cfg cluster project c dc wl dep =
     bindA (stepA (interface_policy d cfg cluster project c dc wl dep) (enumerate 0 (wd_nics (pl dep))) ())
       (\<lambda>_. ret ())"

section \<open>Calls\<close>

lemma plain_nic_context: "emits trace (plain ls k rq) (nic_context (upstream d (rq_cluster rq)) key)"
  unfolding nic_context_def by (intro hist_intros plain_get_as)

lemma plain_build_nics: "emits trace (plain ls k rq) (build_nics (upstream d (rq_cluster rq)) dep x g)"
  unfolding build_nics_def nic_step_def by (intro hist_intros plain_get_as plain_nic_context)

lemma plain_network_policies:
  assumes "library_laws d"
  shows "emits trace (plain ls k rq) (network_policies d cfg cluster project (upstream d (rq_cluster rq))
    (mapped_client d (new_mapped d (rq_cluster rq) ls)) wl dep)"
  unfolding network_policies_def interface_policy_def policy_rule_def
  by (intro hist_intros plain_get_as plain_nic_context plain_get_or_zero)
    (auto intro!: plain_mapped_create library_lawsD [OF assms])

section \<open>Names\<close>

text \<open>
  C32: The names of the firewalls of all interfaces and rules of all deployments are different, for
  deployment UIDs that are equally long or have no letter n. The UIDs of the API server are UUIDs, of which both
  are true: 36 hexadecimal digits and dashes.
\<close>

theorem firewall_name_inject:
  assumes "length uid = length uid' \<or> CHR ''n'' \<notin> set uid \<and> CHR ''n'' \<notin> set uid'"
  shows "firewall_name uid i r = firewall_name uid' i' r' \<longleftrightarrow> uid = uid' \<and> i = i' \<and> r = r'"
proof
  assume "firewall_name uid i r = firewall_name uid' i' r'"
  then have eq: "(uid @ ''-'') @ CHR ''n'' # (''et-'' @ dec_nat i @ ''-'' @ dec_nat r) =
      (uid' @ ''-'') @ CHR ''n'' # (''et-'' @ dec_nat i' @ ''-'' @ dec_nat r')"
    by (simp add: firewall_name_def)
  have eqs: "uid @ ''-'' = uid' @ ''-''"
    "''et-'' @ dec_nat i @ ''-'' @ dec_nat r = ''et-'' @ dec_nat i' @ ''-'' @ dec_nat r'"
  proof -
    from assms have "uid @ ''-'' = uid' @ ''-'' \<and>
      ''et-'' @ dec_nat i @ ''-'' @ dec_nat r = ''et-'' @ dec_nat i' @ ''-'' @ dec_nat r'"
    proof
      assume "length uid = length uid'"
      with eq show ?thesis by simp
    next
      assume "CHR ''n'' \<notin> set uid \<and> CHR ''n'' \<notin> set uid'"
      then have "CHR ''n'' \<notin> set (uid @ ''-'')" "CHR ''n'' \<notin> set (uid' @ ''-'')" by simp_all
      with eq show ?thesis by (blast dest: append_sep_inject)
    qed
    then show "uid @ ''-'' = uid' @ ''-''"
      "''et-'' @ dec_nat i @ ''-'' @ dec_nat r = ''et-'' @ dec_nat i' @ ''-'' @ dec_nat r'" by simp_all
  qed
  from eqs(2) have "dec_nat i @ CHR ''-'' # dec_nat r = dec_nat i' @ CHR ''-'' # dec_nat r'" by simp
  from append_sep_inject [OF this dec_nat_not_dash dec_nat_not_dash] eqs(1)
  show "uid = uid' \<and> i = i' \<and> r = r'" by simp
qed simp

theorem firewall_name_inject_witness: "firewall_name ''6b-1'' 1 11 \<noteq> firewall_name ''6b-1'' 11 1"
  using firewall_name_inject [of "''6b-1''" "''6b-1''" 1 11 11 1] by simp

section \<open>Every rule gets its firewall\<close>








text \<open>A deployment whose one interface admits HTTP from a subnet.\<close>

definition ref_rule :: ingress_rule where
  "ref_rule = \<lparr>ir_ports = [\<lparr>pp_protocol = None, pp_port = Some (IntVal 80), pp_end = None\<rparr>], ir_from = [Some ''10.0.0.0/8'']\<rparr>"

definition ref_deployment :: "deployment kobj" where
  "ref_deployment = \<lparr>md = md (live ''ns'' ''dep'' ''u2'' BWorkload), pl = \<lparr>wd_nics = [Some [ref_rule]]\<rparr>\<rparr>"




text \<open>
  C33: A named port is not looked up: the rule that has one gets no firewall, and neither does any rule
  after it, yet the function reports no error.
\<close>

theorem named_port_stops:
  assumes "get_or_zero d dc firewall_c (key_of [] (firewall_name (om_uid (md dep)) i r)) zero_firewall w = (Ok f, w')"
    and "om_created (md f) = None" and "provider_config_name (d_consts d) cfg cluster = Ok pc"
    and "port_allows d (ir_ports rule) = None"
  shows "stepA (policy_rule d cfg cluster project dc wl dep n i) ((r, rule) # rest) () w = (Ok None, w')"
proof -
  have "policy_rule d cfg cluster project dc wl dep n i (r, rule) () w = (Ok None, w')"
    using assms by (simp add: policy_rule_def bindA_run wrapE_run provider_config_run apply_simps)
  then show ?thesis by (simp add: bindA_run apply_simps)
qed

theorem named_port_stops_witness:
  "stepA (policy_rule ref_deps ref_cfg ''c'' ''p'' (downstream ref_deps) ref_workload ref_deployment
      \<lparr>md = zero_meta, pl = \<lparr>n_mtu = 0\<rparr>\<rparr> 0)
    ((0, ref_rule\<lparr>ir_ports := [\<lparr>pp_protocol = None, pp_port = Some (StrVal ''http''), pp_end = None\<rparr>]\<rparr>) # [(1, ref_rule)])
    () (on []) = (Ok None, (on [])\<lparr>trace := [EGet Downstream KFirewall (key_of [] ''deployment-u2-net-0-0'') (Inl not_found)]\<rparr>)"
proof (rule named_port_stops)
  show "get_or_zero ref_deps (downstream ref_deps) firewall_c
      (key_of [] (firewall_name (om_uid (md ref_deployment)) 0 0)) zero_firewall (on []) =
    (Ok zero_firewall, (on [])\<lparr>trace := [EGet Downstream KFirewall (key_of [] ''deployment-u2-net-0-0'') (Inl not_found)]\<rparr>)"
  proof -
    have "firewall_name (om_uid (md ref_deployment)) 0 0 = ''deployment-u2-net-0-0''" by code_simp
    then show ?thesis
      by (simp add: get_or_zero_def get_as_def tryA_def bindA_def downstream_def api_client_def call_def on_def
          ref_deps_def ref_base_def ref_server_def store_get_def apply_simps)
  qed
qed (simp_all add: zero_firewall_def zero_meta_def named_def, code_simp+)

end
