(* ===== verification/Go_Json.thy ===== *)
theory Go_Json
  imports Go_Encoding "HOL-Library.Char_ord" "HOL-Library.List_Lexorder"
begin

text \<open>
  \<open>json.Marshal\<close> of \<open>encoding/json\<close> on the one type the operator marshals, a map from names to maps
  from keys to bytes: object members in the order of their keys, bytes in base64, a nil map as null.
  Strings are escaped as Go escapes ASCII; names and keys of Kubernetes objects have no other bytes.
\<close>

fun json_char :: "char \<Rightarrow> string" where
  "json_char c =
     (if c = CHR 34 then [CHR 92, CHR 34]
      else if c = CHR 92 then [CHR 92, CHR 92]
      else if c = CHR 10 then [CHR 92, CHR ''n'']
      else if c = CHR 13 then [CHR 92, CHR ''r'']
      else if c = CHR 9 then [CHR 92, CHR ''t'']
      else if c = CHR 8 then [CHR 92, CHR ''b'']
      else if c = CHR 12 then [CHR 92, CHR ''f'']
      else if of_char c < (32 :: nat) \<or> c \<in> set ''<>&'' then
        [CHR 92, CHR ''u'', CHR ''0'', CHR ''0'', hex_digit (of_char c div 16), hex_digit (of_char c mod 16)]
      else [c])"

definition json_string :: "string \<Rightarrow> string" where
  "json_string s = CHR 34 # concat (map json_char s) @ [CHR 34]"

text \<open>The members of an object, separated by commas.\<close>

fun json_members :: "(string \<times> string) list \<Rightarrow> string" where
  "json_members [] = []"
| "json_members [(k, v)] = json_string k @ '':'' @ v"
| "json_members ((k, v) # kvs) = json_string k @ '':'' @ v @ '','' @ json_members kvs"

text \<open>A map, its members in the order of the keys.\<close>

definition json_object :: "(string \<times> string) list \<Rightarrow> string" where
  "json_object kvs = ''{'' @ json_members (sort_key fst kvs) @ ''}''"

definition json_bytes :: "string \<Rightarrow> string" where
  "json_bytes b = json_string (base64_encode b)"

definition json_data :: "(string \<times> string) list option \<Rightarrow> string" where
  "json_data m = (case m of None \<Rightarrow> ''null''
     | Some kvs \<Rightarrow> json_object (map (\<lambda>(k, b). (k, json_bytes b)) kvs))"

definition json_secrets :: "(string \<times> (string \<times> string) list option) list \<Rightarrow> string" where
  "json_secrets m = json_object (map (\<lambda>(n, data). (n, json_data data)) m)"

end
