(* ===== verification/Instance_Secrets.thy ===== *)
theory Instance_Secrets
  imports Reconciler_Contract Scenarios Go_Json "HOL-Library.AList"
begin

text \<open>
  \<open>reconcileSecrets\<close> of \<open>internal/controller/instance_controller.go\<close>: the secrets an instance mounts are
  collected in one downstream secret, stored in Secret Manager, and made readable for the workload's
  service account; the cloud-init document gets the script that fetches them. The Go function returns
  \<open>(proceed, err)\<close>; here \<open>Some\<close> of the new cloud-init document is \<open>(true, nil)\<close>, \<open>None\<close> is \<open>(false, nil)\<close>.
\<close>

section \<open>Collecting the secrets\<close>

definition secret_keys :: "inst kobj \<Rightarrow> objkey list" where
  "secret_keys x = concat (map (\<lambda>v. case vs_secret (v_source v) of
     None \<Rightarrow> [] | Some r \<Rightarrow> [key_of (om_namespace (md x)) (dr_name r)]) (i_volumes (pl x)))"

type_synonym secret_data = "(string \<times> (string \<times> string) list option) list"

definition collect_secrets :: "'s client \<Rightarrow> objkey list \<Rightarrow> ('s, secret_data) act" where
  "collect_secrets c keys = forA (\<lambda>key m.
     bindA (wrapE ''failed fetching secret'' (get_as c secret_c key)) (\<lambda>s.
     ret (AList.update (om_name (md s)) (pl s) m))) keys []"

section \<open>The downstream objects\<close>

definition fill_secret ::
  "'w strategy \<Rightarrow> unit kobj \<Rightarrow> string \<Rightarrow> (string \<times> string) list option kobj \<Rightarrow>
     ('w world, (string \<times> string) list option kobj) act" where
  "fill_secret S wl bytes s =
     bindA (wrapE ''failed to set owner reference on aggregated k8s secret''
       (st_set_controller S (to_obj workload_c wl) (to_obj secret_c s))) (\<lambda>y.
     bindA (pure (of_obj secret_c y)) (\<lambda>s'. ret (s'\<lparr>pl := Some [(''secretData'', bytes)]\<rparr>)))"

definition zero_secret :: "(string \<times> string) list option kobj" where
  "zero_secret = \<lparr>md = zero_meta, pl = None\<rparr>"

definition aggregated_secret ::
  "'w deps \<Rightarrow> 'w strategy \<Rightarrow> unit kobj \<Rightarrow> inst kobj \<Rightarrow> string \<Rightarrow>
     ('w world, (string \<times> string) list option kobj) act" where
  "aggregated_secret d S wl x bytes =
     bindA (wrapE ''failed to get downstream namespace name'' (st_namespace S (to_obj instance_c x))) (\<lambda>ns.
     wrapE ''failed to reconcile aggregated k8s secret''
       (create_or_update_as d (st_client S) secret_c
         (named ns (workload_name (om_uid (md wl))) zero_secret) (fill_secret S wl bytes)))"

text \<open>The annotations naming the upstream owner of a cluster-scoped downstream object.\<close>

definition owned_by :: "string \<Rightarrow> 'b kobj \<Rightarrow> (string \<rightharpoonup> string)" where
  "owned_by cluster x = [upstream_name_key \<mapsto> om_name (md x),
     upstream_namespace_key \<mapsto> om_namespace (md x), upstream_cluster_key \<mapsto> cluster]"

definition managed :: "string \<Rightarrow> resource_spec" where
  "managed pc = \<lparr>rs_manage_all = True, rs_delete = True, rs_provider = Some pc\<rparr>"

definition new_gcp_secret :: "'w deps \<Rightarrow> string \<Rightarrow> string \<Rightarrow> string \<Rightarrow> unit kobj \<Rightarrow> gcp_secret kobj" where
  "new_gcp_secret d pc cluster project wl =
     (let x = named [] (workload_name (om_uid (md wl))) zero_gcp_secret in
      \<lparr>md = (md x)\<lparr>om_annotations := owned_by cluster wl,
            om_labels := [k_workload_uid_label (d_consts d) \<mapsto> om_uid (md wl)]\<rparr>,
       pl = (pl x)\<lparr>gs_res := managed pc, gs_project := project, gs_replication_auto := True\<rparr>\<rparr>)"

definition workload_secret ::
  "'w deps \<Rightarrow> gcp_provider \<Rightarrow> string \<Rightarrow> string \<Rightarrow> 'w world client \<Rightarrow> unit kobj \<Rightarrow> ('w world, gcp_secret kobj) act" where
  "workload_secret d cfg cluster project dc wl =
     bindA (wrapE ''failed fetching instance secret''
       (get_or_zero d dc gcp_secret_c (key_of [] (workload_name (om_uid (md wl)))) zero_gcp_secret)) (\<lambda>s0.
     if om_created (md s0) = None then
       bindA (provider_config d cfg cluster) (\<lambda>pc.
       wrapE ''failed to create instance secret''
         (create_as dc gcp_secret_c (new_gcp_secret d pc cluster project wl)))
     else ret s0)"

text \<open>
  The callback for the secret version. The error of \<open>SetOwnerReference\<close> is not the one wrapped: the
  variable named in \<open>fmt.Errorf\<close> is the nil error of the call before.
\<close>

definition fill_version ::
  "'w deps \<Rightarrow> string \<Rightarrow> unit kobj \<Rightarrow> gcp_secret kobj \<Rightarrow> objkey \<Rightarrow> secret_version kobj \<Rightarrow>
     ('w world, secret_version kobj) act" where
  "fill_version d cluster wl s aggregated v =
     (case d_set_owner_ref d (to_obj gcp_secret_c s) (to_obj secret_version_c v) of
        Inl e \<Rightarrow> fail (ErrorText ''failed to set owner reference on secret version: %!w(<nil>)'')
      | Inr y \<Rightarrow> bindA (pure (of_obj secret_version_c y)) (\<lambda>v1.
          ret \<lparr>md = (md v1)\<lparr>om_annotations := om_annotations (md v1) ++ owned_by cluster wl,
                om_labels := (om_labels (md v1))(k_workload_uid_label (d_consts d) \<mapsto> om_uid (md wl))\<rparr>,
            pl = (pl v1)\<lparr>
              sv_res := \<lparr>rs_manage_all = True, rs_delete = True, rs_provider = rs_provider (gs_res (pl s))\<rparr>,
              sv_enabled := True, sv_deletion := ''DELETE'',
              sv_data_key := ''secretData'', sv_data_ref := aggregated,
              sv_secret_ref := Some (om_name (md s))\<rparr>\<rparr>))"

definition secret_version ::
  "'w deps \<Rightarrow> string \<Rightarrow> 'w world client \<Rightarrow> unit kobj \<Rightarrow> gcp_secret kobj \<Rightarrow> objkey \<Rightarrow>
     ('w world, secret_version kobj) act" where
  "secret_version d cluster dc wl s aggregated =
     wrapE ''failed to create secret version''
       (create_or_patch_as d dc secret_version_c (named [] (om_name (md s)) zero_secret_version)
         (fill_version d cluster wl s aggregated))"

definition populate_command :: "string \<Rightarrow> string" where
  "populate_command n = ''/etc/secrets/populate_secrets.py https://secretmanager.googleapis.com/v1/'' @ n @
     ''/versions/latest:access''"

text \<open>The script and the command that runs it on the secret, whose provider name is dereferenced.\<close>

definition populate_cloud_config :: "'w deps \<Rightarrow> gcp_secret kobj \<Rightarrow> cloud_config \<Rightarrow> ('s, cloud_config) act" where
  "populate_cloud_config d s cc =
     (let cc1 = add_file (b64_file ''/etc/secrets/populate_secrets.py'' ''0755''
        (k_populate_script (d_consts d))) cc in
      case gs_at_name (pl s) of
        None \<Rightarrow> panic ''nil pointer dereference''
      | Some n \<Rightarrow> ret (add_cmd (populate_command n) cc1))"

definition service_account_email :: "'w deps \<Rightarrow> service_account kobj \<Rightarrow> string \<Rightarrow> string" where
  "service_account_email d sa project =
     map_get (om_annotations (md sa)) (k_external_name (d_consts d)) @ ''@'' @ project @ ''.iam.gserviceaccount.com''"

definition new_iam_member ::
  "'w deps \<Rightarrow> string \<Rightarrow> string \<Rightarrow> gcp_secret kobj \<Rightarrow> service_account kobj \<Rightarrow> iam_member kobj" where
  "new_iam_member d pc project s sa =
     (let x = named (om_namespace (md s)) (om_name (md s)) zero_iam_member in
      \<lparr>md = md x, pl = (pl x)\<lparr>im_res := managed pc, im_project := project, im_secret_ref := om_name (md s),
         im_role := ''roles/secretmanager.secretAccessor'',
         im_member := ''serviceAccount:'' @ service_account_email d sa project\<rparr>\<rparr>)"

section \<open>Granting access\<close>

text \<open>The last part of the function: the IAM member, and the two readiness checks.\<close>

definition secret_access ::
  "'w deps \<Rightarrow> gcp_provider \<Rightarrow> string \<Rightarrow> string \<Rightarrow> 'w world client \<Rightarrow> gcp_secret kobj \<Rightarrow>
     secret_version kobj \<Rightarrow> service_account kobj \<Rightarrow> ('w world \<times> ('b, 'z) prog_locals_scheme, bool) act" where
  "secret_access d cfg cluster project dc s v sa =
     bindA (lift (wrapE (''failed fetching secret'' @ [CHR 39] @ ''s IAM policy'')
       (get_or_zero d dc iam_member_c (obj_key s) zero_iam_member))) (\<lambda>m0.
     if om_created (md m0) \<noteq> None then ret True
     else
     bindA (lift (provider_config d cfg cluster)) (\<lambda>pc.
     bindA (wrapE ''failed to set owner reference on secret IAM policy''
       (pure (d_set_owner_ref d (to_obj gcp_secret_c s) (to_obj iam_member_c (new_iam_member d pc project s sa))))) (\<lambda>y.
     bindA (pure (of_obj iam_member_c y)) (\<lambda>m1.
     bindA (lift (wrapE ''failed setting IAM policy on secret'' (create_as dc iam_member_c m1))) (\<lambda>m.
     if \<not> is_ready d (sv_conditions (pl v)) then
       bindA (set_cond (\<lambda>c. c\<lparr>c_reason := ''ProvisioningSecretVersion'',
         c_message := ''Secret version is being provisioned for the workload''\<rparr>)) (\<lambda>_. ret False)
     else if \<not> is_ready d (im_conditions (pl m)) then
       bindA (set_cond (\<lambda>c. c\<lparr>c_reason := ''ProvisioningSecretIAMMember'',
         c_message := ''Secret IAM member is being provisioned''\<rparr>)) (\<lambda>_. ret False)
     else ret True)))))"

definition reconcile_secrets ::
  "'w deps \<Rightarrow> gcp_provider \<Rightarrow> string \<Rightarrow> string \<Rightarrow> 'w world client \<Rightarrow> 'w strategy \<Rightarrow> cloud_config \<Rightarrow>
     unit kobj \<Rightarrow> inst kobj \<Rightarrow> service_account kobj \<Rightarrow>
     ('w world \<times> ('b, 'z) prog_locals_scheme, cloud_config option) act" where
  "reconcile_secrets d cfg cluster project c S cc wl x sa =
     (if secret_keys x = [] then ret (Some cc) else
      bindA (lift (collect_secrets c (secret_keys x))) (\<lambda>data.
      bindA (lift (aggregated_secret d S wl x (json_secrets data))) (\<lambda>agg.
      bindA (lift (workload_secret d cfg cluster project (st_client S) wl)) (\<lambda>s.
      if \<not> is_ready d (gs_conditions (pl s)) then
        bindA (set_cond (\<lambda>c. c\<lparr>c_reason := ''ProvisioningSecret'',
          c_message := ''Secret is being provisioned for the workload''\<rparr>)) (\<lambda>_. ret None)
      else
      bindA (lift (secret_version d cluster (st_client S) wl s (obj_key agg))) (\<lambda>v.
      bindA (populate_cloud_config d s cc) (\<lambda>cc1.
      bindA (secret_access d cfg cluster project (st_client S) s v sa) (\<lambda>proceed.
      ret (if proceed then Some cc1 else None))))))))"

section \<open>What it may do\<close>

lemma owner_lawD:
  "owner_law d \<Longrightarrow> d_set_owner_ref d owner x = Inr y \<Longrightarrow> y = x\<lparr>md := (md x)\<lparr>om_owners := om_owners (md y)\<rparr>\<rparr>"
  unfolding owner_law_def by blast

lemma owner_key: "owner_law d \<Longrightarrow> d_set_owner_ref d owner x = Inr y \<Longrightarrow> obj_key y = obj_key x"
  by (drule (1) owner_lawD) (simp add: obj_key_def, metis kobj.select_convs(1) kobj.surjective kobj.update_convs(1)
    objmeta.select_convs(1,2) objmeta.surjective objmeta.update_convs(8))

lemma mapped_set_controller_key:
  assumes "owner_law d" and "mapped_set_controller d ms owner x s = (Ok y, s')"
  shows "obj_key y = obj_key x"
  using assms(2)
  by (auto simp: mapped_set_controller_def Let_def obj_key_def split: if_splits
      elim!: bindA_OkE dest!: owner_key [OF assms(1)])

lemma fill_secret_key:
  assumes "owner_law d" and "fill_secret (new_mapped_strategy d cluster ls) wl b s w = (Ok s', w')"
  shows "obj_key s' = obj_key s"
  using assms(2)
  by (auto simp: fill_secret_def new_mapped_strategy_def mapped_strategy_def obj_key_def elim!: bindA_OkE
      dest!: mapped_set_controller_key [OF assms(1)] of_obj_md)

lemma fill_version_key:
  assumes "owner_law d" and "fill_version d cluster wl s agg v w = (Ok v', w')"
  shows "obj_key v' = obj_key v"
  using assms(2)
  by (auto simp: fill_version_def obj_key_def elim!: bindA_OkE split: sum.splits
      dest!: owner_key [OF assms(1)] of_obj_md)

lemma plain_fill_secret:
  assumes "library_laws d"
  shows "emits trace (plain ls k rq) (fill_secret (new_mapped_strategy d (rq_cluster rq) ls) wl b s)"
  unfolding fill_secret_def
  by (intro hist_intros mapped.emits_set_controller library_lawsD [OF assms]) auto

lemma plain_aggregated_secret:
  assumes "library_laws d"
  shows "emits trace (plain ls k rq) (aggregated_secret d (new_mapped_strategy d (rq_cluster rq) ls) wl x b)"
proof -
  have "emits trace (plain ls k rq) (create_or_update_as d (mapped_client d (new_mapped d (rq_cluster rq) ls)) secret_c s
      (fill_secret (new_mapped_strategy d (rq_cluster rq) ls) wl b))" for s
    by (rule plain_create_or_update [OF assms])
      (auto dest: fill_secret_key [OF library_lawsD(7) [OF assms]] intro!: plain_fill_secret [OF assms, simplified])
  then show ?thesis
    unfolding aggregated_secret_def
    by (intro hist_intros mapped.emits_namespace) (auto simp: new_mapped_strategy_def mapped_strategy_def)
qed

lemma plain_workload_secret:
  assumes "library_laws d"
  shows "emits trace (plain ls k rq)
    (workload_secret d cfg cluster project (mapped_client d (new_mapped d (rq_cluster rq) ls)) wl)"
  unfolding workload_secret_def
  by (intro hist_intros plain_get_or_zero) (auto intro!: plain_mapped_create library_lawsD [OF assms])

lemma emits_fill_version [hist_intros, intro, simp]: "emits trace P (fill_version d cluster wl s agg v)"
  by (auto simp: fill_version_def intro!: hist_intros split: sum.split)

lemma plain_secret_version:
  assumes "library_laws d"
  shows "emits trace (plain ls k rq)
    (secret_version d cluster (mapped_client d (new_mapped d (rq_cluster rq) ls)) wl s agg)"
  unfolding secret_version_def
  by (intro emits_wrapE plain_create_or_patch [OF assms])
    (auto dest: fill_version_key [OF library_lawsD(7) [OF assms]])

lemma plain_secret_access:
  assumes "library_laws d"
  shows "emits (\<lambda>(s, l). trace s) (plain ls k rq)
    (secret_access d cfg cluster project (mapped_client d (new_mapped d (rq_cluster rq) ls)) s v sa)"
  unfolding secret_access_def
  by (intro hist_intros plain_get_or_zero) (auto intro!: plain_mapped_create library_lawsD [OF assms])

lemma plain_reconcile_secrets:
  assumes "library_laws d"
  shows "emits (\<lambda>(s, l). trace s) (plain ls k rq)
    (reconcile_secrets d cfg cluster project (upstream d (rq_cluster rq)) (new_mapped_strategy d (rq_cluster rq) ls)
      cc wl x sa)"
  unfolding reconcile_secrets_def collect_secrets_def populate_cloud_config_def Let_def
  by (simp only: new_mapped_strategy_def mapped_strategy_def strategy.simps)
    (intro hist_intros plain_get_as plain_workload_secret plain_secret_version plain_secret_access assms
      plain_aggregated_secret [unfolded new_mapped_strategy_def mapped_strategy_def])

lemma keeps_secret_access:
  "(\<And>l f. I l \<Longrightarrow> I (l\<lparr>lv_cond := f (lv_cond l)\<rparr>)) \<Longrightarrow> keeps I (secret_access d cfg cluster project dc s v sa)"
  unfolding secret_access_def by (intro keeps_intros)

lemma keeps_reconcile_secrets:
  "(\<And>l f. I l \<Longrightarrow> I (l\<lparr>lv_cond := f (lv_cond l)\<rparr>)) \<Longrightarrow>
     keeps I (reconcile_secrets d cfg cluster project c S cc wl x sa)"
  unfolding reconcile_secrets_def populate_cloud_config_def Let_def
  by (intro keeps_intros keeps_secret_access)

section \<open>When the instance may go on\<close>

text \<open>
  C22: Where the IAM member is not there yet, the call creates it, and lets the instance go on exactly if both the
  secret version and the member the server answered with are ready. Otherwise the condition names the one it waits
  for, the version first. A member that is there already is not looked at, see \<open>secret_access_existing\<close>.
\<close>

theorem secret_access_waits:
  assumes "get_or_zero d dc iam_member_c (obj_key s) zero_iam_member w = (Ok m0, w1)" and "om_created (md m0) = None"
    and "secret_access d cfg cluster project dc s v sa (w, l) = (Ok proceed, (w', l'))"
  shows "\<exists>pc y m1 m. provider_config_name (d_consts d) cfg cluster = Ok pc \<and>
    d_set_owner_ref d (to_obj gcp_secret_c s) (to_obj iam_member_c (new_iam_member d pc project s sa)) = Inr y \<and>
    of_obj iam_member_c y = Inr m1 \<and> create_as dc iam_member_c m1 w1 = (Ok m, w') \<and>
    proceed = (is_ready d (sv_conditions (pl v)) \<and> is_ready d (im_conditions (pl m))) \<and>
    (proceed \<longrightarrow> lv_cond l' = lv_cond l) \<and>
    (\<not> proceed \<longrightarrow> c_reason (lv_cond l') = (if is_ready d (sv_conditions (pl v))
       then ''ProvisioningSecretIAMMember'' else ''ProvisioningSecretVersion'')) \<and>
    lv_obj l' = lv_obj l"
  using assms
  by (fastforce simp: secret_access_def bindA_run lift_run wrapE_run lift_eq_iff set_cond_def provider_config_def
      elim!: bindA_OkE split: if_splits)

text \<open>A ready secret, its version, and the worlds with and without the IAM member.\<close>

definition ref_gcp_secret :: "gcp_secret kobj" where
  "ref_gcp_secret = \<lparr>md = md (live [] ''workload-u1'' ''g1'' BWorkload),
     pl = (pl zero_gcp_secret)\<lparr>gs_conditions := [cond ''Ready'' CTrue], gs_at_name := Some ''projects/p/secrets/s''\<rparr>\<rparr>"

definition ref_version :: "secret_version kobj" where
  "ref_version = zero_secret_version\<lparr>pl := (pl zero_secret_version)\<lparr>sv_conditions := [cond ''Ready'' CFalse]\<rparr>\<rparr>"

definition ref_locals :: "inst prog_locals" where
  "ref_locals = \<lparr>lv_obj = \<lparr>md = zero_meta, pl = ref_inst\<rparr>, lv_cond = cond ''Programmed'' CFalse\<rparr>"

definition ref_access :: "store \<Rightarrow> bool res \<times> store world \<times> inst prog_locals" where
  "ref_access st = secret_access ref_deps ref_cfg ''c'' ''p'' (downstream ref_deps) ref_gcp_secret ref_version
     zero_service_account (on st, ref_locals)"

definition ref_member_read :: "store \<Rightarrow> iam_member kobj res \<times> store world" where
  "ref_member_read st = get_or_zero ref_deps (downstream ref_deps) iam_member_c (obj_key ref_gcp_secret) zero_iam_member (on st)"

theorem secret_access_waits_witness:
  "c_reason (lv_cond (snd (snd (ref_access [])))) = ''ProvisioningSecretVersion''"
proof -
  have read: "case fst (ref_member_read []) of Ok m \<Rightarrow> om_created (md m) = None | _ \<Rightarrow> False" by code_simp
  obtain m0 where m0: "fst (ref_member_read []) = Ok m0" "om_created (md m0) = None"
    by (rule res_okE [OF read])
  have run: "case fst (ref_access []) of Ok p \<Rightarrow> \<not> p | _ \<Rightarrow> False" by code_simp
  obtain p where p: "fst (ref_access []) = Ok p" "\<not> p"
    by (rule res_okE [OF run])
  have "secret_access ref_deps ref_cfg ''c'' ''p'' (downstream ref_deps) ref_gcp_secret ref_version zero_service_account
      (on [], ref_locals) = (Ok p, (fst (snd (ref_access [])), snd (snd (ref_access []))))"
    using p(1) by (simp add: ref_access_def prod_eq_iff)
  moreover have "get_or_zero ref_deps (downstream ref_deps) iam_member_c (obj_key ref_gcp_secret) zero_iam_member (on []) =
      (Ok m0, snd (ref_member_read []))"
    using m0(1) by (simp add: ref_member_read_def prod_eq_iff)
  moreover have "\<not> is_ready ref_deps (sv_conditions (pl ref_version))" by code_simp
  ultimately show ?thesis using secret_access_waits [OF _ m0(2)] p(2) by fastforce
qed

text \<open>
  Where the IAM member is there already, the call lets the instance go on without looking at the
  secret version or the IAM member: it waits only in the reconciliation that creates the member.
\<close>

lemma secret_access_existing:
  assumes "get_or_zero d dc iam_member_c (obj_key s) zero_iam_member w = (Ok m0, w1)" and "om_created (md m0) \<noteq> None"
  shows "secret_access d cfg cluster project dc s v sa (w, l) = (Ok True, (w1, l))"
  using assms by (simp add: secret_access_def bindA_run lift_run wrapE_run apply_simps)

lemma secret_access_existing_witness:
  "fst (ref_access [(Downstream, live [] ''workload-u1'' ''i1'' (BIamMember (pl zero_iam_member)))]) = Ok True"
    (is "fst (ref_access ?st) = _")
proof -
  have read: "case fst (ref_member_read ?st) of Ok m \<Rightarrow> om_created (md m) \<noteq> None | _ \<Rightarrow> False" by code_simp
  obtain m0 where m0: "fst (ref_member_read ?st) = Ok m0" "om_created (md m0) \<noteq> None"
    by (rule res_okE [OF read])
  have "get_or_zero ref_deps (downstream ref_deps) iam_member_c (obj_key ref_gcp_secret) zero_iam_member (on ?st) =
      (Ok m0, snd (ref_member_read ?st))"
    using m0(1) by (simp add: ref_member_read_def prod_eq_iff)
  then show ?thesis by (simp add: ref_access_def secret_access_existing [OF _ m0(2)])
qed

lemma populate_result:
  "populate_cloud_config d s cc st = (Ok cc1, st') \<Longrightarrow> \<exists>n. cc1 = cc\<lparr>
    cc_write_files := cc_write_files cc @ [b64_file ''/etc/secrets/populate_secrets.py'' ''0755'' (k_populate_script (d_consts d))],
    cc_run_cmd := cc_run_cmd cc @ [populate_command n]\<rparr>"
  by (auto simp: populate_cloud_config_def add_cmd_def add_file_def Let_def split: option.splits)

lemma reconcile_secrets_populates:
  fixes d :: "'w deps" and st st' :: "'w world \<times> ('b, 'z) prog_locals_scheme"
  assumes "reconcile_secrets d cfg cluster project c S cc wl x sa st = (Ok (Some cc1), st')"
    and "secret_keys x \<noteq> []"
  shows "\<exists>s (st1 :: 'w world \<times> ('b, 'z) prog_locals_scheme) st2. populate_cloud_config d s cc st1 = (Ok cc1, st2)"
  using assms unfolding reconcile_secrets_def
  by (fastforce elim!: bindA_OkE split: if_splits)

text \<open>
  C35: An instance that mounts secrets and may go on has the script that fetches them among the files
  of its cloud-init document, and as the last command the call of that script on a secret of Secret
  Manager; nothing else of the document changes.
\<close>

theorem secrets_boot_script:
  assumes "reconcile_secrets d cfg cluster project c S cc wl x sa (w, l) = (Ok (Some cc1), (w', l'))"
    and "secret_keys x \<noteq> []"
  shows "\<exists>n. cc1 = cc\<lparr>
    cc_write_files := cc_write_files cc @ [b64_file ''/etc/secrets/populate_secrets.py'' ''0755'' (k_populate_script (d_consts d))],
    cc_run_cmd := cc_run_cmd cc @ [populate_command n]\<rparr>"
  using reconcile_secrets_populates [OF assms] by (elim exE) (rule populate_result)

definition ref_secret_instance :: "inst kobj" where
  "ref_secret_instance = \<lparr>md = md (live ''ns'' ''x'' ''u1'' BWorkload), pl = ref_inst\<lparr>i_volumes := [
     \<lparr>v_name = ''cred'', v_source = \<lparr>vs_disk = None, vs_configmap = None,
       vs_secret = Some \<lparr>dr_name = ''sec'', dr_items = []\<rparr>\<rparr>\<rparr>]\<rparr>\<rparr>"

definition ref_secrets_run :: "cloud_config option res \<times> store world \<times> inst prog_locals" where
  "ref_secrets_run = reconcile_secrets ref_deps ref_cfg ''c'' ''p'' (upstream ref_deps ''c'')
     (new_mapped_strategy ref_deps ''c'' (dm_labels (gp_downstream ref_cfg))) zero_cloud_config
     \<lparr>md = md (live ''ns'' ''x'' ''u1'' BWorkload), pl = ()\<rparr> ref_secret_instance zero_service_account
     (on [ref_namespace, (tenant, live ''ns'' ''sec'' ''s1'' (BSecret (Some [(''password'', ''hunter2'')]))),
        (Downstream, \<lparr>md = md ref_gcp_secret, pl = BGcpSecret (pl ref_gcp_secret)\<rparr>),
        (Downstream, live [] ''workload-u1'' ''i1'' (BIamMember (pl zero_iam_member)))], ref_locals)"

theorem secrets_boot_script_witness:
  "\<exists>cc n. fst ref_secrets_run = Ok (Some cc) \<and> cc_run_cmd cc = [populate_command n]"
proof -
  have "case fst ref_secrets_run of Ok r \<Rightarrow> r \<noteq> None | _ \<Rightarrow> False" by code_simp
  then obtain cc where cc: "fst ref_secrets_run = Ok (Some cc)" by (auto split: res.splits)
  then have "reconcile_secrets ref_deps ref_cfg ''c'' ''p'' (upstream ref_deps ''c'')
     (new_mapped_strategy ref_deps ''c'' (dm_labels (gp_downstream ref_cfg))) zero_cloud_config
     \<lparr>md = md (live ''ns'' ''x'' ''u1'' BWorkload), pl = ()\<rparr> ref_secret_instance zero_service_account
     (on [ref_namespace, (tenant, live ''ns'' ''sec'' ''s1'' (BSecret (Some [(''password'', ''hunter2'')]))),
        (Downstream, \<lparr>md = md ref_gcp_secret, pl = BGcpSecret (pl ref_gcp_secret)\<rparr>),
        (Downstream, live [] ''workload-u1'' ''i1'' (BIamMember (pl zero_iam_member)))], ref_locals) =
     (Ok (Some cc), (fst (snd ref_secrets_run), snd (snd ref_secrets_run)))"
    by (simp add: ref_secrets_run_def prod_eq_iff)
  moreover have "secret_keys ref_secret_instance \<noteq> []"
    by (simp add: secret_keys_def ref_secret_instance_def)
  ultimately obtain n where "cc = zero_cloud_config\<lparr>
    cc_write_files := cc_write_files zero_cloud_config @
      [b64_file ''/etc/secrets/populate_secrets.py'' ''0755'' (k_populate_script (d_consts ref_deps))],
    cc_run_cmd := cc_run_cmd zero_cloud_config @ [populate_command n]\<rparr>"
    using secrets_boot_script by blast
  then have "cc_run_cmd cc = [populate_command n]" by (simp add: zero_cloud_config_def)
  with cc show ?thesis by blast
qed

end
