(* ===== verification/Instance_Controller.thy ===== *)
theory Instance_Controller
  imports Instance_Power Instance_Cloud Instance_Network Instance_Secrets
begin

text \<open>
  The rest of \<open>internal/controller/instance_controller.go\<close>: \<open>Reconcile\<close>, the two runtimes,
  \<open>reconcileInstance\<close> with its deferred status update, and \<open>reconcileGCPInstance\<close>.
\<close>

section \<open>What the functions pass along\<close>

text \<open>The arguments every function of the file gets: configuration, clients, owners of the instance.\<close>

record 'w env =
  e_cfg :: gcp_provider
  e_cluster :: string
  e_project :: string
  e_up :: "'w world client"
  e_strategy :: "'w strategy"
  e_workload :: "unit kobj"
  e_deployment :: "deployment kobj"

section \<open>The service account\<close>

definition service_account_id :: "string \<Rightarrow> string" where
  "service_account_id uid = ''workload-'' @ dec_nat (unat (fnv32a uid))"

definition new_service_account :: "'w deps \<Rightarrow> 'w env \<Rightarrow> string \<Rightarrow> service_account kobj" where
  "new_service_account d e pc =
     (let wl = e_workload e; uid = om_uid (md wl); x = named [] (workload_name uid) zero_service_account in
      \<lparr>md = (md x)\<lparr>
         om_annotations := (owned_by (e_cluster e) wl)(k_external_name (d_consts d) \<mapsto> service_account_id uid),
         om_labels := [k_workload_uid_label (d_consts d) \<mapsto> uid]\<rparr>,
       pl = (pl x)\<lparr>sa_res := managed pc, sa_project := e_project e,
         sa_description := ''service account for workload '' @ uid\<rparr>\<rparr>)"

definition workload_service_account :: "'w deps \<Rightarrow> 'w env \<Rightarrow> ('w world, service_account kobj) act" where
  "workload_service_account d e =
     (let dc = st_client (e_strategy e) in
      bindA (wrapE (''failed fetching workload'' @ [CHR 39] @ ''s service account'')
        (get_or_zero d dc service_account_c (key_of [] (workload_name (om_uid (md (e_workload e)))))
          zero_service_account)) (\<lambda>sa0.
      if om_created (md sa0) = None then
        bindA (provider_config d (e_cfg e) (e_cluster e)) (\<lambda>pc.
        wrapE (''failed to create workload'' @ [CHR 39] @ ''s service account'')
          (create_as dc service_account_c (new_service_account d e pc)))
      else ret sa0))"

section \<open>The GCP instance\<close>

text \<open>The callback of \<open>CreateOrPatch\<close> in \<open>reconcileGCPInstance\<close>.\<close>

definition fill_gcp_instance ::
  "'w deps \<Rightarrow> 'w env \<Rightarrow> string \<Rightarrow> inst kobj \<Rightarrow> cloud_config \<Rightarrow> (string \<rightharpoonup> string) option \<Rightarrow>
     service_account kobj \<Rightarrow> gcp_instance kobj \<Rightarrow> ('w world, gcp_instance kobj) act" where
  "fill_gcp_instance d e zone x cc meta sa g =
     (let itype = rt_instance_type (i_runtime (pl x));
          m1 = (if has_finalizer d g gcp_infra_finalizer then md g else md (with_finalizer d g gcp_infra_finalizer));
          m2 = m1\<lparr>om_annotations := om_annotations m1 ++ owned_by (e_cluster e) x\<rparr> in
      case nil_map (gp_machine_types (e_cfg e)) itype of
        None \<Rightarrow> fail (ErrorText (''unable to map datum instance type: '' @ itype))
      | Some mt \<Rightarrow>
          bindA (wrapE ''failed generating cloud init user data'' (pure (d_yaml_marshal d cc))) (\<lambda>user_data.
          bindA (provider_config d (e_cfg e) (e_cluster e)) (\<lambda>pc.
          let p1 = (pl g)\<lparr>gi_res := managed pc, gi_machine_type := Some mt, gi_can_ip_forward := True,
                gi_metadata := (nil_map meta)(''user-data'' \<mapsto>
                  ''## template: jinja'' @ [CHR 10] @ ''#cloud-config'' @ [CHR 10, CHR 10] @ user_data),
                gi_hostname := Some (om_name (md x) @ ''.cloud.datum-dns.net''),
                gi_project := Some (e_project e), gi_zone := Some zone,
                gi_service_account := (if gi_service_account (pl g) = None
                  then Some ([''cloud-platform''], service_account_email d sa (e_project e))
                  else gi_service_account (pl g)),
                gi_tags := [''workload-'' @ om_uid (md (e_workload e)), ''deployment-'' @ om_uid (md (e_deployment e))]\<rparr> in
          bindA (wrapE ''failed to build instance network interfaces''
            (build_nics (e_up e) (e_deployment e) x p1)) (\<lambda>p2.
          bindA (wrapE ''failed to build instance volumes'' (build_volumes d (e_cfg e) (pl x) p2)) (\<lambda>p3.
          ret \<lparr>md = m2, pl = p3\<rparr>)))))"

definition retry_annotation :: string where
  "retry_annotation = ''compute.datumapis.com/infra-provider-gcp-retry-create''"

definition gcp_instance_step ::
  "'w deps \<Rightarrow> 'w env \<Rightarrow> string \<Rightarrow> inst kobj \<Rightarrow> cloud_config \<Rightarrow> (string \<rightharpoonup> string) option \<Rightarrow>
     service_account kobj \<Rightarrow> ('w world \<times> inst prog_locals, gcp_instance kobj) act" where
  "gcp_instance_step d e zone x cc meta sa =
     (let dc = st_client (e_strategy e) in
      bindA (lift (wrapE ''failed to create gcp instance''
        (create_or_patch_as d dc gcp_instance_c (named [] (instance_name (om_uid (md x))) zero_gcp_instance)
          (fill_gcp_instance d e zone x cc meta sa)))) (\<lambda>g.
      if is_ready d (gi_conditions (pl g)) \<and> gi_current_status (pl g) = Some ''STOPPING'' then
        bindA (lift (now d)) (\<lambda>t.
        bindA (lift (wrapE ''failed to update instance with retry annotation'' (update_as dc gcp_instance_c
          (g\<lparr>md := (md g)\<lparr>om_annotations := (om_annotations (md g))(retry_annotation \<mapsto> t)\<rparr>\<rparr>)))) (\<lambda>_.
        fail (ErrorText ''instance created in STOPPING state, retrying create'')))
      else
        bindA locals (\<lambda>l.
        bindA (lift (sync_power_state d (e_up e) (lv_obj l) g)) (\<lambda>(x', err).
        bindA (assign (\<lambda>l. l\<lparr>lv_obj := x'\<rparr>)) (\<lambda>_.
        case err of
          None \<Rightarrow> ret g
        | Some er \<Rightarrow> fail (Wrapped ''failed to sync instance power state'' er))))))"

section \<open>Publishing the instance\<close>

definition update_inst :: "(inst \<Rightarrow> inst) \<Rightarrow> ('s \<times> inst prog_locals, unit) act" where
  "update_inst f = assign (\<lambda>l. l\<lparr>lv_obj := (lv_obj l)\<lparr>pl := f (pl (lv_obj l))\<rparr>\<rparr>)"

definition nic_status_of :: "at_nic \<Rightarrow> nic_status" where
  "nic_status_of a = \<lparr>ns_network_ip = an_network_ip a,
     ns_external_ip = fold (\<lambda>n acc. case n of None \<Rightarrow> acc | Some ip \<Rightarrow> Some ip) (an_natips a) None\<rparr>"

text \<open>\<open>instance.Status.NetworkInterfaces[i] = interfaceStatus\<close>\<close>

definition set_nic_status :: "nat \<times> at_nic \<Rightarrow> ('s \<times> inst prog_locals, unit) act" where
  "set_nic_status ia =
     bindA locals (\<lambda>l.
     if fst ia < length (i_nic_status (pl (lv_obj l))) then
       update_inst (\<lambda>i. i\<lparr>i_nic_status := (i_nic_status i)[fst ia := nic_status_of (snd ia)]\<rparr>)
     else panic ''index out of range'')"

definition publish_programmed :: "'w deps \<Rightarrow> gcp_instance kobj \<Rightarrow> ('s \<times> inst prog_locals, unit) act" where
  "publish_programmed d g =
     bindA (set_cond (\<lambda>c. c\<lparr>c_status := CTrue, c_reason := k_instance_programmed_reason (d_consts d),
       c_message := ''Instance has been programmed''\<rparr>)) (\<lambda>_.
     bindA locals (\<lambda>l.
     case i_controller (pl (lv_obj l)) of
       None \<Rightarrow> panic ''nil pointer dereference''
     | Some ic \<Rightarrow>
         bindA (update_inst (\<lambda>i. i\<lparr>i_observed_hash := Some (ic_template_hash ic),
           i_nic_status := (if i_nic_status i = []
             then replicate (length (gi_at_nics (pl g))) \<lparr>ns_network_ip = None, ns_external_ip = None\<rparr>
             else i_nic_status i)\<rparr>)) (\<lambda>_.
         eachA set_nic_status (enumerate 0 (gi_at_nics (pl g))))))"

section \<open>reconcileInstance\<close>

text \<open>The body under the deferred status update.\<close>

definition instance_program ::
  "'w deps \<Rightarrow> 'w env \<Rightarrow> string \<Rightarrow> inst kobj \<Rightarrow> cloud_config \<Rightarrow> (string \<rightharpoonup> string) option \<Rightarrow>
     ('w world \<times> inst prog_locals, ctrl_result) act" where
  "instance_program d e zone x cc meta =
     bindA (lift (wrapE ''failed reconciling network interface network policies''
       (network_policies d (e_cfg e) (e_cluster e) (e_project e) (e_up e) (st_client (e_strategy e))
         (e_workload e) (e_deployment e)))) (\<lambda>_.
     bindA (lift (workload_service_account d e)) (\<lambda>sa.
     let failed = d_get_condition d (sa_conditions (pl sa)) ''LastAsyncOperation'' in
     if c_reason failed = ''AsyncCreateFailure'' then
       (let msg = ''Service account failed to create: '' @ c_message failed in
        bindA (set_cond (\<lambda>c. c\<lparr>c_reason := ''ServiceAccountFailedToCreate'', c_message := msg\<rparr>)) (\<lambda>_.
        fail (ErrorText msg)))
     else
     bindA (lift (wrapE ''failed reconciling configmaps'' (build_config_maps (e_up e) x cc))) (\<lambda>cc1.
     bindA (reconcile_secrets d (e_cfg e) (e_cluster e) (e_project e) (e_up e) (e_strategy e) cc1
       (e_workload e) x sa) (\<lambda>r. case r of
       None \<Rightarrow> ret Done
     | Some cc2 \<Rightarrow>
         if om_annotations (md sa) (k_external_create_succeeded (d_consts d)) = None then
           bindA (set_cond (\<lambda>c. c\<lparr>c_reason := ''ProvisioningServiceAccount'',
             c_message := ''Service account is being provisioned for the workload''\<rparr>)) (\<lambda>_. ret Done)
         else
         bindA (gcp_instance_step d e zone x cc2 meta sa) (\<lambda>g.
         if \<not> is_ready d (gi_conditions (pl g)) then
           bindA (set_cond (\<lambda>c. c\<lparr>c_reason := ''ProvisioningProviderInstance'',
             c_message := ''GCP instance is being provisioned''\<rparr>)) (\<lambda>_. ret Done)
         else bindA (publish_programmed d g) (\<lambda>_. ret Done))))))"

definition instance_condition0 :: "'w deps \<Rightarrow> inst kobj \<Rightarrow> condition" where
  "instance_condition0 d x = \<lparr>c_type = k_instance_programmed (d_consts d), c_status = CFalse,
     c_reason = k_instance_pending (d_consts d), c_generation = om_generation (md x),
     c_message = ''Instance resources are not ready''\<rparr>"

definition publish_instance :: "'w deps \<Rightarrow> 's client \<Rightarrow> inst prog_locals \<Rightarrow> goerr option \<Rightarrow> ('s, goerr option) act" where
  "publish_instance d c = publish_condition d c instance_c i_conditions (\<lambda>cs i. i\<lparr>i_conditions := cs\<rparr>)"

definition reconcile_instance ::
  "'w deps \<Rightarrow> 'w env \<Rightarrow> inst kobj \<Rightarrow> cloud_config \<Rightarrow> (string \<rightharpoonup> string) option \<Rightarrow> ('w world, ctrl_result) act" where
  "reconcile_instance d e x cc meta = (case i_location (pl x) of
     None \<Rightarrow> panic ''nil pointer dereference''
   | Some ref \<Rightarrow>
       bindA (wrapE ''failed fetching location'' (get_as (e_up e) location_c ref)) (\<lambda>loc.
       case loc_gcp (pl loc) of
         None \<Rightarrow> fail (ErrorText ''attached location is not for the GCP provider'')
       | Some gl \<Rightarrow> defer_named \<lparr>lv_obj = x, lv_cond = instance_condition0 d x\<rparr>
           (publish_instance d (e_up e)) (instance_program d e (gl_zone gl) x cc meta)))"

section \<open>The runtimes and Reconcile\<close>

definition sandbox_instance :: "'w deps \<Rightarrow> 'w env \<Rightarrow> inst kobj \<Rightarrow> container list \<Rightarrow> ('w world, ctrl_result) act" where
  "sandbox_instance d e x cs =
     bindA (sandbox_pod (pl x) cs) (\<lambda>r. case r of
       None \<Rightarrow> ret Done
     | Some pod \<Rightarrow>
         bindA (wrapE ''failed to marshal pod spec'' (pure (d_encode_pod d pod))) (\<lambda>bytes.
         reconcile_instance d e
           (x\<lparr>pl := (pl x)\<lparr>i_volumes := sandbox_boot_volume # i_volumes (pl x)\<rparr>\<rparr>)
           (sandbox_cloud_config bytes) None))"

definition vm_instance :: "'w deps \<Rightarrow> 'w env \<Rightarrow> inst kobj \<Rightarrow> vol_attachment list \<Rightarrow> ('w world, ctrl_result) act" where
  "vm_instance d e x as = (case vm_cloud_config d (pl x) as of
     None \<Rightarrow> ret Done
   | Some cc \<Rightarrow> reconcile_instance d e x cc (Some (vm_metadata d x)))"

text \<open>From the gates on: the owners of the instance, and its runtime.\<close>

definition instance_run ::
  "'w deps \<Rightarrow> gcp_provider \<Rightarrow> request \<Rightarrow> string \<Rightarrow> inst kobj \<Rightarrow> ('w world, ctrl_result) act" where
  "instance_run d cfg rq project x =
     (let cluster = rq_cluster rq; c = upstream d cluster; ns = om_namespace (md x) in
      case d_controller_of d (om_owners (md x)) of
        None \<Rightarrow> fail (ErrorText ''instance is not owned by a workload deployment'')
      | Some dref \<Rightarrow>
          bindA (wrapE ''failed fetching workload deployment'' (get_as c deployment_c (key_of ns (or_name dref)))) (\<lambda>dep.
          case d_controller_of d (om_owners (md dep)) of
            None \<Rightarrow> fail (ErrorText ''workload deployment is not owned by a workload'')
          | Some wref \<Rightarrow>
              bindA (wrapE ''failed fetching workload'' (get_as c workload_c (key_of ns (or_name wref)))) (\<lambda>wl.
              let e = \<lparr>e_cfg = cfg, e_cluster = cluster, e_project = project, e_up = c,
                    e_strategy = new_mapped_strategy d cluster (dm_labels (gp_downstream cfg)),
                    e_workload = wl, e_deployment = dep\<rparr> in
              case rt_sandbox (i_runtime (pl x)) of
                Some cs \<Rightarrow> sandbox_instance d e x cs
              | None \<Rightarrow> (case rt_vm (i_runtime (pl x)) of
                  Some as \<Rightarrow> vm_instance d e x as
                | None \<Rightarrow> ret Done))))"

definition instance_reconcile :: "'w deps \<Rightarrow> gcp_provider \<Rightarrow> string \<Rightarrow> request \<Rightarrow> ('w world, ctrl_result) act" where
  "instance_reconcile d cfg cls rq =
     (let cluster = rq_cluster rq; c = upstream d cluster in
      bindA (get_cluster d cluster) (\<lambda>_.
      bindA (tryA (get_as c instance_c (rq_key rq))) (\<lambda>r. case r of
        Inl e \<Rightarrow> if d_is_not_found d e then ret Done else fail e
      | Inr x \<Rightarrow> (case i_location (pl x) of
          None \<Rightarrow> ret Done
        | Some ref \<Rightarrow>
            bindA (get_location c ref cls) (\<lambda>(loc, process).
            if \<not> process then ret Done
            else bindA (gcp_of (pl loc)) (\<lambda>gl.
            if om_deleted (md x) \<noteq> None then
              (if has_finalizer d x gcp_infra_finalizer
               then bindA (instance_finalize d cluster x) (\<lambda>_. ret Done) else ret Done)
            else if \<not> has_finalizer d x gcp_infra_finalizer then
              bindA (update_as c instance_c (with_finalizer d x gcp_infra_finalizer)) (\<lambda>_. ret Done)
            else (case i_controller (pl x) of
                None \<Rightarrow> panic ''nil pointer dereference''
              | Some ic \<Rightarrow>
                  if ic_gates ic \<noteq> [] then ret Done
                  else instance_run d cfg rq (gl_project gl) x)))))))"

section \<open>The contract\<close>

text \<open>What \<open>Reconcile\<close> passes along for a request.\<close>

definition env_for :: "'w deps \<Rightarrow> request \<Rightarrow> 'w env \<Rightarrow> bool" where
  "env_for d rq e \<longleftrightarrow> e_cluster e = rq_cluster rq \<and> e_up e = upstream d (rq_cluster rq) \<and>
     e_strategy e = new_mapped_strategy d (rq_cluster rq) (dm_labels (gp_downstream (e_cfg e)))"

lemma env_forD:
  assumes "env_for d rq e"
  shows "e_up e = upstream d (rq_cluster rq)"
    "e_strategy e = new_mapped_strategy d (rq_cluster rq) (dm_labels (gp_downstream (e_cfg e)))"
    "st_client (e_strategy e) = mapped_client d (new_mapped d (rq_cluster rq) (dm_labels (gp_downstream (e_cfg e))))"
  using assms by (simp_all add: env_for_def new_mapped_strategy_def mapped_strategy_def)

lemma emits_build_volumes [hist_intros, intro, simp]: "emits tr P (build_volumes d cfg i g)"
  unfolding build_volumes_def boot_disk_step_def Let_def by (intro hist_intros)

lemma plain_fill_gcp_instance:
  assumes "env_for d rq e"
  shows "emits trace (plain ls k rq) (fill_gcp_instance d e zone x cc meta sa g)"
  unfolding fill_gcp_instance_def env_forD(1) [OF assms]
  by (intro hist_intros plain_build_nics)

lemma fill_gcp_instance_key:
  "fill_gcp_instance d e zone x cc meta sa g s = (Ok g', s') \<Longrightarrow> obj_key g' = obj_key g"
  by (auto simp: fill_gcp_instance_def Let_def obj_key_def with_finalizer_def elim!: bindA_OkE split: option.splits)

lemma plain_workload_service_account:
  assumes "library_laws d" and "env_for d rq e"
  shows "emits trace (plain (dm_labels (gp_downstream (e_cfg e))) k rq) (workload_service_account d e)"
  unfolding workload_service_account_def Let_def env_forD(3) [OF assms(2)]
  by (intro hist_intros plain_get_or_zero)
    (auto intro!: plain_mapped_create library_lawsD [OF assms(1)])

lemma plain_build_config_maps:
  "emits trace (plain ls k rq) (build_config_maps (upstream d (rq_cluster rq)) x cc)"
  unfolding build_config_maps_def by (intro hist_intros plain_get_as)

lemma stays_sync:
  fixes d :: "'w deps" and g :: "gcp_instance kobj"
  assumes "server_law d"
  shows "stays (\<lambda>l. obj_key (lv_obj l) = rq_key rq) trace (plain ls KInstance rq)
    (bindA locals (\<lambda>l :: inst prog_locals.
       bindA (lift (sync_power_state d (upstream d (rq_cluster rq)) (lv_obj l) g)) (\<lambda>(x', err).
       bindA (assign (\<lambda>l. l\<lparr>lv_obj := x'\<rparr>)) (\<lambda>_.
       case err of None \<Rightarrow> ret g | Some er \<Rightarrow> fail (Wrapped msg er)))))"
proof (rule stays_locals)
  fix l0 :: "inst prog_locals"
  assume key: "obj_key (lv_obj l0) = rq_key rq"
  let ?sync = "sync_power_state d (upstream d (rq_cluster rq)) (lv_obj l0) g"
  let ?k = "\<lambda>(x', err). bindA (assign (\<lambda>l :: inst prog_locals. l\<lparr>lv_obj := x'\<rparr>)) (\<lambda>_.
       case err of None \<Rightarrow> ret g | Some er \<Rightarrow> fail (Wrapped msg er))"
  show "stays (\<lambda>l. obj_key (lv_obj l) = rq_key rq) trace (plain ls KInstance rq) (bindA (lift ?sync) ?k)"
    unfolding stays_def
  proof (intro allI impI)
    fix s l r s' l'
    assume run: "bindA (lift ?sync) ?k (s, l) = (r, (s', l'))" and l: "obj_key (lv_obj l) = rq_key rq"
    obtain r1 s1 where sync: "?sync s = (r1, s1)" by fastforce
    from emitsE [OF plain_sync_power_state [OF key, of ls d g] sync]
    obtain es where es: "trace s1 = trace s @ es" "\<forall>e \<in> set es. plain ls KInstance rq e" .
    show "obj_key (lv_obj l') = rq_key rq \<and>
        (\<exists>es. trace s' = trace s @ es \<and> (\<forall>e \<in> set es. plain ls KInstance rq e))"
    proof (cases r1)
      case (Ok p)
      obtain x' err where p: "p = (x', err)" by (cases p)
      from sync Ok p have "obj_key x' = obj_key (lv_obj l0)"
        using sync_power_state_key [OF assms] by simp
      with run sync Ok p key es show ?thesis
        by (auto simp: bindA_run lift_run apply_simps split: option.splits)
    qed (use run sync es l in \<open>auto simp: bindA_run lift_run\<close>)
  qed
qed

lemma stays_gcp_instance_step:
  assumes "library_laws d" and "env_for d rq e"
  shows "stays (\<lambda>l. obj_key (lv_obj l) = rq_key rq) trace (plain (dm_labels (gp_downstream (e_cfg e))) KInstance rq)
    (gcp_instance_step d e zone x cc meta sa)"
proof -
  let ?ls = "dm_labels (gp_downstream (e_cfg e))"
  have patch: "emits trace (plain ?ls KInstance rq) (create_or_patch_as d
      (mapped_client d (new_mapped d (rq_cluster rq) ?ls)) gcp_instance_c y (fill_gcp_instance d e zone x cc meta sa))" for y
    by (rule plain_create_or_patch [OF assms(1) codecs_ok(16) fill_gcp_instance_key plain_fill_gcp_instance [OF assms(2)]])
  have update: "emits trace (plain ?ls KInstance rq)
      (update_as (mapped_client d (new_mapped d (rq_cluster rq) ?ls)) gcp_instance_c y)" for y
    by (auto simp: downstream_def intro!: emits_update_as emits_call)
  show ?thesis
    unfolding gcp_instance_step_def Let_def env_forD(3) [OF assms(2)] env_forD(1) [OF assms(2)]
    by (intro stays_bind stays_if stays_sync library_lawsD [OF assms(1)]
        stays_emits [where m = "lift m" for m] stays_emits [where m = "fail m" for m]
        keeps_basic emits_lift emits_wrapE patch update emits_now emits_fail)
qed

lemma keeps_update_inst [keeps_intros]: "keeps (\<lambda>l. obj_key (lv_obj l) = key) (update_inst f)"
  unfolding update_inst_def by (intro keeps_assign) (simp add: obj_key_def)

lemma emits_update_inst [hist_intros, simp, intro]: "emits (\<lambda>(s, l). tr s) P (update_inst f)"
  by (simp add: update_inst_def)

lemma keeps_forA: "(\<And>x l. keeps I (f x l)) \<Longrightarrow> keeps I (forA f xs l)"
  by (induction xs arbitrary: l) auto

lemma stays_publish_programmed:
  "stays (\<lambda>l. obj_key (lv_obj l) = key) tr P (publish_programmed d g)"
  unfolding publish_programmed_def set_nic_status_def
  by (rule stays_emits)
    (auto simp: eachA_def intro!: keeps_intros keeps_forA hist_intros)

lemma keeps_cond_key: "keeps (\<lambda>l. obj_key (lv_obj l) = key) (set_cond f)"
  by (rule keeps_set_cond) simp

lemma stays_instance_program:
  assumes "library_laws d" and "env_for d rq e"
  shows "stays (\<lambda>l. obj_key (lv_obj l) = rq_key rq) trace (plain (dm_labels (gp_downstream (e_cfg e))) KInstance rq)
    (instance_program d e zone x cc meta)"
  unfolding instance_program_def Let_def env_forD(1,3) [OF assms(2)]
  by (intro stays_bind stays_if stays_case_option stays_lift stays_basic stays_publish_programmed
      stays_gcp_instance_step [OF assms] stays_emits [OF keeps_cond_key emits_set_cond]
      stays_emits [OF keeps_reconcile_secrets] emits_wrapE plain_network_policies
      plain_workload_service_account [OF assms] plain_build_config_maps assms(1))
    (auto simp: env_forD(2) [OF assms(2)] intro!: plain_reconcile_secrets assms(1))

lemma plain_reconcile_instance:
  assumes "library_laws d" and "env_for d rq e" and "obj_key x = rq_key rq"
  shows "emits trace (plain (dm_labels (gp_downstream (e_cfg e))) KInstance rq) (reconcile_instance d e x cc meta)"
proof -
  let ?P = "plain (dm_labels (gp_downstream (e_cfg e))) KInstance rq"
  have "emits trace ?P (defer_named \<lparr>lv_obj = x, lv_cond = instance_condition0 d x\<rparr>
      (publish_instance d (upstream d (rq_cluster rq))) (instance_program d e zone x cc meta))" for zone
    by (rule emits_defer_named [OF stays_instance_program [OF assms(1,2)]])
      (use assms(3) in \<open>auto simp: publish_instance_def obj_key_def
        intro!: emits_publish_condition plain_status_update\<close>)
  then show ?thesis
    unfolding reconcile_instance_def env_forD(1) [OF assms(2)]
    by (intro hist_intros plain_get_as)
qed

lemma plain_instance_run:
  assumes "library_laws d" and "obj_key x = rq_key rq"
  shows "emits trace (plain (dm_labels (gp_downstream cfg)) KInstance rq) (instance_run d cfg rq project x)"
proof -
  let ?P = "plain (dm_labels (gp_downstream cfg)) KInstance rq"
  have inner: "emits trace ?P (reconcile_instance d e y cc meta)"
    if "env_for d rq e" "e_cfg e = cfg" "obj_key y = rq_key rq" for e y cc meta
    using plain_reconcile_instance [OF assms(1) that(1) that(3)] that(2) by simp
  have pod: "emits trace ?P (sandbox_pod i cs)" for i cs
    unfolding sandbox_pod_def sandbox_container_def sandbox_mount_def mount_disk_def disk_populator_of_def
      pod_volume_step_def Let_def
    by (intro hist_intros)
  have env: "env_for d rq \<lparr>e_cfg = cfg, e_cluster = rq_cluster rq, e_project = project, e_up = upstream d (rq_cluster rq),
      e_strategy = new_mapped_strategy d (rq_cluster rq) (dm_labels (gp_downstream cfg)),
      e_workload = wl, e_deployment = dep\<rparr>" for wl dep
    by (simp add: env_for_def)
  have "emits trace ?P (sandbox_instance d e x cs)" "emits trace ?P (vm_instance d e x as)"
    if "env_for d rq e" "e_cfg e = cfg" for e cs as
    unfolding sandbox_instance_def vm_instance_def
    by (intro hist_intros pod inner that; use assms(2) in \<open>simp add: obj_key_def\<close>)+
  with env show ?thesis
    unfolding instance_run_def Let_def by (intro hist_intros plain_get_as) auto
qed

lemma instance_scoped:
  assumes "library_laws d"
  shows "emits trace (in_scope (dm_labels (gp_downstream cfg)) KInstance rq) (instance_reconcile d cfg cls rq)"
proof -
  let ?P = "in_scope (dm_labels (gp_downstream cfg)) KInstance rq"
  have "emits trace ?P (update_as (upstream d (rq_cluster rq)) instance_c y)" if "obj_key y = rq_key rq" for y
    using that by (auto simp: upstream_def intro!: emits_update_as emits_call)
  note update = this
  show ?thesis
    unfolding instance_reconcile_def Let_def
    by (rule emits_bind [OF emits_get_cluster], rule emits_requested [OF library_lawsD(8) [OF assms]],
        rule plain_scoped [OF plain_get_as(1)])
      (auto intro!: emits_bind emits_case_option update plain_scoped [OF plain_location]
        instance_finalize_scoped plain_scoped [OF plain_instance_run [OF assms]])
qed

lemma instance_clean:
  assumes "library_laws d"
  shows "hist trace (\<lambda>_ es. clean_removals d es) (instance_reconcile d cfg cls rq)"
proof -
  have add: "hist trace (\<lambda>_ es. clean_removals d es) (update_as (upstream d (rq_cluster rq)) instance_c y)"
    if "om_deleted (md y) = None" for y
    using that by (intro guarded_emits emits_update_as) (auto simp: upstream_def intro!: emits_call)
  have run: "hist trace (\<lambda>_ es. clean_removals d es) (instance_run d cfg rq project x)" for project x
  proof -
    have "instance_run d cfg rq project x = instance_run d cfg (rq\<lparr>rq_key := obj_key x\<rparr>) project x"
      by (simp add: instance_run_def)
    moreover have "emits trace (plain (dm_labels (gp_downstream cfg)) KInstance (rq\<lparr>rq_key := obj_key x\<rparr>))
        (instance_run d cfg (rq\<lparr>rq_key := obj_key x\<rparr>) project x)"
      by (rule plain_instance_run [OF assms]) simp
    ultimately show ?thesis using plain_clean by metis
  qed
  show ?thesis
    unfolding instance_reconcile_def Let_def
    by (intro clean_seq guarded_emits [OF emits_get_cluster] guarded_emits [OF emits_tryA])
      (auto intro!: clean_seq plain_clean [OF plain_location] guarded_emits [OF emits_gcp_of]
        instance_finalize_clean [OF assms] add run emits_mono [OF plain_get_as(1)] hist_panic
        split: sum.splits option.splits)
qed

interpretation instances: reconciler d "instance_reconcile d cfg cls" KInstance "dm_labels (gp_downstream cfg)"
  for d :: "'w deps" and cfg cls
  by unfold_locales (blast intro: instance_scoped instance_clean)+

end
