(* ===== verification/Operator_System.thy ===== *)
theory Operator_System
  imports Workload_Controller Network_Controller Network_Context_Controller Subnet_Controller
    Instance_Controller
begin

text \<open>
  The operator as a whole: its five controllers reconcile requests concurrently, against API servers
  that change in between as they like. A log of the operator interleaves the calls of any number of
  reconciliations, each from any state of the servers; what the contract says of one reconciliation
  holds in every log.
\<close>

section \<open>The controllers\<close>

datatype controller = WorkloadCtl | NetworkCtl | NetworkContextCtl | SubnetCtl | InstanceCtl

fun controller_kind :: "controller \<Rightarrow> kind" where
  "controller_kind WorkloadCtl = KWorkload"
| "controller_kind NetworkCtl = KNetwork"
| "controller_kind NetworkContextCtl = KContext"
| "controller_kind SubnetCtl = KSubnet"
| "controller_kind InstanceCtl = KInstance"

fun dispatch ::
  "'w deps \<Rightarrow> gcp_provider \<Rightarrow> string \<Rightarrow> controller \<Rightarrow> request \<Rightarrow> ('w world, ctrl_result) act" where
  "dispatch d cfg cls WorkloadCtl rq = workload_reconcile d cfg rq"
| "dispatch d cfg cls NetworkCtl rq = network_reconcile d rq"
| "dispatch d cfg cls NetworkContextCtl rq = context_reconcile d cfg cls rq"
| "dispatch d cfg cls SubnetCtl rq = subnet_reconcile d cfg cls rq"
| "dispatch d cfg cls InstanceCtl rq = instance_reconcile d cfg cls rq"

abbreviation managed_labels :: "gcp_provider \<Rightarrow> (string \<rightharpoonup> string)" where
  "managed_labels cfg \<equiv> dm_labels (gp_downstream cfg)"

interpretation operator: reconciler d "dispatch d cfg cls c" "controller_kind c" "managed_labels cfg"
  for d :: "'w deps" and cfg cls c
proof (cases c)
  case WorkloadCtl
  have "dispatch d cfg cls c = workload_reconcile d cfg" by (simp add: fun_eq_iff WorkloadCtl)
  then show "reconciler d (dispatch d cfg cls c) (controller_kind c) (managed_labels cfg)"
    using workload.reconciler_axioms by (simp add: WorkloadCtl)
next
  case NetworkCtl
  have "dispatch d cfg cls c = network_reconcile d" by (simp add: fun_eq_iff NetworkCtl)
  then show "reconciler d (dispatch d cfg cls c) (controller_kind c) (managed_labels cfg)"
    using network.reconciler_axioms by (simp add: NetworkCtl)
next
  case NetworkContextCtl
  have "dispatch d cfg cls c = context_reconcile d cfg cls" by (simp add: fun_eq_iff NetworkContextCtl)
  then show "reconciler d (dispatch d cfg cls c) (controller_kind c) (managed_labels cfg)"
    using netcontext.reconciler_axioms by (simp add: NetworkContextCtl)
next
  case SubnetCtl
  have "dispatch d cfg cls c = subnet_reconcile d cfg cls" by (simp add: fun_eq_iff SubnetCtl)
  then show "reconciler d (dispatch d cfg cls c) (controller_kind c) (managed_labels cfg)"
    using subnet.reconciler_axioms by (simp add: SubnetCtl)
next
  case InstanceCtl
  have "dispatch d cfg cls c = instance_reconcile d cfg cls" by (simp add: fun_eq_iff InstanceCtl)
  then show "reconciler d (dispatch d cfg cls c) (controller_kind c) (managed_labels cfg)"
    using instances.reconciler_axioms by (simp add: InstanceCtl)
qed

section \<open>Interleavings\<close>

lemma shuffle_split:
  assumes "pre @ zs \<in> shuffles xs ys"
  shows "\<exists>xp xq yp yq. xs = xp @ xq \<and> ys = yp @ yq \<and> pre \<in> shuffles xp yp \<and> zs \<in> shuffles xq yq"
  using assms
proof (induction pre arbitrary: xs ys)
  case Nil
  then show ?case by (intro exI [of _ "[]"] exI [of _ xs] exI [of _ ys]) auto
next
  case (Cons p pre)
  then consider (left) xs' where "xs = p # xs'" "pre @ zs \<in> shuffles xs' ys"
    | (right) ys' where "ys = p # ys'" "pre @ zs \<in> shuffles xs ys'"
    by (auto simp: Cons_in_shuffles_iff neq_Nil_conv)
  then show ?case
  proof cases
    case left
    from Cons.IH [OF left(2)] obtain xp xq yp yq where "xs' = xp @ xq" "ys = yp @ yq"
      "pre \<in> shuffles xp yp" "zs \<in> shuffles xq yq" by blast
    with left(1) show ?thesis
      by (intro exI [of _ "p # xp"] exI [of _ xq] exI [of _ yp] exI [of _ yq])
        (auto intro: Cons_in_shuffles_leftI)
  next
    case right
    from Cons.IH [OF right(2)] obtain xp xq yp yq where "xs = xp @ xq" "ys' = yp @ yq"
      "pre \<in> shuffles xp yp" "zs \<in> shuffles xq yq" by blast
    with right(1) show ?thesis
      by (intro exI [of _ xp] exI [of _ xq] exI [of _ "p # yp"] exI [of _ yq])
        (auto intro: Cons_in_shuffles_rightI)
  qed
qed

text \<open>Evidence survives interleaving: it only ever needs events that come before.\<close>

lemma guarded_shuffle:
  assumes up: "\<And>e. upward (E e)" and xs: "guarded R E xs" and ys: "guarded R E ys"
    and zs: "zs \<in> shuffles xs ys"
  shows "guarded R E zs"
  unfolding guarded_def
proof (intro allI impI)
  fix pre e post
  assume split: "zs = pre @ e # post" and e: "R e"
  with zs have "pre @ e # post \<in> shuffles xs ys" by simp
  from shuffle_split [OF this] obtain xp xq yp yq where
    parts: "xs = xp @ xq" "ys = yp @ yq" "pre \<in> shuffles xp yp" "e # post \<in> shuffles xq yq"
    by blast
  from parts(3) have sub: "set xp \<subseteq> set pre" "set yp \<subseteq> set pre" by (auto dest: set_shuffles)
  from parts(4) consider xq' where "xq = e # xq'" | yq' where "yq = e # yq'"
    by (auto simp: Cons_in_shuffles_iff neq_Nil_conv)
  then show "E e (set pre)"
  proof cases
    case 1
    with xs parts(1) e have "E e (set xp)" unfolding guarded_def by blast
    with sub show ?thesis by (auto elim: upwardD [OF up])
  next
    case 2
    with ys parts(2) e have "E e (set yp)" unfolding guarded_def by blast
    with sub show ?thesis by (auto elim: upwardD [OF up])
  qed
qed

section \<open>Logs\<close>

record entry =
  en_controller :: controller
  en_request :: request
  en_event :: event

definition entries :: "controller \<Rightarrow> request \<Rightarrow> event list \<Rightarrow> entry list" where
  "entries c rq = map (\<lambda>e. \<lparr>en_controller = c, en_request = rq, en_event = e\<rparr>)"

inductive system_log :: "'w deps \<Rightarrow> gcp_provider \<Rightarrow> string \<Rightarrow> entry list \<Rightarrow> bool"
  for d :: "'w deps" and cfg :: gcp_provider and cls :: string where
  start: "system_log d cfg cls []"
| reconcile: "system_log d cfg cls h \<Longrightarrow> dispatch d cfg cls c rq w = (r, w') \<Longrightarrow>
    trace w' = trace w @ es \<Longrightarrow> h' \<in> shuffles h (entries c rq es) \<Longrightarrow> system_log d cfg cls h'"

abbreviation entry_removal :: "entry \<Rightarrow> bool" where
  "entry_removal x \<equiv> removal (en_event x)"

definition entry_evidence :: "'w deps \<Rightarrow> entry \<Rightarrow> entry set \<Rightarrow> bool" where
  "entry_evidence d x A = evidence d (en_event x) (en_event ` A)"

lemma upward_entry_evidence: "upward (entry_evidence d x)"
  by (rule upwardI) (auto simp: entry_evidence_def elim!: upwardD [OF upward_evidence])

lemma guarded_entries:
  assumes "clean_removals d es" shows "guarded entry_removal (entry_evidence d) (entries c rq es)"
  unfolding guarded_def
proof (intro allI impI)
  fix pre x post
  assume "entries c rq es = pre @ x # post" and x: "entry_removal x"
  then have "map en_event (pre @ x # post) = es"
    by (metis (no_types, lifting) entries_def entry.select_convs(3) list.map_comp list.map_ident_strong comp_apply)
  then have "es = map en_event pre @ en_event x # map en_event post" by simp
  with assms x show "entry_evidence d x (set pre)"
    unfolding guarded_def entry_evidence_def by (metis set_map)
qed

lemma system_log_guarded:
  assumes "library_laws d" and "system_log d cfg cls h"
  shows "guarded entry_removal (entry_evidence d) h"
  using assms(2)
proof induction
  case (reconcile h c rq w r w' es h')
  from operator.run [OF assms(1) reconcile.hyps(2)] obtain es' where
    "trace w' = trace w @ es'" "clean_removals d es'" by metis
  with reconcile.hyps(3) have "clean_removals d es" by simp
  from guarded_shuffle [OF upward_entry_evidence reconcile.IH guarded_entries [OF this] reconcile.hyps(4)]
  show ?case .
qed simp

lemma system_log_scoped:
  assumes "library_laws d" and "system_log d cfg cls h"
  shows "\<forall>x \<in> set h. in_scope (managed_labels cfg) (controller_kind (en_controller x)) (en_request x) (en_event x)"
  using assms(2)
proof induction
  case (reconcile h c rq w r w' es h')
  from operator.run [OF assms(1) reconcile.hyps(2)] obtain es' where
    "trace w' = trace w @ es'" "\<forall>e \<in> set es'. in_scope (managed_labels cfg) (controller_kind c) rq e" by metis
  with reconcile.hyps(3) have "\<forall>e \<in> set es. in_scope (managed_labels cfg) (controller_kind c) rq e" by simp
  with reconcile.IH set_shuffles [OF reconcile.hyps(4)] show ?case by (auto simp: entries_def)
qed simp

inductive_cases system_logE: "system_log d cfg cls h"

end
