(* ===== verification/Enqueue_Owner.thy ===== *)
theory Enqueue_Owner
  imports Cleanup Scenarios
begin

text \<open>
  \<open>internal/downstreamclient/enqueue_upstream_owner.go\<close>: the event handler that turns an event on a
  downstream object into a request for the upstream object named in its annotations, the annotations
  \<open>SetControllerReference\<close> writes. The map the Go code collects requests in is a set here: the order
  in which its keys reach the work queue is not specified.
\<close>

section \<open>The owner type\<close>

record group_kind =
  gk_group :: string
  gk_kind :: string

text \<open>
  \<open>parseOwnerTypeGroupKind\<close>. \<open>kinds\<close> is the answer of the scheme's \<open>ObjectKinds\<close> for the owner type and
  \<open>text\<close> the formatted operands of the error message.
\<close>

definition parse_owner_type :: "goerr + group_kind list \<Rightarrow> string \<Rightarrow> goerr + group_kind" where
  "parse_owner_type kinds text = (case kinds of
     Inl e \<Rightarrow> Inl e
   | Inr ks \<Rightarrow> if length ks \<noteq> 1 then Inl (ErrorText (''expected exactly 1 kind for OwnerType '' @ text))
       else Inr (hd ks))"

section \<open>Requests\<close>

text \<open>\<open>strings.TrimPrefix(strings.ReplaceAll(name, "_", "/"), "cluster-")\<close>\<close>

definition decode_cluster :: "string \<Rightarrow> string" where
  "decode_cluster s = trim_prefix (replace_all s (CHR ''_'') (CHR ''/'')) ''cluster-''"

definition owner_request :: "group_kind \<Rightarrow> (string \<rightharpoonup> string) \<Rightarrow> request set \<Rightarrow> request set" where
  "owner_request gk ann result =
     (if map_get ann upstream_kind_key = gk_kind gk \<and> map_get ann upstream_group_key = gk_group gk
      then insert \<lparr>rq_cluster = decode_cluster (map_get ann upstream_cluster_key),
        rq_key = key_of (map_get ann upstream_namespace_key) (map_get ann upstream_name_key)\<rparr> result
      else result)"

datatype owner_event = CreateEvent obj | UpdateEvent obj obj | DeleteEvent obj | GenericEvent obj

text \<open>What the four methods of the handler add to the work queue.\<close>

fun enqueue_owner :: "group_kind \<Rightarrow> owner_event \<Rightarrow> request set" where
  "enqueue_owner gk (CreateEvent x) = owner_request gk (om_annotations (md x)) {}"
| "enqueue_owner gk (UpdateEvent old new) =
     owner_request gk (om_annotations (md new)) (owner_request gk (om_annotations (md old)) {})"
| "enqueue_owner gk (DeleteEvent x) = owner_request gk (om_annotations (md x)) {}"
| "enqueue_owner gk (GenericEvent x) = owner_request gk (om_annotations (md x)) {}"

text \<open>\<open>TypedEnqueueRequestForUpstreamOwner\<close>: the handler, or the error it panics with.\<close>

definition upstream_owner_handler ::
  "goerr + group_kind list \<Rightarrow> string \<Rightarrow> goerr + (owner_event \<Rightarrow> request set)" where
  "upstream_owner_handler kinds text = (case parse_owner_type kinds text of
     Inl e \<Rightarrow> Inl e | Inr gk \<Rightarrow> Inr (enqueue_owner gk))"

section \<open>Decoding what was encoded\<close>

lemma decode_encode_cluster:
  "decode_cluster (encode_cluster c) = replace_all c (CHR ''_'') (CHR ''/'')"
proof -
  have "replace_all (replace_all c (CHR ''/'') (CHR ''_'')) (CHR ''_'') (CHR ''/'') =
      replace_all c (CHR ''_'') (CHR ''/'')"
    by (simp add: replace_all_def)
  moreover have "replace_all ''cluster-'' (CHR ''_'') (CHR ''/'') = ''cluster-''"
    by (simp add: replace_all_def)
  ultimately have "replace_all (encode_cluster c) (CHR ''_'') (CHR ''/'') =
      ''cluster-'' @ replace_all c (CHR ''_'') (CHR ''/'')"
    by (simp only: encode_cluster_def replace_all_append)
  then show ?thesis by (simp only: decode_cluster_def trim_prefix_append)
qed

lemma owner_keys_distinct [simp]:
  "upstream_cluster_key \<noteq> upstream_group_key" "upstream_cluster_key \<noteq> upstream_kind_key"
  "upstream_cluster_key \<noteq> upstream_name_key" "upstream_cluster_key \<noteq> upstream_namespace_key"
  "upstream_group_key \<noteq> upstream_kind_key" "upstream_group_key \<noteq> upstream_name_key"
  "upstream_group_key \<noteq> upstream_namespace_key" "upstream_kind_key \<noteq> upstream_name_key"
  "upstream_kind_key \<noteq> upstream_namespace_key" "upstream_name_key \<noteq> upstream_namespace_key"
  by (simp_all add: owner_key_defs)

lemmas owner_keys_distinct' [simp] = owner_keys_distinct [symmetric]

text \<open>Reading the owner out of annotations that were extended by the owner's.\<close>

lemma owner_request_annotations:
  "owner_request gk (ann ++ owner_annotations cluster gvk owner) result =
    (if gvk = (gk_group gk, gk_kind gk)
     then insert \<lparr>rq_cluster = replace_all cluster (CHR ''_'') (CHR ''/''), rq_key = obj_key owner\<rparr> result
     else result)"
  by (cases gvk)
    (auto simp: owner_request_def owner_annotations_def map_get_def decode_encode_cluster obj_key_def)

lemma mapped_set_controller_annotations:
  assumes "mapped_set_controller d ms owner controlled w = (Ok x, w')"
  obtains gvk ann where "d_gvk d owner = Inr gvk"
    "om_annotations (md x) = ann ++ owner_annotations (ms_cluster ms) gvk owner"
  using assms
  by (auto simp: mapped_set_controller_def Let_def elim!: bindA_OkE split: if_splits)

text \<open>
  C25: Round trip of the upstream owner: an event on an object that \<open>SetControllerReference\<close> returned
  enqueues exactly the request for its owner, in the owner's cluster, namespace and name, for a handler
  of the owner's group and kind, and nothing for a handler of another one, provided the name of the
  cluster has no underscore.
\<close>

theorem owner_roundtrip:
  assumes "mapped_set_controller d ms owner controlled w = (Ok x, w')" and "CHR ''_'' \<notin> set (ms_cluster ms)"
  shows "\<exists>group kind. d_gvk d owner = Inr (group, kind) \<and>
    (\<forall>gk. enqueue_owner gk (CreateEvent x) =
      (if gk = \<lparr>gk_group = group, gk_kind = kind\<rparr>
       then {\<lparr>rq_cluster = ms_cluster ms, rq_key = obj_key owner\<rparr>} else {}))"
proof -
  obtain gvk ann where gvk: "d_gvk d owner = Inr gvk"
    and ann: "om_annotations (md x) = ann ++ owner_annotations (ms_cluster ms) gvk owner"
    using mapped_set_controller_annotations [OF assms(1)] by blast
  obtain group kind where "gvk = (group, kind)" by fastforce
  moreover have "replace_all (ms_cluster ms) (CHR ''_'') (CHR ''/'') = ms_cluster ms"
    using assms(2) by (rule replace_all_id)
  ultimately have "enqueue_owner gk (CreateEvent x) =
      (if gk = \<lparr>gk_group = group, gk_kind = kind\<rparr>
       then {\<lparr>rq_cluster = ms_cluster ms, rq_key = obj_key owner\<rparr>} else {})" for gk
    by (cases gk) (simp add: ann owner_request_annotations)
  with gvk \<open>gvk = (group, kind)\<close> show ?thesis by blast
qed

definition ref_owned :: "obj res \<times> store world" where
  "ref_owned = mapped_set_controller ref_deps (new_mapped ref_deps ''/team/prod'' Map.empty)
     (live ''ns'' ''x'' ''u1'' BWorkload) (live ''ns-n1'' ''y'' [] (BSecret None)) (on [])"

theorem owner_roundtrip_witness:
  "\<exists>x. fst ref_owned = Ok x \<and> enqueue_owner \<lparr>gk_group = ''group'', gk_kind = ''kind''\<rparr> (CreateEvent x) =
     {\<lparr>rq_cluster = ''/team/prod'', rq_key = key_of ''ns'' ''x''\<rparr>}"
proof -
  let ?ms = "new_mapped ref_deps ''/team/prod'' Map.empty" and ?o = "live ''ns'' ''x'' ''u1'' BWorkload"
  have run: "case fst ref_owned of Ok x \<Rightarrow> True | _ \<Rightarrow> False" by code_simp
  obtain x where x: "fst ref_owned = Ok x" by (rule res_okE [OF run])
  then have eq: "mapped_set_controller ref_deps ?ms ?o (live ''ns-n1'' ''y'' [] (BSecret None)) (on []) = (Ok x, snd ref_owned)"
    by (simp add: ref_owned_def prod_eq_iff)
  have ms: "CHR ''_'' \<notin> set (ms_cluster ?ms)" by (simp add: new_mapped_def)
  have "d_gvk ref_deps ?o = Inr (''group'', ''kind'')" by (simp add: ref_deps_def ref_base_def)
  with owner_roundtrip [OF eq ms] have "enqueue_owner \<lparr>gk_group = ''group'', gk_kind = ''kind''\<rparr> (CreateEvent x) =
      {\<lparr>rq_cluster = ms_cluster ?ms, rq_key = obj_key ?o\<rparr>}"
    by auto
  with x show ?thesis by (simp add: new_mapped_def obj_key_def live_def)
qed

text \<open>
  C26: The encoding of cluster names is not injective: for a cluster whose name has an underscore, an event on
  an object that \<open>SetControllerReference\<close> returned enqueues, for a handler of the owner's group and kind, one
  request, with the owner's namespace and name and the name of another cluster, in which every underscore is a
  slash; nothing asks for the owner's cluster.
\<close>

theorem owner_lost_underscore:
  assumes "mapped_set_controller d ms owner controlled w = (Ok x, w')" and "CHR ''_'' \<in> set (ms_cluster ms)"
  shows "\<exists>group kind other. d_gvk d owner = Inr (group, kind) \<and> other \<noteq> ms_cluster ms \<and>
    other = map (\<lambda>c. if c = CHR ''_'' then CHR ''/'' else c) (ms_cluster ms) \<and>
    (\<forall>gk. enqueue_owner gk (CreateEvent x) =
      (if gk = \<lparr>gk_group = group, gk_kind = kind\<rparr> then {\<lparr>rq_cluster = other, rq_key = obj_key owner\<rparr>} else {}))"
proof -
  obtain gvk ann where gvk: "d_gvk d owner = Inr gvk"
    and ann: "om_annotations (md x) = ann ++ owner_annotations (ms_cluster ms) gvk owner"
    using mapped_set_controller_annotations [OF assms(1)] by blast
  obtain group kind where gk: "gvk = (group, kind)" by fastforce
  let ?other = "replace_all (ms_cluster ms) (CHR ''_'') (CHR ''/'')"
  have "CHR ''_'' \<notin> set ?other" by (rule replace_all_free) simp
  with assms(2) have "?other \<noteq> ms_cluster ms" by metis
  moreover have "?other = map (\<lambda>c. if c = CHR ''_'' then CHR ''/'' else c) (ms_cluster ms)"
    by (simp add: replace_all_def)
  moreover have "enqueue_owner g (CreateEvent x) =
      (if g = \<lparr>gk_group = group, gk_kind = kind\<rparr> then {\<lparr>rq_cluster = ?other, rq_key = obj_key owner\<rparr>} else {})" for g
    by (cases g) (simp add: ann gk owner_request_annotations)
  ultimately show ?thesis using gvk gk by blast
qed

definition ref_owned_underscore :: "obj res \<times> store world" where
  "ref_owned_underscore = mapped_set_controller ref_deps (new_mapped ref_deps ''/team_a'' Map.empty)
     (live ''ns'' ''x'' ''u1'' BWorkload) (live ''ns-n1'' ''y'' [] (BSecret None)) (on [])"

theorem owner_lost_underscore_witness:
  "\<exists>x. fst ref_owned_underscore = Ok x \<and> enqueue_owner \<lparr>gk_group = ''group'', gk_kind = ''kind''\<rparr> (CreateEvent x) =
     {\<lparr>rq_cluster = ''/team/a'', rq_key = key_of ''ns'' ''x''\<rparr>}"
proof -
  let ?ms = "new_mapped ref_deps ''/team_a'' Map.empty" and ?o = "live ''ns'' ''x'' ''u1'' BWorkload"
  have run: "case fst ref_owned_underscore of Ok x \<Rightarrow> True | _ \<Rightarrow> False" by code_simp
  obtain x where x: "fst ref_owned_underscore = Ok x" by (rule res_okE [OF run])
  then have eq: "mapped_set_controller ref_deps ?ms ?o (live ''ns-n1'' ''y'' [] (BSecret None)) (on []) =
      (Ok x, snd ref_owned_underscore)"
    by (simp add: ref_owned_underscore_def prod_eq_iff)
  have ms: "CHR ''_'' \<in> set (ms_cluster ?ms)" by (simp add: new_mapped_def)
  have "d_gvk ref_deps ?o = Inr (''group'', ''kind'')" by (simp add: ref_deps_def ref_base_def)
  with owner_lost_underscore [OF eq ms] have "enqueue_owner \<lparr>gk_group = ''group'', gk_kind = ''kind''\<rparr> (CreateEvent x) =
      {\<lparr>rq_cluster = map (\<lambda>c. if c = CHR ''_'' then CHR ''/'' else c) (ms_cluster ?ms), rq_key = obj_key ?o\<rparr>}"
    by auto
  with x show ?thesis by (simp add: new_mapped_def obj_key_def live_def)
qed

end
