(* ===== verification/Watch_Handlers.thy ===== *)
theory Watch_Handlers
  imports Network_Context_Controller Subnet_Controller Instance_Controller
begin

text \<open>
  The functions that turn events on watched objects into requests: the map functions of the
  \<open>SetupWithManager\<close> methods of the controllers, \<open>internal/handler/enqueue_workload_managed_resource.go\<close>
  and the index function of \<open>internal/controller/indexers.go\<close>. They log errors and return no request.
  The properties say that what a reconciler writes downstream leads back to the object it was written
  for. \<open>internal/controller/result.go\<close> is at the end.
\<close>

section \<open>Watches on upstream objects\<close>

text \<open>The workload controller's watch on instances, in the cluster of the event.\<close>

definition workload_watch :: "'w deps \<Rightarrow> string \<Rightarrow> string \<Rightarrow> inst kobj \<Rightarrow> ('w world, request list) act" where
  "workload_watch d cls cluster x = (let c = upstream d cluster in
     case i_location (pl x) of
       None \<Rightarrow> ret []
     | Some ref \<Rightarrow> bindA (tryA (get_location c ref cls)) (\<lambda>r. case r of
         Inl e \<Rightarrow> ret []
       | Inr (loc, process) \<Rightarrow>
           if \<not> process then ret []
           else (case d_controller_of d (om_owners (md x)) of
             None \<Rightarrow> ret []
           | Some dref \<Rightarrow>
               bindA (tryA (get_as c deployment_c (key_of (om_namespace (md x)) (or_name dref)))) (\<lambda>r. case r of
                 Inl e \<Rightarrow> ret []
               | Inr dep \<Rightarrow> (case d_controller_of d (om_owners (md dep)) of
                   None \<Rightarrow> ret []
                 | Some wref \<Rightarrow> ret [\<lparr>rq_cluster = cluster,
                     rq_key = key_of (om_namespace (md dep)) (or_name wref)\<rparr>])))))"

text \<open>The network controller's watch on network contexts.\<close>

definition network_watch :: "'w deps \<Rightarrow> string \<Rightarrow> string \<Rightarrow> network_context kobj \<Rightarrow> ('w world, request list) act" where
  "network_watch d cls cluster nc =
     bindA (tryA (get_location (upstream d cluster) (nc_location (pl nc)) cls)) (\<lambda>r. case r of
       Inl e \<Rightarrow> ret []
     | Inr (loc, process) \<Rightarrow>
         if \<not> process then ret []
         else ret [\<lparr>rq_cluster = cluster, rq_key = key_of (om_namespace (md nc)) (nc_network (pl nc))\<rparr>])"

section \<open>Watches on downstream objects\<close>

definition network_uid_index :: string where
  "network_uid_index = ''networkContextControllerNetworkUIDIndex''"

text \<open>\<open>networkContextControllerNetworkUIDIndexFunc\<close>\<close>

definition network_uid_index_values :: "'w deps \<Rightarrow> 'b kobj \<Rightarrow> string list" where
  "network_uid_index_values d x = (case d_controller_of d (om_owners (md x)) of
     None \<Rightarrow> [] | Some r \<Rightarrow> [network_name (or_uid r)])"

definition requests_for :: "string \<Rightarrow> obj list \<Rightarrow> request list" where
  "requests_for cluster xs = map (\<lambda>x. \<lparr>rq_cluster = cluster, rq_key = obj_key x\<rparr>) xs"

text \<open>The cluster of an annotation, and a list of its objects.\<close>

definition list_in_cluster :: "'w deps \<Rightarrow> string \<Rightarrow> kind \<Rightarrow> list_opts \<Rightarrow> ('w world, request list) act" where
  "list_in_cluster d cluster k opts =
     bindA (tryA (get_cluster d cluster)) (\<lambda>r. case r of
       Inl e \<Rightarrow> ret []
     | Inr _ \<Rightarrow> bindA (tryA (cl_list (upstream d cluster) k opts)) (\<lambda>r. case r of
         Inl e \<Rightarrow> ret []
       | Inr xs \<Rightarrow> ret (requests_for cluster xs)))"

text \<open>The network context controller's watch on GCP networks.\<close>

definition context_watch :: "'w deps \<Rightarrow> gcp_network kobj \<Rightarrow> ('w world, request list) act" where
  "context_watch d g = (let cluster = map_get (om_annotations (md g)) upstream_cluster_key in
     if cluster = [] then ret []
     else list_in_cluster d cluster KContext
       \<lparr>lo_namespace = None, lo_labels = [], lo_index = Some (network_uid_index, om_name (md g))\<rparr>)"

text \<open>The same annotations name the owner of a GCP subnetwork and of a GCP instance.\<close>

definition annotated_owner :: "(string \<rightharpoonup> string) \<Rightarrow> request list" where
  "annotated_owner ann =
     (let cluster = map_get ann upstream_cluster_key; n = map_get ann upstream_name_key;
          ns = map_get ann upstream_namespace_key in
      if cluster = [] \<or> n = [] \<or> ns = [] then []
      else [\<lparr>rq_cluster = cluster, rq_key = key_of ns n\<rparr>])"

definition subnet_watch :: "subnetwork kobj \<Rightarrow> request list" where
  "subnet_watch g = annotated_owner (om_annotations (md g))"

definition instance_watch :: "gcp_instance kobj \<Rightarrow> request list" where
  "instance_watch g = annotated_owner (om_annotations (md g))"

text \<open>
  \<open>EnqueueInstancesForWorkloadOwnedDownstreamResource\<close>, on service accounts, secrets and secret versions.
\<close>

definition workload_owned_watch :: "'w deps \<Rightarrow> 'b kobj \<Rightarrow> ('w world, request list) act" where
  "workload_owned_watch d x =
     (let ann = om_annotations (md x);
          cluster = map_get ann upstream_cluster_key; n = map_get ann upstream_name_key;
          ns = map_get ann upstream_namespace_key;
          uid = map_get (om_labels (md x)) (k_workload_uid_label (d_consts d)) in
      if cluster = [] \<or> n = [] \<or> ns = [] \<or> uid = [] then ret []
      else list_in_cluster d cluster KInstance
        \<lparr>lo_namespace = Some ns, lo_labels = [(k_workload_uid_label (d_consts d), uid)], lo_index = None\<rparr>)"

section \<open>What a handler may do\<close>

text \<open>A handler returns requests for one cluster, and reads that cluster only.\<close>

definition asks_only :: "string \<Rightarrow> ('w world, request list) act \<Rightarrow> bool" where
  "asks_only cluster m \<longleftrightarrow> hist trace (\<lambda>r es. (\<exists>qs. r = Ok qs \<and> (\<forall>q \<in> set qs. rq_cluster q = cluster)) \<and>
     (\<forall>e \<in> set es. reads {Upstream cluster} e)) m"

lemma asks_only_ret [simp]: "asks_only cluster (ret qs) \<longleftrightarrow> (\<forall>q \<in> set qs. rq_cluster q = cluster)"
  by (simp add: asks_only_def hist_def ret_apply)

text \<open>An action that reads and does not panic.\<close>

definition reads_ok :: "string \<Rightarrow> ('w world, 'a) act \<Rightarrow> bool" where
  "reads_ok cluster m \<longleftrightarrow> hist trace (\<lambda>r es. (\<forall>p. r \<noteq> Panic p) \<and> (\<forall>e \<in> set es. reads {Upstream cluster} e)) m"

lemma reads_ok_basic [simp]: "reads_ok cluster (ret x)" "reads_ok cluster (fail e)" "reads_ok cluster (pure y)"
  by (auto simp: reads_ok_def intro!: hist_ret hist_fail hist_pure)

lemma reads_ok_bind: "reads_ok cluster m \<Longrightarrow> (\<And>x. reads_ok cluster (f x)) \<Longrightarrow> reads_ok cluster (bindA m f)"
  unfolding reads_ok_def
  by (rule hist_bind [where ?Q1.0 = "\<lambda>r es. (\<forall>p. r \<noteq> Panic p) \<and> (\<forall>e \<in> set es. reads {Upstream cluster} e)" and
      ?Q2.0 = "\<lambda>_ r es. (\<forall>p. r \<noteq> Panic p) \<and> (\<forall>e \<in> set es. reads {Upstream cluster} e)"]) auto

lemma reads_ok_wrapE: "reads_ok cluster m \<Longrightarrow> reads_ok cluster (wrapE msg m)"
  unfolding reads_ok_def by (rule hist_wrapE) auto

lemma reads_ok_call: "(\<And>r. reads {Upstream cluster} (ev r)) \<Longrightarrow> reads_ok cluster (call f ev)"
  unfolding reads_ok_def by (rule hist_call) auto

lemma reads_ok_silent: "reads_ok cluster (silent f)"
  unfolding reads_ok_def by (rule hist_silent) auto

lemma asks_only_try:
  assumes "reads_ok cluster m" and "\<And>e. asks_only cluster (f (Inl e))" and "\<And>x. asks_only cluster (f (Inr x))"
  shows "asks_only cluster (bindA (tryA m) f)"
proof -
  have "hist trace (\<lambda>r es. (\<exists>y. r = Ok y) \<and> (\<forall>e \<in> set es. reads {Upstream cluster} e)) (tryA m)"
    by (rule hist_tryA [OF assms(1) [unfolded reads_ok_def]]) auto
  moreover have "hist trace (\<lambda>r es. (\<exists>qs. r = Ok qs \<and> (\<forall>q \<in> set qs. rq_cluster q = cluster)) \<and>
      (\<forall>e \<in> set es. reads {Upstream cluster} e)) (f y)" for y
    using assms(2,3) unfolding asks_only_def by (cases y) auto
  ultimately show ?thesis unfolding asks_only_def by (rule hist_bind) auto
qed

lemma reads_ok_get_as: "reads_ok cluster (get_as (upstream d cluster) k key)"
  unfolding get_as_def upstream_def
  by (rule reads_ok_bind) (auto intro!: reads_ok_call)

lemma reads_ok_location: "reads_ok cluster (get_location (upstream d cluster) ref cls)"
  unfolding get_location_def by (intro reads_ok_bind reads_ok_wrapE reads_ok_get_as reads_ok_basic)

lemma asks_only_list: "asks_only cluster (list_in_cluster d cluster k opts)"
proof -
  have list: "reads_ok cluster (cl_list (upstream d cluster) k opts)"
    by (auto simp: upstream_def intro!: reads_ok_call)
  have "reads_ok cluster (get_cluster d cluster)"
    unfolding get_cluster_def by (rule reads_ok_silent)
  with list show ?thesis
    by (auto simp: list_in_cluster_def requests_for_def intro!: asks_only_try)
qed

text \<open>
  C27: A watch handler never fails and never panics, whatever the API server answers: it reads the
  cluster the event belongs to or names, and the requests it returns are for that cluster.
\<close>

theorem watches_total:
  "asks_only cluster (workload_watch d cls cluster x) \<and> asks_only cluster (network_watch d cls cluster nc) \<and>
   asks_only (map_get (om_annotations (md g)) upstream_cluster_key) (context_watch d g) \<and>
   asks_only (map_get (om_annotations (md y)) upstream_cluster_key) (workload_owned_watch d y)"
proof (intro conjI)
  show "asks_only cluster (network_watch d cls cluster nc)"
    unfolding network_watch_def by (intro asks_only_try reads_ok_location) (auto split: prod.split)
  show "asks_only cluster (workload_watch d cls cluster x)"
    unfolding workload_watch_def Let_def
    by (auto intro!: asks_only_try reads_ok_location reads_ok_get_as split: option.split prod.split)
  show "asks_only (map_get (om_annotations (md g)) upstream_cluster_key) (context_watch d g)"
    by (auto simp: context_watch_def Let_def intro: asks_only_list)
  show "asks_only (map_get (om_annotations (md y)) upstream_cluster_key) (workload_owned_watch d y)"
    by (auto simp: workload_owned_watch_def Let_def intro: asks_only_list)
qed

section \<open>What is written leads back to its owner\<close>

lemma map_get_upd [simp]: "map_get (m(k \<mapsto> v)) k = v" "k \<noteq> k' \<Longrightarrow> map_get (m(k \<mapsto> v)) k' = map_get m k'"
  by (simp_all add: map_get_def)

lemma map_get_add [simp]:
  "m' k = Some v \<Longrightarrow> map_get (m ++ m') k = v" "m' k = None \<Longrightarrow> map_get (m ++ m') k = map_get m k"
  by (simp_all add: map_get_def map_add_def)

lemma owned_by_simps [simp]:
  "owned_by cluster x upstream_name_key = Some (om_name (md x))"
  "owned_by cluster x upstream_namespace_key = Some (om_namespace (md x))"
  "owned_by cluster x upstream_cluster_key = Some cluster"
  by (simp_all add: owned_by_def owner_key_defs)

lemma annotated_owned_by:
  "cluster \<noteq> [] \<Longrightarrow> om_name (md x) \<noteq> [] \<Longrightarrow> om_namespace (md x) \<noteq> [] \<Longrightarrow>
     annotated_owner (m ++ owned_by cluster x) = [\<lparr>rq_cluster = cluster, rq_key = obj_key x\<rparr>]"
  by (simp add: annotated_owner_def obj_key_def)

text \<open>
  An event on the GCP subnetwork made for a subnet enqueues exactly that subnet, whatever labels the
  client adds when it creates the subnetwork.
\<close>

lemma subnet_watch_roundtrip:
  assumes "desired_subnetwork d cfg cluster sn n loc s = (Ok g, s')"
    and "cluster \<noteq> []" and "om_name (md sn) \<noteq> []" and "om_namespace (md sn) \<noteq> []"
  shows "subnet_watch (add_labels ls g) = [\<lparr>rq_cluster = cluster, rq_key = obj_key sn\<rparr>]"
proof -
  from assms(1) have "om_annotations (md g) = Map.empty ++ owned_by cluster sn"
    by (auto simp: desired_subnetwork_def owned_by_def Let_def elim!: bindA_OkE split: option.splits)
  then have "annotated_owner (om_annotations (md g)) = [\<lparr>rq_cluster = cluster, rq_key = obj_key sn\<rparr>]"
    using annotated_owned_by [OF assms(2-4)] by (simp only:)
  then show ?thesis by (simp add: subnet_watch_def add_labels_def)
qed

definition ref_subnetwork :: "subnetwork kobj res" where
  "ref_subnetwork = fst (desired_subnetwork ref_deps ref_cfg ''c'' ref_subnet ref_net ref_loc ())"

lemma subnet_watch_roundtrip_witness:
  "\<exists>g. ref_subnetwork = Ok g \<and>
     subnet_watch (add_labels (dm_labels (gp_downstream ref_cfg)) g) = [\<lparr>rq_cluster = ''c'', rq_key = key_of ''ns'' ''x''\<rparr>]"
proof -
  have run: "case ref_subnetwork of Ok g \<Rightarrow> True | _ \<Rightarrow> False" by code_simp
  obtain g where g: "ref_subnetwork = Ok g" by (rule res_okE [OF run])
  then have "desired_subnetwork ref_deps ref_cfg ''c'' ref_subnet ref_net ref_loc () = (Ok g, ())"
    by (simp add: ref_subnetwork_def prod_eq_iff)
  moreover have names: "om_name (md ref_subnet) = ''x''" "om_namespace (md ref_subnet) = ''ns''"
    by (simp_all add: ref_subnet_def as_kobj_def finalized_def live_def)
  ultimately show ?thesis using g subnet_watch_roundtrip by (fastforce simp: obj_key_def)
qed

text \<open>
  An event on the GCP instance that was filled in for an instance enqueues exactly that instance,
  whatever annotations it had before, and also once the retry annotation was added to it.
\<close>

lemma instance_watch_roundtrip:
  assumes "fill_gcp_instance d e zone x cc meta sa g w = (Ok g', w')"
    and "e_cluster e \<noteq> []" and "om_name (md x) \<noteq> []" and "om_namespace (md x) \<noteq> []"
  shows "instance_watch g' = [\<lparr>rq_cluster = e_cluster e, rq_key = obj_key x\<rparr>] \<and>
    instance_watch (g'\<lparr>md := (md g')\<lparr>om_annotations := (om_annotations (md g'))(retry_annotation \<mapsto> t)\<rparr>\<rparr>) =
      [\<lparr>rq_cluster = e_cluster e, rq_key = obj_key x\<rparr>]"
proof -
  from assms(1) obtain m where m: "om_annotations (md g') = m ++ owned_by (e_cluster e) x"
    by (auto simp: fill_gcp_instance_def Let_def elim!: bindA_OkE split: option.splits)
  have "(m ++ owned_by (e_cluster e) x)(retry_annotation \<mapsto> t) = m(retry_annotation \<mapsto> t) ++ owned_by (e_cluster e) x"
    by (rule ext) (simp add: map_add_def owned_by_def owner_key_defs retry_annotation_def)
  with m annotated_owned_by [OF assms(2-4)] show ?thesis by (simp add: instance_watch_def)
qed

definition ref_env :: "store env" where
  "ref_env = \<lparr>e_cfg = set_object_defaults ''/tmp'' ref_cfg, e_cluster = ''c'', e_project = ''p'', e_up = upstream ref_deps ''c'',
     e_strategy = new_mapped_strategy ref_deps ''c'' (dm_labels (gp_downstream ref_cfg)),
     e_workload = ref_workload, e_deployment = as_kobj (live ''ns'' ''dep'' ''u2'' BWorkload) \<lparr>wd_nics = []\<rparr>\<rparr>"

definition ref_filled :: "gcp_instance kobj res \<times> store world" where
  "ref_filled = fill_gcp_instance ref_deps ref_env ''z'' (as_kobj (live ''ns'' ''x'' ''u9'' BWorkload) ref_inst)
     zero_cloud_config None zero_service_account zero_gcp_instance (on [])"

lemma instance_watch_roundtrip_witness:
  "\<exists>g. fst ref_filled = Ok g \<and> instance_watch g = [\<lparr>rq_cluster = ''c'', rq_key = key_of ''ns'' ''x''\<rparr>]"
proof -
  let ?x = "as_kobj (live ''ns'' ''x'' ''u9'' BWorkload) ref_inst"
  have run: "case fst ref_filled of Ok g \<Rightarrow> True | _ \<Rightarrow> False" by code_simp
  obtain g where g: "fst ref_filled = Ok g" by (rule res_okE [OF run])
  then have fill: "fill_gcp_instance ref_deps ref_env ''z'' ?x zero_cloud_config None zero_service_account
      zero_gcp_instance (on []) = (Ok g, snd ref_filled)"
    by (simp add: ref_filled_def prod_eq_iff)
  have "e_cluster ref_env = ''c''" "om_name (md ?x) = ''x''" "om_namespace (md ?x) = ''ns''"
    by (simp_all add: ref_env_def as_kobj_def live_def)
  with instance_watch_roundtrip [OF fill] g show ?thesis by (simp add: obj_key_def)
qed

text \<open>
  C23: The watch on GCP networks and the index on network contexts agree: an event on the GCP network of
  a network lists, in the cluster it was made for, exactly the contexts the index puts under its name,
  and those are the contexts controlled by that network.
\<close>

theorem context_watch_index:
  assumes "desired_network d cfg cluster n loc g0 s = (Ok g, s')" and "om_name (md g0) = network_name (om_uid (md n))"
    and "cluster \<noteq> []"
  shows "\<exists>v. context_watch d g = list_in_cluster d cluster KContext
      \<lparr>lo_namespace = None, lo_labels = [], lo_index = Some (network_uid_index, v)\<rparr> \<and>
    (\<forall>nc :: network_context kobj. v \<in> set (network_uid_index_values d nc) \<longleftrightarrow>
      (\<exists>r. d_controller_of d (om_owners (md nc)) = Some r \<and> or_uid r = om_uid (md n)))"
proof -
  from assms(1) have "om_annotations (md g) = (om_annotations (md g0))(upstream_cluster_key \<mapsto> cluster)"
    "om_name (md g) = om_name (md g0)"
    by (auto simp: desired_network_def elim!: bindA_OkE)
  with assms(2,3) have "context_watch d g = list_in_cluster d cluster KContext
      \<lparr>lo_namespace = None, lo_labels = [], lo_index = Some (network_uid_index, network_name (om_uid (md n)))\<rparr>"
    by (simp add: context_watch_def)
  moreover have "network_name (om_uid (md n)) \<in> set (network_uid_index_values d nc) \<longleftrightarrow>
      (\<exists>r. d_controller_of d (om_owners (md nc)) = Some r \<and> or_uid r = om_uid (md n))" for nc :: "network_context kobj"
    by (cases "d_controller_of d (om_owners (md nc))") (auto simp: network_uid_index_values_def)
  ultimately show ?thesis by blast
qed

definition ref_gcp_network :: "gcp_network kobj res" where
  "ref_gcp_network = fst (desired_network ref_deps ref_cfg ''c'' ref_net ref_loc (named [] ''network-n7'' zero_gcp_network) (on []))"

theorem context_watch_index_witness:
  "\<exists>g v. ref_gcp_network = Ok g \<and> context_watch ref_deps g = list_in_cluster ref_deps ''c'' KContext
      \<lparr>lo_namespace = None, lo_labels = [], lo_index = Some (network_uid_index, v)\<rparr> \<and>
    (\<forall>nc :: network_context kobj. v \<in> set (network_uid_index_values ref_deps nc) \<longleftrightarrow>
      (\<exists>r. d_controller_of ref_deps (om_owners (md nc)) = Some r \<and> or_uid r = om_uid (md ref_net)))"
proof -
  let ?g0 = "named [] ''network-n7'' zero_gcp_network"
  have run: "case ref_gcp_network of Ok g \<Rightarrow> True | _ \<Rightarrow> False" by code_simp
  obtain g where g: "ref_gcp_network = Ok g" by (rule res_okE [OF run])
  then obtain w where w: "desired_network ref_deps ref_cfg ''c'' ref_net ref_loc ?g0 (on []) = (Ok g, w)"
    by (metis prod.collapse ref_gcp_network_def)
  have name: "om_name (md ?g0) = network_name (om_uid (md ref_net))"
    by (simp add: network_name_def ref_net_def as_kobj_def live_def)
  from context_watch_index [OF w name] g show ?thesis by blast
qed

text \<open>
  C24: An event on the service account or the Secret Manager secret made for a workload lists all
  the instances that carry the workload's UID, programmed or not, in the workload's namespace and cluster, as long
  as the managed labels do not use the UID label themselves. (The comment on the handler speaks of the instances
  that are not programmed yet, and names other annotations.)
\<close>

theorem workload_owned_watch_roundtrip:
  assumes "e_cluster e \<noteq> []" and "om_name (md (e_workload e)) \<noteq> []" and "om_namespace (md (e_workload e)) \<noteq> []"
    and "om_uid (md (e_workload e)) \<noteq> []" and "ls (k_workload_uid_label (d_consts d)) = None"
    and "upstream_name_key \<noteq> k_external_name (d_consts d)" "upstream_namespace_key \<noteq> k_external_name (d_consts d)"
      "upstream_cluster_key \<noteq> k_external_name (d_consts d)"
  shows "workload_owned_watch d (add_labels ls (new_service_account d e pc)) =
      list_in_cluster d (e_cluster e) KInstance \<lparr>lo_namespace = Some (om_namespace (md (e_workload e))),
        lo_labels = [(k_workload_uid_label (d_consts d), om_uid (md (e_workload e)))], lo_index = None\<rparr> \<and>
    workload_owned_watch d (add_labels ls (new_gcp_secret d pc (e_cluster e) project (e_workload e))) =
      list_in_cluster d (e_cluster e) KInstance \<lparr>lo_namespace = Some (om_namespace (md (e_workload e))),
        lo_labels = [(k_workload_uid_label (d_consts d), om_uid (md (e_workload e)))], lo_index = None\<rparr>"
proof -
  have get: "map_get (owned_by c y) upstream_name_key = om_name (md y)"
    "map_get (owned_by c y) upstream_namespace_key = om_namespace (md y)"
    "map_get (owned_by c y) upstream_cluster_key = c" for c and y :: "unit kobj"
    by (simp_all add: map_get_def)
  show ?thesis
    using assms
    by (simp add: workload_owned_watch_def new_service_account_def new_gcp_secret_def Let_def get add_labels_def)
qed

theorem workload_owned_watch_roundtrip_witness:
  "workload_owned_watch ref_deps (add_labels (dm_labels (gp_downstream ref_cfg)) (new_service_account ref_deps ref_env ''pc'')) =
     list_in_cluster ref_deps ''c'' KInstance \<lparr>lo_namespace = Some ''ns'', lo_labels = [(''workload-uid'', ''u1'')], lo_index = None\<rparr>"
proof -
  have env: "e_cluster ref_env = ''c''" "om_name (md (e_workload ref_env)) = ''x''" "om_namespace (md (e_workload ref_env)) = ''ns''"
    "om_uid (md (e_workload ref_env)) = ''u1''" "k_workload_uid_label (d_consts ref_deps) = ''workload-uid''"
    "k_external_name (d_consts ref_deps) = ''external-name''"
    by (simp_all add: ref_env_def ref_workload_def as_kobj_def live_def ref_deps_def ref_base_def ref_consts_def)
  have "dm_labels (gp_downstream ref_cfg) (k_workload_uid_label (d_consts ref_deps)) = None"
    by (simp add: env ref_cfg_def)
  with workload_owned_watch_roundtrip [of ref_env "dm_labels (gp_downstream ref_cfg)" ref_deps "''pc''" "''p''"] env
  show ?thesis by (simp add: owner_key_defs)
qed

section \<open>Reconciler results\<close>

text \<open>\<open>internal/controller/result.go\<close>; \<open>IsZero\<close> of \<open>ctrl.Result\<close> looks at its two fields.\<close>

record controller_result =
  cr_requeue :: bool
  cr_after :: int
  cr_err :: "goerr option"
  cr_stop :: bool

definition should_return :: "controller_result \<Rightarrow> bool" where
  "should_return r \<longleftrightarrow> cr_err r \<noteq> None \<or> \<not> (\<not> cr_requeue r \<and> cr_after r = 0) \<or> cr_stop r"

definition result_get :: "controller_result \<Rightarrow> (bool \<times> int) \<times> goerr option" where
  "result_get r = ((cr_requeue r, cr_after r), cr_err r)"

end
