(* ===== verification/Footprint.thy ===== *)
theory Footprint
  imports Operator_System Watch_Handlers
begin

text \<open>
  The footprint of the operator: the kinds its calls are for in either cluster, and the marks on what it writes
  downstream by which the watches find the request again. Both are invariants of every call of every
  reconciler, proved in one pass over the program; the access rules and the watches build on them.
\<close>

section \<open>The kinds of the clusters\<close>

definition upstream_kinds :: "kind list" where
  "upstream_kinds = [KInstance, KDeployment, KWorkload, KLocation, KNetwork, KContext, KSubnet, KBinding, KNamespace,
     KConfigMap, KSecret]"

definition published_kinds :: "kind list" where
  "published_kinds = [KInstance, KContext, KSubnet]"

definition downstream_kinds :: "kind list" where
  "downstream_kinds = [KNamespace, KConfigMap, KSecret, KServiceAccount, KGcpSecret, KSecretVersion, KIamMember,
     KGcpInstance, KFirewall, KGcpNetwork, KSubnetwork]"

definition kinds_at :: "side \<Rightarrow> kind list" where
  "kinds_at s = (case s of Upstream c \<Rightarrow> upstream_kinds | Downstream \<Rightarrow> downstream_kinds)"

text \<open>A call is for a kind of its cluster; status updates are upstream, of the kinds with a condition.\<close>

fun knows_kind :: "event \<Rightarrow> bool" where
  "knows_kind (EGet s k key r) = (k \<in> set (kinds_at s))"
| "knows_kind (EList s k opts r) = (k \<in> set (kinds_at s))"
| "knows_kind (ECreate s x r) = (obj_kind x \<in> set (kinds_at s))"
| "knows_kind (EUpdate s x r) = (obj_kind x \<in> set (kinds_at s))"
| "knows_kind (EStatusUpdate s x r) = (s \<noteq> Downstream \<and> obj_kind x \<in> set published_kinds)"
| "knows_kind (EPatch s x y r) = (obj_kind y \<in> set (kinds_at s))"
| "knows_kind (EDelete s k key r) = (k \<in> set (kinds_at s))"

section \<open>The marks of the owner\<close>

text \<open>
  The GCP instance and the GCP subnetwork carry the name, namespace and cluster of the object they were made
  for; the other kinds that are watched carry its cluster.
\<close>

definition marked :: "request \<Rightarrow> obj \<Rightarrow> bool" where
  "marked rq x \<longleftrightarrow> (let ann = om_annotations (md x) in
     (obj_kind x \<in> {KGcpInstance, KSubnetwork, KGcpNetwork, KServiceAccount, KGcpSecret, KSecretVersion} \<longrightarrow>
        map_get ann upstream_cluster_key = rq_cluster rq) \<and>
     (obj_kind x \<in> {KGcpInstance, KSubnetwork} \<longrightarrow>
        map_get ann upstream_name_key = k_name (rq_key rq) \<and> map_get ann upstream_namespace_key = k_namespace (rq_key rq)))"

fun marks :: "request \<Rightarrow> event \<Rightarrow> bool" where
  "marks rq (ECreate s x r) = (s = Downstream \<longrightarrow> marked rq x)"
| "marks rq (EPatch s x y r) = (s = Downstream \<longrightarrow> marked rq y)"
| "marks rq e = True"

definition fits :: "request \<Rightarrow> event \<Rightarrow> bool" where
  "fits rq e \<longleftrightarrow> knows_kind e \<and> marks rq e"

lemma marked_by:
  "om_annotations (md x) = m ++ owned_by (rq_cluster rq) y \<Longrightarrow> obj_key y = rq_key rq \<Longrightarrow> marked rq x"
  by (auto simp: marked_def Let_def map_get_def obj_key_def dest: sym)

lemma marked_cluster:
  "map_get (om_annotations (md x)) upstream_cluster_key = rq_cluster rq \<Longrightarrow> obj_kind x \<notin> {KGcpInstance, KSubnetwork} \<Longrightarrow>
   marked rq x"
  by (simp add: marked_def Let_def)

lemma marked_free:
  "obj_kind x \<in> {KNamespace, KConfigMap, KSecret, KIamMember, KFirewall} \<Longrightarrow> marked rq x"
  by (auto simp: marked_def Let_def)

lemma marked_add_labels [simp]: "marked rq (add_labels ls x) \<longleftrightarrow> marked rq x"
  by (simp add: marked_def add_labels_def)

lemma fits_upstream [simp]:
  "fits rq (EGet (Upstream c) k key g) \<longleftrightarrow> k \<in> set upstream_kinds"
  "fits rq (EList (Upstream c) k opts l) \<longleftrightarrow> k \<in> set upstream_kinds"
  "fits rq (EUpdate (Upstream c) x u) \<longleftrightarrow> obj_kind x \<in> set upstream_kinds"
  "fits rq (EStatusUpdate (Upstream c) x u) \<longleftrightarrow> obj_kind x \<in> set published_kinds"
  by (simp_all add: fits_def kinds_at_def)

lemma fits_downstream [simp]:
  "fits rq (EGet Downstream k key g) \<longleftrightarrow> k \<in> set downstream_kinds"
  "fits rq (EList Downstream k opts l) \<longleftrightarrow> k \<in> set downstream_kinds"
  "fits rq (EUpdate Downstream x u) \<longleftrightarrow> obj_kind x \<in> set downstream_kinds"
  "fits rq (EDelete Downstream k key e) \<longleftrightarrow> k \<in> set downstream_kinds"
  "fits rq (ECreate Downstream x u) \<longleftrightarrow> obj_kind x \<in> set downstream_kinds \<and> marked rq x"
  "fits rq (EPatch Downstream x y u) \<longleftrightarrow> obj_kind y \<in> set downstream_kinds \<and> marked rq y"
  by (simp_all add: fits_def kinds_at_def)

lemma up_kinds [simp]:
  "KInstance \<in> set upstream_kinds" "KDeployment \<in> set upstream_kinds" "KWorkload \<in> set upstream_kinds"
  "KLocation \<in> set upstream_kinds" "KNetwork \<in> set upstream_kinds" "KContext \<in> set upstream_kinds"
  "KSubnet \<in> set upstream_kinds" "KBinding \<in> set upstream_kinds" "KNamespace \<in> set upstream_kinds"
  "KConfigMap \<in> set upstream_kinds" "KSecret \<in> set upstream_kinds"
  "KInstance \<in> set published_kinds" "KContext \<in> set published_kinds" "KSubnet \<in> set published_kinds"
  by (simp_all add: upstream_kinds_def published_kinds_def)

lemma down_kinds [simp]:
  "KNamespace \<in> set downstream_kinds" "KConfigMap \<in> set downstream_kinds" "KSecret \<in> set downstream_kinds"
  "KServiceAccount \<in> set downstream_kinds" "KGcpSecret \<in> set downstream_kinds" "KSecretVersion \<in> set downstream_kinds"
  "KIamMember \<in> set downstream_kinds" "KGcpInstance \<in> set downstream_kinds" "KFirewall \<in> set downstream_kinds"
  "KGcpNetwork \<in> set downstream_kinds" "KSubnetwork \<in> set downstream_kinds"
  by (simp_all add: downstream_kinds_def)

section \<open>Typed calls\<close>

lemma fits_get_as:
  "cd_kind k \<in> set upstream_kinds \<Longrightarrow> emits trace (fits rq) (get_as (upstream d c) k key)"
  "cd_kind k \<in> set downstream_kinds \<Longrightarrow> emits trace (fits rq) (get_as (downstream d) k key)"
  "cd_kind k \<in> set downstream_kinds \<Longrightarrow> emits trace (fits rq) (get_as (mapped_client d (new_mapped d c ls)) k key)"
  by (auto simp: upstream_def downstream_def intro!: emits_get_as emits_call)

lemma fits_get_or_zero:
  "cd_kind k \<in> set downstream_kinds \<Longrightarrow> emits trace (fits rq) (get_or_zero d (downstream d) k key z)"
  "cd_kind k \<in> set downstream_kinds \<Longrightarrow> emits trace (fits rq) (get_or_zero d (mapped_client d (new_mapped d c ls)) k key z)"
  by (auto simp: downstream_def intro!: emits_get_or_zero emits_call)

lemma fits_delete:
  "k \<in> set downstream_kinds \<Longrightarrow> emits trace (fits rq) (delete_ignoring_not_found d (downstream d) k key)"
  by (auto simp: downstream_def intro!: emits_delete_ignoring_not_found emits_call)

lemma fits_upstream_writes:
  "codec_ok k \<Longrightarrow> cd_kind k \<in> set upstream_kinds \<Longrightarrow> emits trace (fits rq) (update_as (upstream d c) k x)"
  "codec_ok k \<Longrightarrow> cd_kind k \<in> set published_kinds \<Longrightarrow> emits trace (fits rq) (status_update_as (upstream d c) k x)"
  by (auto simp: upstream_def intro!: emits_update_as emits_status_update_as emits_call)

lemma fits_location: "emits trace (fits rq) (get_location (upstream d c) ref cls)"
  by (auto simp: upstream_def intro!: emits_get_location emits_call)

lemma fits_ensure_namespace:
  assumes "create_or_update_law d"
  shows "emits trace (fits rq) (ensure_namespace d (new_mapped d c ls) x)"
proof -
  have "emits trace (fits rq)
      (create_or_update_as d (downstream d) namespace_c n (\<lambda>n. ret (label_namespace d (new_mapped d c ls) n)))" for n
    using assms by (intro emits_create_or_update_as) (auto simp: downstream_def intro!: emits_call marked_free)
  then show ?thesis
    unfolding ensure_namespace_def new_mapped_simps by (intro emits_if emits_bind emits_wrapE emits_ret)
qed

lemma fits_mapped_create:
  assumes "create_or_update_law d" and "obj_kind x \<in> set downstream_kinds" and "marked rq x"
  shows "emits trace (fits rq) (mapped_create d (new_mapped d c ls) x)"
  unfolding mapped_create_def new_mapped_simps
  by (intro emits_bind emits_wrapE fits_ensure_namespace [OF assms(1)])
    (use assms(2,3) in \<open>auto simp: downstream_def intro!: emits_call\<close>)

lemma fits_create_as:
  assumes "create_or_update_law d" and "codec_ok k" and "cd_kind k \<in> set downstream_kinds" and "marked rq (to_obj k x)"
  shows "emits trace (fits rq) (create_as (mapped_client d (new_mapped d c ls)) k x)"
  using assms by (auto intro!: emits_create_as fits_mapped_create)

lemma fits_create_or_patch:
  assumes "library_laws d" and "codec_ok k" and "cd_kind k \<in> set downstream_kinds"
    and "\<And>x s y s'. f x s = (Ok y, s') \<Longrightarrow> obj_key y = obj_key x"
    and "\<And>x s y s'. f x s = (Ok y, s') \<Longrightarrow> marked rq (to_obj k y)"
    and "\<And>z. emits trace (fits rq) (f z)"
  shows "emits trace (fits rq) (create_or_patch_as d (mapped_client d (new_mapped d c ls)) k x f)"
  by (rule emits_create_or_patch_as)
    (use assms library_lawsD [OF assms(1)] in \<open>auto simp: downstream_def intro!: emits_call fits_mapped_create\<close>)

lemma fits_create_or_update:
  assumes "library_laws d" and "codec_ok k" and "cd_kind k \<in> set downstream_kinds"
    and "\<And>x s y s'. f x s = (Ok y, s') \<Longrightarrow> obj_key y = obj_key x"
    and "\<And>x s y s'. f x s = (Ok y, s') \<Longrightarrow> marked rq (to_obj k y)"
    and "\<And>z. emits trace (fits rq) (f z)"
  shows "emits trace (fits rq) (create_or_update_as d (mapped_client d (new_mapped d c ls)) k x f)"
  by (rule emits_create_or_update_as)
    (use assms library_lawsD [OF assms(1)] in \<open>auto simp: downstream_def intro!: emits_call fits_mapped_create\<close>)

lemma fits_mapped_namespace: "emits trace (fits rq) (mapped_namespace (new_mapped d c ls) x)"
  unfolding mapped_namespace_def get_upstream_namespace_def
  by (intro hist_intros) (auto simp: upstream_def intro!: emits_call)

lemma fits_mapped_set_controller:
  assumes "create_or_update_law d"
  shows "emits trace (fits rq) (mapped_set_controller d (new_mapped d c ls) x y)"
  unfolding mapped_set_controller_def Let_def
  by (intro emits_if emits_bind emits_wrapE emits_pure fits_get_or_zero emits_ret emits_fail fits_create_as assms codecs_ok)
    (auto intro: marked_free)

lemma fits_delete_anchor: "emits trace (fits rq) (mapped_delete_anchor d (new_mapped d c ls) x)"
  unfolding mapped_delete_anchor_def mapped_object_meta_def
  by (intro emits_bind emits_wrapE emits_tryA emits_case_sum emits_if emits_ret emits_fail fits_mapped_namespace fits_get_as)
    (auto simp: downstream_def intro!: emits_call)

section \<open>The reconcilers\<close>

lemma fits_workload:
  assumes "library_laws d"
  shows "emits trace (fits rq) (workload_reconcile d cfg rq)"
proof -
  have cleanup: "emits trace (fits rq) (workload_cleanup d cfg c wl)" for c wl
    unfolding workload_cleanup_def Let_def new_mapped_strategy_client
    by (intro emits_bind emits_wrapE emits_eachA emits_delete_ignoring_not_found fits_delete_anchor)
      (auto simp: downstream_def intro!: emits_call)
  show ?thesis
    unfolding workload_reconcile_def Let_def by (intro cleanup fits_get_as fits_upstream_writes hist_intros codecs_ok) simp_all
qed

lemma fits_network: "emits trace (fits rq) (network_reconcile d rq)"
  unfolding network_reconcile_def Let_def by (intro fits_delete fits_get_as fits_upstream_writes hist_intros codecs_ok) simp_all

lemma marked_network:
  "desired_network d cfg (rq_cluster rq) n loc g s = (Ok g', s') \<Longrightarrow> marked rq (to_obj gcp_network_c g')"
  by (rule marked_cluster) (auto simp: desired_network_def to_obj_def codec_defs elim!: bindA_OkE)

lemma fits_context:
  assumes "library_laws d"
  shows "emits trace (fits rq) (context_reconcile d cfg cls rq)"
proof -
  have "emits trace (fits rq) (create_or_patch_as d (mapped_client d (new_mapped d (rq_cluster rq) ls)) gcp_network_c x
      (desired_network d cfg (rq_cluster rq) n loc))" for ls x n loc
    by (rule fits_create_or_patch [OF assms]) (auto dest: desired_network_key marked_network)
  then have body: "emits (\<lambda>(s, l). trace s) (fits rq) (context_program d cfg rq loc nc)" for loc nc
    unfolding context_program_def context_outcome_def Let_def new_mapped_strategy_client
    by (intro fits_get_as hist_intros) simp_all
  have "emits trace (fits rq) (defer_named l0 (publish_context d (rq_cluster rq)) (context_program d cfg rq loc nc))" for l0 loc nc
    by (rule emits_defer_named [where I = "\<lambda>_. True", OF stays_emits [OF _ body]])
      (auto simp: publish_context_def keeps_def intro!: emits_publish_condition fits_upstream_writes)
  then show ?thesis
    unfolding context_reconcile_def Let_def by (intro fits_get_as fits_location hist_intros) simp_all
qed

lemma marked_subnetwork:
  "desired_subnetwork d cfg (rq_cluster rq) sn n loc s = (Ok g, s') \<Longrightarrow> obj_key sn = rq_key rq \<Longrightarrow>
   marked rq (to_obj subnetwork_c g)"
  by (rule marked_by [where m = Map.empty and y = sn])
    (auto simp: desired_subnetwork_def owned_by_def Let_def elim!: bindA_OkE split: option.splits)

lemma fits_subnet_program:
  assumes "library_laws d" and "obj_key sn = rq_key rq"
  shows "emits (\<lambda>(s, l). trace s) (fits rq) (subnet_program d cfg rq loc sn)"
proof -
  have "emits (\<lambda>(s, l). trace s) (fits rq) (bindA (lift (desired_subnetwork d cfg (rq_cluster rq) sn n loc)) (\<lambda>x.
      lift (wrapE msg (create_as (mapped_client d (new_mapped d (rq_cluster rq) ls)) subnetwork_c x))))" for n msg ls
  proof (rule emits_bind_run)
    fix x s s'
    assume "lift (desired_subnetwork d cfg (rq_cluster rq) sn n loc) s = (Ok x, s')"
    then have "marked rq (to_obj subnetwork_c x)"
      using marked_subnetwork [OF _ assms(2)] by (cases s; cases s') (auto simp: lift_eq_iff)
    then show "emits (\<lambda>(s, l). trace s) (fits rq)
        (lift (wrapE msg (create_as (mapped_client d (new_mapped d (rq_cluster rq) ls)) subnetwork_c x)))"
      by (intro emits_lift emits_wrapE fits_create_as library_lawsD [OF assms(1)]) simp_all
  qed (intro emits_lift emits_desired_subnetwork)
  note made = this
  show ?thesis
    unfolding subnet_program_def Let_def new_mapped_strategy_client
    by (intro made fits_get_as fits_get_or_zero hist_intros) simp_all
qed

lemma fits_subnet_published:
  assumes "library_laws d" and "obj_key sn = rq_key rq"
  shows "emits trace (fits rq) (defer_unnamed l0 (publish_subnet d (rq_cluster rq)) (subnet_program d cfg rq loc sn))"
  by (rule emits_defer_unnamed [where I = "\<lambda>_. True", OF stays_emits [OF _ fits_subnet_program [OF assms]]])
    (auto simp: publish_subnet_def keeps_def intro!: emits_publish_condition fits_upstream_writes)

lemma fits_subnet_finalizers:
  assumes "library_laws d"
  shows "emits trace (fits rq) (subnet_finalizers d sn)"
  unfolding subnet_finalizers_law [OF library_lawsD(6) [OF assms]] subnet_finalize_def
  by (intro hist_intros fits_delete) simp_all

lemma fits_subnet:
  assumes "library_laws d"
  shows "emits trace (fits rq) (subnet_reconcile d cfg cls rq)"
proof -
  have "emits trace (fits rq) (bindA (tryA (subnet_finalizers d sn)) (\<lambda>f. case f of
      Inl e \<Rightarrow> if is_deleting e then ret Done else fail (Wrapped ''failed to finalize'' e)
    | Inr (sn1, updated) \<Rightarrow>
        if updated then
          bindA (wrapE ''failed to update based on finalization result''
            (update_as (upstream d (rq_cluster rq)) subnet_c sn1)) (\<lambda>_. ret Done)
        else if om_deleted (md sn1) \<noteq> None then ret Done
        else if d_condition_true d (sn_conditions (pl sn1)) (k_subnet_programmed (d_consts d)) then ret Done
        else defer_unnamed \<lparr>lv_obj = sn1, lv_cond = subnet_condition0 d sn1\<rparr>
          (publish_subnet d (rq_cluster rq)) (subnet_program d cfg rq loc sn1)))" (is "emits trace _ (bindA _ ?k)")
    if key: "obj_key sn = rq_key rq" for sn loc
  proof (rule emits_bind_run [OF emits_tryA [OF fits_subnet_finalizers [OF assms]]])
    fix f w w'
    assume run: "tryA (subnet_finalizers d sn) w = (Ok f, w')"
    show "emits trace (fits rq) (?k f)"
    proof (cases f)
      case (Inr p)
      obtain sn1 updated where p: "p = (sn1, updated)" by (cases p)
      with run Inr have "subnet_finalizers d sn w = (Ok (sn1, updated), w')" by (simp add: tryA_Ok_iff)
      from okhistE [OF okhist_subnet_finalizers [OF assms] this] have "obj_key sn1 = rq_key rq"
        unfolding prod.case using key by metis
      then show ?thesis
        unfolding Inr p sum.case prod.case
        by (intro fits_upstream_writes fits_subnet_published [OF assms] hist_intros codecs_ok) simp_all
    qed auto
  qed
  then show ?thesis
    unfolding subnet_reconcile_def Let_def
    by (intro emits_bind emits_get_cluster emits_requested library_lawsD [OF assms] fits_get_as)
      (auto intro!: emits_bind fits_location)
qed

lemma fits_policies:
  assumes "library_laws d"
  shows "emits trace (fits rq) (network_policies d cfg cluster project (upstream d c) (mapped_client d (new_mapped d c ls)) wl dep)"
  unfolding network_policies_def interface_policy_def policy_rule_def nic_context_def
  by (intro fits_get_as fits_get_or_zero fits_create_as hist_intros library_lawsD [OF assms] codecs_ok)
    (auto intro: marked_free)

text \<open>The annotation of crossplane that is set beside the marks is none of them.\<close>

definition external_name_law :: "'w deps \<Rightarrow> bool" where
  "external_name_law d \<longleftrightarrow>
     k_external_name (d_consts d) \<notin> {upstream_cluster_key, upstream_name_key, upstream_namespace_key}"

lemma fits_service_account:
  assumes "library_laws d" and "external_name_law d" and "env_for d rq e"
  shows "emits trace (fits rq) (workload_service_account d e)"
proof -
  have "marked rq (to_obj service_account_c (new_service_account d e pc))" for pc
    by (rule marked_cluster)
      (use assms(2,3) in \<open>auto simp: new_service_account_def Let_def to_obj_def codec_defs env_for_def map_get_def
        external_name_law_def\<close>)
  then show ?thesis
    unfolding workload_service_account_def Let_def env_forD(3) [OF assms(3)]
    by (intro fits_get_or_zero fits_create_as hist_intros library_lawsD [OF assms(1)] codecs_ok) simp_all
qed

lemma fits_config_maps: "emits trace (fits rq) (build_config_maps (upstream d c) x cc)"
  unfolding build_config_maps_def by (intro fits_get_as hist_intros) simp_all

lemma fits_aggregated_secret:
  assumes "library_laws d"
  shows "emits trace (fits rq) (aggregated_secret d (new_mapped_strategy d c ls) wl x b)"
proof -
  have fill: "emits trace (fits rq) (fill_secret (new_mapped_strategy d c ls) wl b s)" for s
    unfolding fill_secret_def new_mapped_strategy_def mapped_strategy_def strategy.simps
    by (intro hist_intros fits_mapped_set_controller library_lawsD [OF assms])
  have "emits trace (fits rq) (create_or_update_as d (mapped_client d (new_mapped d c ls)) secret_c s
      (fill_secret (new_mapped_strategy d c ls) wl b))" for s
    by (rule fits_create_or_update [OF assms])
      (auto dest: fill_secret_key [OF library_lawsD(7) [OF assms]] intro: fill marked_free)
  then show ?thesis
    unfolding aggregated_secret_def
    by (intro hist_intros) (auto simp: new_mapped_strategy_def mapped_strategy_def intro: fits_mapped_namespace)
qed

lemma fits_workload_secret:
  assumes "library_laws d"
  shows "emits trace (fits rq)
    (workload_secret d cfg (rq_cluster rq) project (mapped_client d (new_mapped d c ls)) wl)"
proof -
  have "marked rq (to_obj gcp_secret_c (new_gcp_secret d pc (rq_cluster rq) project wl))" for pc
    by (rule marked_cluster) (simp_all add: new_gcp_secret_def Let_def map_get_def)
  then show ?thesis
    unfolding workload_secret_def
    by (intro fits_get_or_zero fits_create_as hist_intros library_lawsD [OF assms] codecs_ok) simp_all
qed

lemma fits_secret_version:
  assumes "library_laws d"
  shows "emits trace (fits rq)
    (secret_version d (rq_cluster rq) (mapped_client d (new_mapped d c ls)) wl s agg)"
  unfolding secret_version_def
proof (intro emits_wrapE fits_create_or_patch [OF assms])
  fix v v' :: "secret_version kobj" and w w' :: "'a world"
  assume fill: "fill_version d (rq_cluster rq) wl s agg v w = (Ok v', w')"
  from fill_version_key [OF library_lawsD(7) [OF assms] this] show "obj_key v' = obj_key v" .
  from fill show "marked rq (to_obj secret_version_c v')"
    by (intro marked_cluster) (auto simp: fill_version_def elim!: bindA_OkE split: sum.splits)
qed simp_all

lemma fits_secret_access:
  assumes "library_laws d"
  shows "emits (\<lambda>(s, l). trace s) (fits rq)
    (secret_access d cfg cluster project (mapped_client d (new_mapped d c ls)) s v sa)"
  unfolding secret_access_def
  by (intro fits_get_or_zero fits_create_as hist_intros library_lawsD [OF assms] codecs_ok) (auto intro: marked_free)

lemma fits_reconcile_secrets:
  assumes "library_laws d"
  shows "emits (\<lambda>(s, l). trace s) (fits rq)
    (reconcile_secrets d cfg (rq_cluster rq) project (upstream d c) (new_mapped_strategy d c ls) cc wl x sa)"
  unfolding reconcile_secrets_def collect_secrets_def populate_cloud_config_def Let_def new_mapped_strategy_client
  by (intro fits_get_as fits_aggregated_secret fits_workload_secret fits_secret_version fits_secret_access
      hist_intros assms) simp_all

lemma fits_sync: "emits trace (fits rq) (sync_power_state d (upstream d c) x g)"
  unfolding sync_power_state_def Let_def by (intro fits_upstream_writes hist_intros codecs_ok) simp_all

lemma fits_gcp_instance_step:
  assumes "library_laws d" and "env_for d rq e" and "obj_key x = rq_key rq"
  shows "emits (\<lambda>(s, l). trace s) (fits rq) (gcp_instance_step d e zone x cc meta sa)"
proof -
  have fill: "emits trace (fits rq) (fill_gcp_instance d e zone x cc meta sa g)" for g
    unfolding fill_gcp_instance_def env_forD(1) [OF assms(2)] build_nics_def nic_step_def nic_context_def
    by (intro fits_get_as hist_intros) simp_all
  have mark: "marked rq (to_obj gcp_instance_c g')"
    if "fill_gcp_instance d e zone x cc meta sa g w = (Ok g', w')" for g g' w w'
    using that assms(2,3) by (intro marked_by [where y = x])
      (auto simp: fill_gcp_instance_def env_for_def Let_def elim!: bindA_OkE split: option.splits)
  have patch: "emits trace (fits rq) (create_or_patch_as d (mapped_client d (new_mapped d (rq_cluster rq) ls))
      gcp_instance_c y (fill_gcp_instance d e zone x cc meta sa))" for y ls
    by (rule fits_create_or_patch [OF assms(1)]) (auto dest: fill_gcp_instance_key mark intro: fill)
  have update: "emits trace (fits rq) (update_as (mapped_client d (new_mapped d (rq_cluster rq) ls)) gcp_instance_c y)" for y ls
    by (auto simp: downstream_def intro!: emits_update_as emits_call)
  show ?thesis
    unfolding gcp_instance_step_def Let_def env_forD(1,3) [OF assms(2)]
    by (intro patch update fits_sync hist_intros)
qed

lemma fits_instance_program:
  assumes "library_laws d" and "external_name_law d" and "env_for d rq e" and "obj_key x = rq_key rq"
  shows "emits (\<lambda>(s, l). trace s) (fits rq) (instance_program d e zone x cc meta)"
proof -
  have cluster: "e_cluster e = rq_cluster rq" using assms(3) by (simp add: env_for_def)
  show ?thesis
    unfolding instance_program_def Let_def env_forD [OF assms(3)] cluster new_mapped_strategy_client
      publish_programmed_def set_nic_status_def update_inst_def
    by (intro fits_policies fits_service_account fits_config_maps fits_reconcile_secrets fits_gcp_instance_step
        hist_intros emits_eachA assms)
qed

lemma fits_reconcile_instance:
  assumes "library_laws d" and "external_name_law d" and "env_for d rq e" and "obj_key x = rq_key rq"
  shows "emits trace (fits rq) (reconcile_instance d e x cc meta)"
proof -
  have "emits trace (fits rq) (defer_named l0 (publish_instance d (upstream d (rq_cluster rq)))
      (instance_program d e zone x cc meta))" for l0 zone
    by (rule emits_defer_named [where I = "\<lambda>_. True", OF stays_emits [OF _ fits_instance_program [OF assms]]])
      (auto simp: publish_instance_def keeps_def intro!: emits_publish_condition fits_upstream_writes)
  then show ?thesis
    unfolding reconcile_instance_def env_forD(1) [OF assms(3)] by (intro fits_get_as hist_intros) simp_all
qed

lemma fits_instance_run:
  assumes "library_laws d" and "external_name_law d" and "obj_key x = rq_key rq"
  shows "emits trace (fits rq) (instance_run d cfg rq project x)"
proof -
  have env: "env_for d rq \<lparr>e_cfg = cfg, e_cluster = rq_cluster rq, e_project = project, e_up = upstream d (rq_cluster rq),
      e_strategy = new_mapped_strategy d (rq_cluster rq) (dm_labels (gp_downstream cfg)),
      e_workload = wl, e_deployment = dep\<rparr>" for wl dep
    by (simp add: env_for_def)
  have pod: "emits trace P (sandbox_pod i cs)" for P i cs
    unfolding sandbox_pod_def sandbox_container_def sandbox_mount_def mount_disk_def disk_populator_of_def
      pod_volume_step_def Let_def
    by (intro hist_intros)
  have key: "obj_key (x\<lparr>pl := p\<rparr>) = rq_key rq" for p
    using assms(3) by (simp add: obj_key_def)
  show ?thesis
    unfolding instance_run_def Let_def sandbox_instance_def vm_instance_def
    by (intro fits_get_as pod fits_reconcile_instance [OF assms(1,2) env] key assms(3) hist_intros)
      simp_all
qed

lemma fits_instance:
  assumes "library_laws d" and "external_name_law d"
  shows "emits trace (fits rq) (instance_reconcile d cfg cls rq)"
proof -
  have finalize: "emits trace (fits rq) (instance_finalize d (rq_cluster rq) x)" for x
    unfolding instance_finalize_def Let_def
    by (intro fits_get_or_zero fits_upstream_writes fits_sync hist_intros)
      (auto simp: downstream_def intro!: emits_update_as emits_call)
  show ?thesis
    unfolding instance_reconcile_def Let_def
    by (rule emits_bind [OF emits_get_cluster], rule emits_requested [OF library_lawsD(8) [OF assms(1)]])
      (auto intro!: fits_get_as emits_bind emits_case_option fits_upstream_writes finalize fits_location
        fits_instance_run [OF assms])
qed

lemma fits_dispatch:
  assumes "library_laws d" and "external_name_law d"
  shows "emits trace (fits rq) (dispatch d cfg cls c rq)"
  using assms by (cases c) (auto intro: fits_workload fits_network fits_context fits_subnet fits_instance)

lemma system_log_fits:
  assumes "library_laws d" and "external_name_law d" and "system_log d cfg cls h"
  shows "\<forall>x \<in> set h. fits (en_request x) (en_event x)"
  using assms(3)
proof induction
  case (reconcile h c rq w r w' es h')
  from emitsE [OF fits_dispatch [OF assms(1,2)] reconcile.hyps(2)] reconcile.hyps(3)
  have "\<forall>e \<in> set es. fits rq e" by auto
  with reconcile.IH set_shuffles [OF reconcile.hyps(4)] show ?case by (auto simp: entries_def)
qed simp

section \<open>Sample logs\<close>

text \<open>The log of one reconciliation.\<close>

definition log_of :: "controller \<Rightarrow> request \<Rightarrow> store \<Rightarrow> entry list" where
  "log_of c rq st = entries c rq (trace (snd (dispatch ref_deps ref_cfg [] c rq (on st))))"

lemma log_of: "system_log ref_deps ref_cfg [] (log_of c rq st)"
proof (rule system_log.reconcile [OF system_log.start])
  show "dispatch ref_deps ref_cfg [] c rq (on st) =
      (fst (dispatch ref_deps ref_cfg [] c rq (on st)), snd (dispatch ref_deps ref_cfg [] c rq (on st)))" by simp
qed (simp_all add: log_of_def on_def)

lemma log_of_entry:
  assumes "x \<in> set (log_of c rq st)" shows "en_controller x = c" "en_request x = rq"
  using assms by (auto simp: log_of_def entries_def)

lemma ref_external_name: "external_name_law ref_deps"
  by (simp add: external_name_law_def ref_deps_def ref_base_def ref_consts_def owner_key_defs)

text \<open>A subnet with an allocated prefix whose GCP subnetwork is not there yet.\<close>

definition subnet_log :: "entry list" where
  "subnet_log = log_of SubnetCtl ref_rq [ref_namespace, ref_location, (tenant, to_obj context_c ref_context),
     (tenant, to_obj network_c ref_net), (tenant, to_obj subnet_c ref_subnet)]"

fun makes :: "kind \<Rightarrow> event \<Rightarrow> bool" where
  "makes k (ECreate s x r) = (s = Downstream \<and> obj_kind x = k)"
| "makes k e = False"

lemma makesE:
  assumes "makes k e" obtains x r where "e = ECreate Downstream x r" "obj_kind x = k"
  using assms by (cases e) auto

lemma subnet_log:
  obtains x y r where "x \<in> set subnet_log" "en_event x = ECreate Downstream y r" "obj_kind y = KSubnetwork"
proof -
  have "list_ex (\<lambda>x. makes KSubnetwork (en_event x)) subnet_log" by code_simp
  then show thesis by (auto simp: list_ex_iff elim!: makesE intro: that)
qed

end
