(* ===== verification/Controller_Setup.thy ===== *)
theory Controller_Setup
  imports Footprint Watch_Handlers
begin

text \<open>
  What wakes the controllers: the watches the \<open>SetupWithManager\<close> methods of \<open>internal/controller\<close> register,
  and the requests that follow an event on an object. The properties relate the watches to what the
  reconcilers do: what they write leads back to the request, and what they wait for is watched.
\<close>

section \<open>The watches\<close>

text \<open>\<open>For\<close>, \<open>Watches\<close> with a map function, and \<open>WatchesRawSource\<close> on the downstream cluster.\<close>

datatype watch = ForKind kind | WatchKind kind | RawSource kind

definition workload_watches :: "watch list" where
  "workload_watches = [WatchKind KInstance]"

definition network_watches :: "watch list" where
  "network_watches = [WatchKind KContext]"

definition context_watches :: "watch list" where
  "context_watches = [ForKind KContext, RawSource KGcpNetwork]"

definition subnet_watches :: "watch list" where
  "subnet_watches = [ForKind KSubnet, RawSource KSubnetwork]"

definition instance_watches :: "watch list" where
  "instance_watches = [ForKind KInstance, RawSource KServiceAccount, RawSource KGcpSecret, RawSource KSecretVersion,
     RawSource KGcpInstance]"

fun watches_of :: "controller \<Rightarrow> watch list" where
  "watches_of WorkloadCtl = workload_watches"
| "watches_of NetworkCtl = network_watches"
| "watches_of NetworkContextCtl = context_watches"
| "watches_of SubnetCtl = subnet_watches"
| "watches_of InstanceCtl = instance_watches"

lemmas watches_defs = workload_watches_def network_watches_def context_watches_def subnet_watches_def instance_watches_def

section \<open>The requests of an event\<close>

text \<open>An event on an object of the downstream cluster, handled by the function registered with the watch.\<close>

definition raw_handler :: "'w deps \<Rightarrow> obj \<Rightarrow> ('w world, request list) act" where
  "raw_handler d y = (case pl y of
     BGcpNetwork g \<Rightarrow> context_watch d \<lparr>md = md y, pl = g\<rparr>
   | BSubnetwork g \<Rightarrow> ret (subnet_watch \<lparr>md = md y, pl = g\<rparr>)
   | BGcpInstance g \<Rightarrow> ret (instance_watch \<lparr>md = md y, pl = g\<rparr>)
   | _ \<Rightarrow> workload_owned_watch d y)"

definition on_downstream :: "'w deps \<Rightarrow> controller \<Rightarrow> obj \<Rightarrow> ('w world, request list) act" where
  "on_downstream d c y = (if RawSource (obj_kind y) \<in> set (watches_of c) then raw_handler d y else ret [])"

text \<open>An event on an object of a tenant's cluster.\<close>

definition map_handler :: "'w deps \<Rightarrow> string \<Rightarrow> string \<Rightarrow> obj \<Rightarrow> ('w world, request list) act" where
  "map_handler d cls cluster y = (case pl y of
     BInstance i \<Rightarrow> workload_watch d cls cluster \<lparr>md = md y, pl = i\<rparr>
   | BContext nc \<Rightarrow> network_watch d cls cluster \<lparr>md = md y, pl = nc\<rparr>
   | _ \<Rightarrow> ret [])"

definition on_upstream :: "'w deps \<Rightarrow> string \<Rightarrow> controller \<Rightarrow> string \<Rightarrow> obj \<Rightarrow> ('w world, request list) act" where
  "on_upstream d cls c cluster y =
     (if ForKind (obj_kind y) \<in> set (watches_of c) then ret [\<lparr>rq_cluster = cluster, rq_key = obj_key y\<rparr>]
      else if WatchKind (obj_kind y) \<in> set (watches_of c) then map_handler d cls cluster y
      else ret [])"

lemma obj_kind_cases:
  "obj_kind y = KGcpInstance \<Longrightarrow> \<exists>g. pl y = BGcpInstance g" "obj_kind y = KSubnetwork \<Longrightarrow> \<exists>g. pl y = BSubnetwork g"
  by (cases "pl y"; simp)+

lemma asks_only_raw:
  assumes "obj_kind y \<in> {KGcpInstance, KSubnetwork, KGcpNetwork, KServiceAccount, KGcpSecret, KSecretVersion}"
  shows "asks_only (map_get (om_annotations (md y)) upstream_cluster_key) (raw_handler d y)"
  using assms asks_only_list
  by (cases "pl y")
    (auto simp: raw_handler_def context_watch_def workload_owned_watch_def Let_def subnet_watch_def instance_watch_def
      annotated_owner_def)

lemma asks_only_downstream:
  "asks_only (map_get (om_annotations (md y)) upstream_cluster_key) (on_downstream d c y)"
  by (cases c) (auto simp: on_downstream_def watches_defs intro!: asks_only_raw)

section \<open>What is written leads back\<close>

text \<open>
  C3: What the operator writes downstream for a request leads back to it. An event on a GCP instance or a GCP
  subnetwork it created or patched makes the instance or the subnet controller reconcile exactly the request it
  was written for; an event on any other object it created or patched asks for requests of that tenant's cluster
  only, whichever controller gets it.
\<close>

theorem events_lead_back:
  assumes "library_laws d" and "external_name_law d" and "system_log d cfg cls h" and "x \<in> set h"
    and "en_event x = ECreate Downstream y r \<or> en_event x = EPatch Downstream y0 y r"
    and "rq = en_request x" and "rq_cluster rq \<noteq> []" and "k_name (rq_key rq) \<noteq> []" and "k_namespace (rq_key rq) \<noteq> []"
  shows "(obj_kind y = KGcpInstance \<longrightarrow> on_downstream d InstanceCtl y = ret [rq]) \<and>
    (obj_kind y = KSubnetwork \<longrightarrow> on_downstream d SubnetCtl y = ret [rq]) \<and>
    (\<forall>c. asks_only (rq_cluster rq) (on_downstream d c y))"
proof -
  from system_log_fits [OF assms(1-3)] assms(4) have "fits (en_request x) (en_event x)" by blast
  with assms(5,6) have marked: "marked rq y" by (auto simp: fits_def)
  have owner: "annotated_owner (om_annotations (md y)) = [rq]" if "obj_kind y \<in> {KGcpInstance, KSubnetwork}"
  proof -
    have "map_get (om_annotations (md y)) upstream_cluster_key = rq_cluster rq"
      "map_get (om_annotations (md y)) upstream_name_key = k_name (rq_key rq)"
      "map_get (om_annotations (md y)) upstream_namespace_key = k_namespace (rq_key rq)"
      using marked that unfolding marked_def Let_def by blast+
    then show ?thesis using assms(7-9) by (simp add: annotated_owner_def)
  qed
  show ?thesis
  proof (intro conjI impI allI)
    assume "obj_kind y = KGcpInstance"
    with owner show "on_downstream d InstanceCtl y = ret [rq]"
      by (auto simp: on_downstream_def raw_handler_def instance_watch_def watches_defs dest: obj_kind_cases)
  next
    assume "obj_kind y = KSubnetwork"
    with owner show "on_downstream d SubnetCtl y = ret [rq]"
      by (auto simp: on_downstream_def raw_handler_def subnet_watch_def watches_defs dest: obj_kind_cases)
  next
    fix c
    show "asks_only (rq_cluster rq) (on_downstream d c y)"
    proof (cases "RawSource (obj_kind y) \<in> set (watches_of c)")
      case True
      then have "map_get (om_annotations (md y)) upstream_cluster_key = rq_cluster rq"
        using marked by (cases c) (auto simp: watches_defs marked_def Let_def)
      then show ?thesis using asks_only_downstream [of y d c] by simp
    qed (simp add: on_downstream_def)
  qed
qed

theorem events_lead_back_witness:
  "\<exists>x \<in> set subnet_log. \<exists>y r. en_event x = ECreate Downstream y r \<and> on_downstream ref_deps SubnetCtl y = ret [ref_rq]"
proof -
  obtain x y r where x: "x \<in> set subnet_log" "en_event x = ECreate Downstream y r" "obj_kind y = KSubnetwork"
    by (rule subnet_log)
  then have rq: "ref_rq = en_request x" using log_of_entry(2) by (simp add: subnet_log_def)
  have "(obj_kind y = KGcpInstance \<longrightarrow> on_downstream ref_deps InstanceCtl y = ret [ref_rq]) \<and>
    (obj_kind y = KSubnetwork \<longrightarrow> on_downstream ref_deps SubnetCtl y = ret [ref_rq]) \<and>
    (\<forall>c. asks_only (rq_cluster ref_rq) (on_downstream ref_deps c y))"
    by (rule events_lead_back [OF ref_laws ref_external_name log_of x(1) [unfolded subnet_log_def] disjI1 [OF x(2)] rq])
      (simp_all add: ref_rq_def)
  with x show ?thesis by blast
qed

section \<open>What the workload controller hears\<close>

text \<open>
  C18: The workload controller, which has no \<open>For\<close>, reconciles a workload on an event of a tenant's cluster only
  if the event is on an instance whose deployment is still there and names the workload as its controller: the
  watch has just read that deployment. No event on the workload itself, its deletion included, makes any
  controller reconcile it.
\<close>

theorem workload_requests:
  assumes "on_upstream d cls WorkloadCtl cluster y w = (Ok qs, w')" and "q \<in> set qs"
  shows "obj_kind y = KInstance \<and> rq_cluster q = cluster \<and>
    (\<exists>dref dep wref. d_controller_of d (om_owners (md y)) = Some dref \<and>
      last (trace w') = EGet (Upstream cluster) KDeployment (key_of (om_namespace (md y)) (or_name dref))
        (Inr (to_obj deployment_c dep)) \<and>
      d_controller_of d (om_owners (md dep)) = Some wref \<and>
      rq_key q = key_of (om_namespace (md dep)) (or_name wref))"
proof -
  from assms obtain i where i: "pl y = BInstance i" "workload_watch d cls cluster \<lparr>md = md y, pl = i\<rparr> w = (Ok qs, w')"
    by (auto simp: on_upstream_def watches_defs map_handler_def apply_simps split: if_splits body.splits)
  from i(2) assms(2) obtain dref dep wref w1 where
    "d_controller_of d (om_owners (md y)) = Some dref"
    "get_as (upstream d cluster) deployment_c (key_of (om_namespace (md y)) (or_name dref)) w1 = (Ok dep, w')"
    "d_controller_of d (om_owners (md dep)) = Some wref"
    "q = \<lparr>rq_cluster = cluster, rq_key = key_of (om_namespace (md dep)) (or_name wref)\<rparr>"
    by (auto simp: workload_watch_def Let_def tryA_Ok_iff apply_simps elim!: bindA_OkE split: option.splits sum.splits prod.splits if_splits)
  with get_as_run [OF codecs_ok(2) this(2) [unfolded upstream_def]] i(1) show ?thesis by fastforce
qed

definition owned_instance :: obj where
  "owned_instance = (let y = live ''ns'' ''i'' ''u9'' (BInstance ref_inst) in y\<lparr>md := (md y)\<lparr>om_owners :=
     [\<lparr>or_kind = ''WorkloadDeployment'', or_name = ''dep'', or_uid = ''u2'', or_controller = True\<rparr>]\<rparr>\<rparr>)"

definition heard_store :: store where
  "heard_store = [ref_location, (tenant, (live ''ns'' ''dep'' ''u2'' (BDeployment \<lparr>wd_nics = []\<rparr>))\<lparr>md := (md (live ''ns'' ''dep'' ''u2'' BWorkload))\<lparr>om_owners :=
       [\<lparr>or_kind = ''Workload'', or_name = ''x'', or_uid = ''u1'', or_controller = True\<rparr>]\<rparr>\<rparr>)]"

definition heard_run :: "request list res \<times> store world" where
  "heard_run = on_upstream ref_deps [] WorkloadCtl ''c'' owned_instance (on heard_store)"

theorem workload_requests_witness:
  "\<exists>q. rq_cluster q = ''c'' \<and> fst heard_run = Ok [q]"
proof -
  have run: "case fst heard_run of Ok qs \<Rightarrow> length qs = 1 | _ \<Rightarrow> False" by code_simp
  obtain qs where qs: "fst heard_run = Ok qs" "length qs = 1" by (rule res_okE [OF run])
  then obtain q where q: "qs = [q]" by (auto simp: length_Suc_conv)
  with qs have "on_upstream ref_deps [] WorkloadCtl ''c'' owned_instance (on heard_store) = (Ok [q], snd heard_run)"
    by (simp add: heard_run_def prod_eq_iff)
  from workload_requests [OF this, of q] qs q show ?thesis by simp
qed

section \<open>What is waited for\<close>

text \<open>
  No event on a workload or a network makes any controller reconcile: their controllers have no \<open>For\<close>, and
  hear of them from instances and network contexts only.
\<close>

lemma unheard:
  "obj_kind y \<in> {KWorkload, KNetwork} \<Longrightarrow> on_upstream d cls c cluster y = ret []"
  by (cases c) (auto simp: on_upstream_def watches_defs)

text \<open>Nor does an event on the IAM member of a secret.\<close>

lemma iam_member_unheard:
  "obj_kind y = KIamMember \<Longrightarrow> on_downstream d c y = ret []"
  by (cases c) (auto simp: on_downstream_def watches_defs)

text \<open>The kind a reason of the instance's condition says is being provisioned.\<close>

definition awaited :: "string \<Rightarrow> kind option" where
  "awaited = map_of [(''ProvisioningServiceAccount'', KServiceAccount), (''ProvisioningSecret'', KGcpSecret),
     (''ProvisioningSecretVersion'', KSecretVersion), (''ProvisioningSecretIAMMember'', KIamMember),
     (''ProvisioningProviderInstance'', KGcpInstance)]"

text \<open>The local variables say that the instance is programmed, or what it waits for.\<close>

definition accounts :: "('b, 'z) prog_locals_scheme \<Rightarrow> bool" where
  "accounts l \<longleftrightarrow> c_status (lv_cond l) = CTrue \<or> awaited (c_reason (lv_cond l)) \<noteq> None"

lemma access_accounts:
  "secret_access d cfg cluster project dc s v sa (w, l) = (Ok p, (w', l')) \<Longrightarrow> \<not> p \<Longrightarrow> accounts l'"
  by (auto simp: secret_access_def accounts_def awaited_def set_cond_def apply_simps elim!: bindA_OkE split: if_splits)

lemma secrets_account:
  "reconcile_secrets d cfg cluster project c S cc wl x sa (w, l) = (Ok None, (w', l')) \<Longrightarrow> accounts l'"
  by (auto simp: reconcile_secrets_def set_cond_def apply_simps elim!: bindA_OkE split: if_splits)
    ((erule access_accounts, simp) | simp add: accounts_def awaited_def)+

lemma published_accounts:
  "publish_programmed d g (w, l) = (Ok (), (w', l')) \<Longrightarrow> accounts l'"
proof -
  have keep: "keeps (\<lambda>l :: inst prog_locals. c_status (lv_cond l) = CTrue) (eachA set_nic_status xs)" for xs
    unfolding eachA_def set_nic_status_def update_inst_def by (auto intro!: keeps_forA keeps_intros)
  assume "publish_programmed d g (w, l) = (Ok (), (w', l'))"
  then show "accounts l'"
    by (auto simp: publish_programmed_def accounts_def set_cond_def update_inst_def apply_simps keeps_def
        elim!: bindA_OkE split: option.splits dest!: keep [unfolded keeps_def, rule_format])
qed

lemma body_accounts:
  assumes "instance_program d e zone x cc meta (w, l) = (Ok r, (w', l'))"
  shows "accounts l'"
  using assms
  by (auto simp: instance_program_def Let_def set_cond_def apply_simps
      elim!: bindA_OkE split: if_splits option.splits)
    ((erule secrets_account) | (erule published_accounts) | simp add: accounts_def awaited_def)+

text \<open>
  The reasons for which \<open>Reconcile\<close> passes an instance over without an error, before the deferred status update
  is set up: it is gone, has no location or one of another class, is being deleted, has only just been claimed, is
  gated, or wants a runtime or a volume that is not supported. \<open>takes_up\<close> says that there is none of them.
\<close>

definition supported :: "'w deps \<Rightarrow> inst \<Rightarrow> bool" where
  "supported d i \<longleftrightarrow> (case rt_sandbox (i_runtime i) of
     Some cs \<Rightarrow> (\<forall>s :: 'w world. fst (sandbox_pod i cs s) \<noteq> Ok None)
   | None \<Rightarrow> (case rt_vm (i_runtime i) of Some as \<Rightarrow> vm_cloud_config d i as \<noteq> None | None \<Rightarrow> False))"

definition takes_up :: "'w deps \<Rightarrow> string \<Rightarrow> request \<Rightarrow> 'w world \<Rightarrow> bool" where
  "takes_up d cls rq w \<longleftrightarrow> (\<exists>w1 x w2 ref loc w3 ic.
     get_cluster d (rq_cluster rq) w = (Ok (), w1) \<and>
     get_as (upstream d (rq_cluster rq)) instance_c (rq_key rq) w1 = (Ok x, w2) \<and> i_location (pl x) = Some ref \<and>
     get_location (upstream d (rq_cluster rq)) ref cls w2 = (Ok (loc, True), w3) \<and>
     om_deleted (md x) = None \<and> has_finalizer d x gcp_infra_finalizer \<and>
     i_controller (pl x) = Some ic \<and> ic_gates ic = [] \<and> supported d (pl x))"

text \<open>The run of the body that such a reconciliation makes, and of the deferred update after it.\<close>

lemma instance_deferred:
  assumes "reconcile_instance d e x cc meta w = (Ok q, w')" and "e_up e = upstream d c"
  obtains zone w1 w2 l where
    "instance_program d e zone x cc meta (w1, \<lparr>lv_obj = x, lv_cond = instance_condition0 d x\<rparr>) = (Ok q, (w2, l))"
    "publish_instance d (upstream d c) l None w2 = (Ok None, w')"
proof -
  from assms obtain zone w1 where "defer_named \<lparr>lv_obj = x, lv_cond = instance_condition0 d x\<rparr>
      (publish_instance d (upstream d c)) (instance_program d e zone x cc meta) w1 = (Ok q, w')"
    by (auto simp: reconcile_instance_def elim!: bindA_OkE split: option.splits)
  then obtain r1 w2 l r2 where
    body: "instance_program d e zone x cc meta (w1, \<lparr>lv_obj = x, lv_cond = instance_condition0 d x\<rparr>) = (r1, (w2, l))"
    and dfn: "publish_instance d (upstream d c) l (res_err r1) w2 = (r2, w')"
    and r: "Ok q = (case r2 of Ok err \<Rightarrow> named_result r1 err | Fail e \<Rightarrow> Fail e | Panic p \<Rightarrow> Panic p)"
    unfolding defer_named_def by (rule deferringE)
  from r have "r1 = Ok q \<and> r2 = Ok None"
    by (cases r2; cases "(r1, case r2 of Ok err \<Rightarrow> err | _ \<Rightarrow> None)" rule: named_result.cases) auto
  with body dfn show thesis by (auto intro: that)
qed

lemma run_reaches_body:
  assumes "instance_run d cfg rq project x w = (Ok q, w')" and "supported d (pl x)"
  obtains e y cc meta w1 where "env_for d rq e" "e_cfg e = cfg"
    "reconcile_instance d e y cc meta w1 = (Ok q, w')"
proof -
  let ?e = "\<lambda>wl dep. \<lparr>e_cfg = cfg, e_cluster = rq_cluster rq, e_project = project, e_up = upstream d (rq_cluster rq),
      e_strategy = new_mapped_strategy d (rq_cluster rq) (dm_labels (gp_downstream cfg)),
      e_workload = wl, e_deployment = dep\<rparr>"
  from assms(1) obtain wl dep w2 where run: "(case rt_sandbox (i_runtime (pl x)) of
        Some cs \<Rightarrow> sandbox_instance d (?e wl dep) x cs
      | None \<Rightarrow> (case rt_vm (i_runtime (pl x)) of Some as \<Rightarrow> vm_instance d (?e wl dep) x as | None \<Rightarrow> ret Done)) w2 = (Ok q, w')"
    by (auto simp: instance_run_def Let_def elim!: bindA_OkE split: option.splits)
  have env: "env_for d rq (?e wl dep)" "e_cfg (?e wl dep) = cfg" by (simp_all add: env_for_def)
  show thesis
  proof (cases "rt_sandbox (i_runtime (pl x))")
    case (Some cs)
    with run have "sandbox_instance d (?e wl dep) x cs w2 = (Ok q, w')" by simp
    moreover from assms(2) Some have "sandbox_pod (pl x) cs s \<noteq> (Ok None, s')" for s s' :: "'a world"
      by (auto simp: supported_def) (metis fst_conv)
    ultimately obtain cc w3 where "reconcile_instance d (?e wl dep)
        (x\<lparr>pl := (pl x)\<lparr>i_volumes := sandbox_boot_volume # i_volumes (pl x)\<rparr>\<rparr>) cc None w3 = (Ok q, w')"
      by (auto simp: sandbox_instance_def elim!: bindA_OkE split: option.splits)
    with env show thesis by (rule that)
  next
    case None
    with run assms(2) obtain as cc where "reconcile_instance d (?e wl dep) x cc (Some (vm_metadata d x)) w2 = (Ok q, w')"
      by (auto simp: supported_def vm_instance_def split: option.splits)
    with env show thesis by (rule that)
  qed
qed

lemma taken_up_runs:
  assumes "dispatch d cfg cls InstanceCtl rq w = (Ok q, w')" and "takes_up d cls rq w"
  obtains project x w1 where "instance_run d cfg rq project x w1 = (Ok q, w')" "supported d (pl x)"
proof -
  from assms(2) obtain w1 x w2 ref loc w3 ic where *:
    "get_cluster d (rq_cluster rq) w = (Ok (), w1)"
    "get_as (upstream d (rq_cluster rq)) instance_c (rq_key rq) w1 = (Ok x, w2)"
    "i_location (pl x) = Some ref"
    "get_location (upstream d (rq_cluster rq)) ref cls w2 = (Ok (loc, True), w3)"
    "om_deleted (md x) = None" "has_finalizer d x gcp_infra_finalizer"
    "i_controller (pl x) = Some ic" "ic_gates ic = []" "supported d (pl x)"
    unfolding takes_up_def by blast
  from assms(1) * have "bindA (gcp_of (pl loc)) (\<lambda>gl. instance_run d cfg rq (gl_project gl) x) w3 = (Ok q, w')"
    by (simp add: instance_reconcile_def Let_def bindA_run tryA_run)
  then show thesis using *(9) by (auto elim!: bindA_OkE intro: that)
qed

text \<open>
  C17: The instance controller leaves no silent wait: a reconciliation that takes the instance up, passing it over
  for none of the reasons before the body of \<open>reconcileInstance\<close>, and ends without an error, has run that body and
  then the deferred status update, which succeeded, on a condition that says that the instance is programmed, or
  names what it waits for, of a kind the controller watches, with one exception, the IAM member of a secret, on
  which there is no watch.
\<close>

theorem waits_are_watched:
  assumes "dispatch d cfg cls InstanceCtl rq w = (Ok q, w')" and "takes_up d cls rq w"
  shows "\<exists>e zone x cc meta w1 w2 l. env_for d rq e \<and> e_cfg e = cfg \<and>
    instance_program d e zone x cc meta (w1, \<lparr>lv_obj = x, lv_cond = instance_condition0 d x\<rparr>) = (Ok q, (w2, l)) \<and>
    publish_instance d (upstream d (rq_cluster rq)) l None w2 = (Ok None, w') \<and>
    (c_status (lv_cond l) = CTrue \<or> (\<exists>k. awaited (c_reason (lv_cond l)) = Some k \<and>
      (RawSource k \<in> set (watches_of InstanceCtl) \<or> c_reason (lv_cond l) = ''ProvisioningSecretIAMMember'')))"
proof -
  from assms obtain project y w0 where "instance_run d cfg rq project y w0 = (Ok q, w')" "supported d (pl y)"
    by (rule taken_up_runs)
  then obtain e x cc meta w0' where e: "env_for d rq e" "e_cfg e = cfg"
    and run: "reconcile_instance d e x cc meta w0' = (Ok q, w')"
    by (rule run_reaches_body)
  from run env_forD(1) [OF e(1)] obtain zone w1 w2 l where
    body: "instance_program d e zone x cc meta (w1, \<lparr>lv_obj = x, lv_cond = instance_condition0 d x\<rparr>) = (Ok q, (w2, l))"
    and published: "publish_instance d (upstream d (rq_cluster rq)) l None w2 = (Ok None, w')"
    by (rule instance_deferred)
  from body_accounts [OF body] have "c_status (lv_cond l) = CTrue \<or> (\<exists>k. awaited (c_reason (lv_cond l)) = Some k \<and>
      (RawSource k \<in> set (watches_of InstanceCtl) \<or> c_reason (lv_cond l) = ''ProvisioningSecretIAMMember''))"
    by (auto simp: accounts_def awaited_def watches_defs split: if_splits)
  with e body published show ?thesis by blast
qed

text \<open>An instance whose workload's service account is there, but not yet in the cloud.\<close>

definition waiting_instance :: obj where
  "waiting_instance = (let y = finalized (live ''ns'' ''x'' ''u9'' (BInstance ref_inst)) in y\<lparr>md := (md y)\<lparr>om_owners :=
     [\<lparr>or_kind = ''WorkloadDeployment'', or_name = ''dep'', or_uid = ''u2'', or_controller = True\<rparr>]\<rparr>\<rparr>)"

definition waiting_world :: "store world" where
  "waiting_world = on ((tenant, waiting_instance) # (tenant, live ''ns'' ''x'' ''u1'' BWorkload) #
     (Downstream, live [] ''workload-u1'' ''a1'' (BServiceAccount (pl zero_service_account))) # heard_store)"

definition waiting_run :: "ctrl_result res \<times> store world" where
  "waiting_run = dispatch ref_deps ref_cfg [] InstanceCtl ref_rq waiting_world"

text \<open>The update the tenant sees.\<close>

fun tells :: "string \<Rightarrow> event \<Rightarrow> bool" where
  "tells why (EStatusUpdate (Upstream c) x (Inr y)) = (case pl x of
     BInstance i \<Rightarrow> list_ex (\<lambda>k. c_reason k = why) (i_conditions i) | _ \<Rightarrow> False)"
| "tells why e = False"

lemma waiting_taken_up: "takes_up ref_deps [] ref_rq waiting_world"
proof -
  let ?x = "as_kobj waiting_instance ref_inst"
  have "supported ref_deps (pl ?x)"
    by (simp add: supported_def as_kobj_def ref_inst_def sandbox_pod_def apply_simps)
  moreover have "get_cluster ref_deps (rq_cluster ref_rq) waiting_world = (Ok (), waiting_world)"
    by (simp add: get_cluster_def silent_def ref_deps_def ref_base_def ref_server_def)
  moreover have "\<exists>w2. get_as (upstream ref_deps (rq_cluster ref_rq)) instance_c (rq_key ref_rq) waiting_world = (Ok ?x, w2) \<and>
      srv w2 = srv waiting_world"
    by (simp add: get_as_def bindA_def upstream_def call_def ref_deps_def ref_base_def ref_server_def waiting_world_def on_def
        store_get_def same_object_def waiting_instance_def finalized_def live_def ref_rq_def obj_key_def zero_meta_def
        of_obj_def instance_c_def as_kobj_def Let_def apply_simps)
  moreover have "\<exists>loc w3. get_location (upstream ref_deps (rq_cluster ref_rq)) (key_of ''ns'' ''loc'') [] w2 = (Ok (loc, True), w3)"
    if "srv w2 = srv waiting_world" for w2
    using that
    by (simp add: get_location_def get_as_def bindA_def wrapE_def upstream_def call_def ref_deps_def ref_base_def ref_server_def waiting_world_def on_def
        store_get_def same_object_def waiting_instance_def finalized_def live_def ref_rq_def obj_key_def zero_meta_def
        of_obj_def location_c_def heard_store_def ref_location_def ref_loc_def should_process_def Let_def apply_simps)
  moreover have "om_deleted (md ?x) = None" "has_finalizer ref_deps ?x gcp_infra_finalizer"
    "i_location (pl ?x) = Some (key_of ''ns'' ''loc'')" "\<exists>ic. i_controller (pl ?x) = Some ic \<and> ic_gates ic = []"
    by (simp_all add: as_kobj_def waiting_instance_def finalized_def live_def zero_meta_def Let_def has_finalizer_def
        ref_deps_def ref_base_def ref_inst_def)
  ultimately show ?thesis unfolding takes_up_def by blast
qed

theorem waits_are_watched_witness:
  "tells ''ProvisioningServiceAccount'' (last (trace (snd waiting_run))) \<and>
   (\<exists>l w2. publish_instance ref_deps (upstream ref_deps ''c'') l None w2 = (Ok None, snd waiting_run) \<and>
     (c_status (lv_cond l) = CTrue \<or> (\<exists>k. awaited (c_reason (lv_cond l)) = Some k)))"
proof
  have run: "case fst waiting_run of Ok r \<Rightarrow> tells ''ProvisioningServiceAccount'' (last (trace (snd waiting_run))) | _ \<Rightarrow> False"
    by code_simp
  obtain r where r: "fst waiting_run = Ok r" "tells ''ProvisioningServiceAccount'' (last (trace (snd waiting_run)))"
    by (rule res_okE [OF run])
  show "tells ''ProvisioningServiceAccount'' (last (trace (snd waiting_run)))" by (rule r(2))
  have "dispatch ref_deps ref_cfg [] InstanceCtl ref_rq waiting_world = (Ok r, snd waiting_run)"
    using r(1) by (simp add: waiting_run_def prod_eq_iff)
  from waits_are_watched [OF this waiting_taken_up] show "\<exists>l w2. publish_instance ref_deps (upstream ref_deps ''c'') l None w2 =
      (Ok None, snd waiting_run) \<and> (c_status (lv_cond l) = CTrue \<or> (\<exists>k. awaited (c_reason (lv_cond l)) = Some k))"
    by (auto simp: ref_rq_def)
qed

end
