(* ===== verification/Warrants.thy ===== *)
theory Warrants
  imports Go_Prelude
begin

text \<open>
  A calculus for "this event happens only after that one": \<open>warrants\<close> follows the program text and collects
  the events that have happened for sure, so that what a guard in the code found out is there as evidence
  for the calls behind it.
\<close>

text \<open>
  \<open>warrants tr R E S m\<close>: where the events of \<open>S\<close> have happened already, every event of \<open>m\<close> that \<open>R\<close> picks has
  its evidence \<open>E\<close> among them and the events before it.
\<close>

definition warrants ::
  "('s \<Rightarrow> 'e list) \<Rightarrow> ('e \<Rightarrow> bool) \<Rightarrow> ('e \<Rightarrow> 'e set \<Rightarrow> bool) \<Rightarrow> 'e set \<Rightarrow> ('s \<Rightarrow> 'a \<times> 's) \<Rightarrow> bool" where
  "warrants tr R E S m \<longleftrightarrow> hist tr (\<lambda>_ es. guarded R (\<lambda>e A. E e (S \<union> A)) es) m"

lemma warrants_guarded: "warrants tr R E {} m \<longleftrightarrow> hist tr (\<lambda>_ es. guarded R E es) m"
  by (simp add: warrants_def)

lemma warrants_emits:
  assumes up: "\<And>e. upward (E e)" and m: "emits tr (\<lambda>e. R e \<longrightarrow> E e S) m"
  shows "warrants tr R E S m"
  unfolding warrants_def
proof (rule hist_mono [OF m [unfolded emits_def]])
  fix es
  assume es: "\<forall>e \<in> set es. R e \<longrightarrow> E e S"
  have "E e (S \<union> set pre)" if "es = pre @ e # post" "R e" for pre e post
  proof (rule upwardD [OF up])
    show "E e S" using es that by simp
  qed simp
  then show "guarded R (\<lambda>e A. E e (S \<union> A)) es" unfolding guarded_def by blast
qed

lemma warrants_bind:
  assumes up: "\<And>e. upward (E e)" and m: "emits tr (\<lambda>e. R e \<longrightarrow> E e S) m"
    and left: "okhist tr (\<lambda>x es. P x \<and> S' x \<subseteq> set es) m"
    and f: "\<And>x. P x \<Longrightarrow> warrants tr R E (S \<union> S' x) (f x)"
  shows "warrants tr R E S (bindA m f)"
  unfolding warrants_def
proof (rule histI)
  fix s r s'
  assume run: "bindA m f s = (r, s')"
  obtain r1 s1 where m1: "m s = (r1, s1)" by fastforce
  from emitsE [OF m m1] obtain es where es: "tr s1 = tr s @ es" "\<forall>e \<in> set es. R e \<longrightarrow> E e S" by blast
  have first: "E e (S \<union> set pre)" if "es = pre @ e # post" "R e" for pre e post
  proof (rule upwardD [OF up])
    show "E e S" using es(2) that by simp
  qed simp
  show "\<exists>es. tr s' = tr s @ es \<and> guarded R (\<lambda>e A. E e (S \<union> A)) es"
  proof (cases r1)
    case (Ok x)
    from okhistE [OF left m1 [unfolded Ok]] es(1) have x: "P x" "S' x \<subseteq> set es" by auto
    from run Ok m1 have "f x s1 = (r, s')" by (simp add: bindA_run)
    with f [OF x(1)] obtain es' where es': "tr s' = tr s1 @ es'" "guarded R (\<lambda>e A. E e (S \<union> S' x \<union> A)) es'"
      unfolding warrants_def by (auto elim: histE)
    have "guarded R (\<lambda>e A. E e (S \<union> A)) (es @ es')"
      unfolding guarded_def
    proof (intro allI impI)
      fix pre e post
      assume split: "es @ es' = pre @ e # post" and R: "R e"
      then consider (left) post' where "es = pre @ e # post'" | (right) pre' where "pre = es @ pre'" "es' = pre' @ e # post"
        by (auto simp: append_eq_append_conv2 append_eq_Cons_conv)
      then show "E e (S \<union> set pre)"
      proof cases
        case right
        with es'(2) R have "E e (S \<union> S' x \<union> set pre')" unfolding guarded_def by blast
        then show ?thesis by (rule upwardD [OF up]) (use x(2) right(1) in auto)
      qed (use first R in blast)
    qed
    with es(1) es'(1) show ?thesis by auto
  qed (use run m1 es(1) first in \<open>auto simp: bindA_run guarded_def\<close>)
qed

text \<open>A step that neither needs nor leaves evidence.\<close>

lemma warrants_skip:
  assumes "\<And>e. upward (E e)" and "emits tr (\<lambda>e. R e \<longrightarrow> E e S) m" and "\<And>x. warrants tr R E S (f x)"
  shows "warrants tr R E S (bindA m f)"
proof (rule warrants_bind [OF assms(1,2), where P = "\<lambda>_. True" and S' = "\<lambda>_. {}"])
  show "okhist tr (\<lambda>x es. True \<and> {} \<subseteq> set es) m"
    using appends_emits [OF assms(2)] by (simp add: okhist_appends)
qed (use assms(3) in simp)

lemma warrants_if [intro]: "(c \<Longrightarrow> warrants tr R E S m) \<Longrightarrow> (\<not> c \<Longrightarrow> warrants tr R E S n) \<Longrightarrow>
    warrants tr R E S (if c then m else n)"
  by simp

lemma okhist_tryA:
  assumes "okhist tr Q m" and "\<And>e es. Q' (Inl e) es" and "\<And>x es. Q x es \<Longrightarrow> Q' (Inr x) es"
  shows "okhist tr Q' (tryA m)"
  using assms(1) unfolding okhist_def by (rule hist_tryA) (use assms(2,3) in auto)

lemma warrants_case_prod:
  "(\<And>a b. x = (a, b) \<Longrightarrow> warrants tr R E S (f a b)) \<Longrightarrow> warrants tr R E S (case x of (a, b) \<Rightarrow> f a b)"
  by (cases x) auto

lemma warrants_case_option:
  "(x = None \<Longrightarrow> warrants tr R E S m) \<Longrightarrow> (\<And>y. x = Some y \<Longrightarrow> warrants tr R E S (f y)) \<Longrightarrow>
     warrants tr R E S (case x of None \<Rightarrow> m | Some y \<Rightarrow> f y)"
  by (cases x) auto

lemma warrants_case_sum:
  "(\<And>a. x = Inl a \<Longrightarrow> warrants tr R E S (f a)) \<Longrightarrow> (\<And>b. x = Inr b \<Longrightarrow> warrants tr R E S (g b)) \<Longrightarrow>
     warrants tr R E S (case x of Inl a \<Rightarrow> f a | Inr b \<Rightarrow> g b)"
  by (cases x) auto

lemma okhist_conj: "okhist tr Q m \<Longrightarrow> okhist tr Q' m \<Longrightarrow> okhist tr (\<lambda>x es. Q x es \<and> Q' x es) m"
  unfolding okhist_def by (drule (1) hist_conj) (erule hist_mono, auto)

text \<open>What a result says about itself, whatever was emitted on the way.\<close>

lemma okhist_result:
  assumes "appends tr m" and "\<And>s x s'. m s = (Ok x, s') \<Longrightarrow> P x"
  shows "okhist tr (\<lambda>x _. P x) m"
  unfolding okhist_def
proof (rule histI)
  fix s r s'
  assume run: "m s = (r, s')"
  with assms(1) obtain es where "tr s' = tr s @ es" unfolding appends_def by (auto elim: emitsE)
  with run assms(2) show "\<exists>es. tr s' = tr s @ es \<and> (\<forall>x. r = Ok x \<longrightarrow> P x)" by auto
qed

end
