(* ===== verification/Main_Setup.thy ===== *)
theory Main_Setup
  imports Controller_Setup Scenarios Warrants
begin

text \<open>
  \<open>cmd/main.go\<close>: the registration of the API types, the choice of the cluster provider, and the start of the
  process as the sequence of its steps, the first failure of which ends it, with the \<open>SetupWithManager\<close> methods
  and \<open>AddIndexers\<close> it calls. The library calls are the functions of a host, which answer from a hidden
  state; the log records the steps taken. A panic inside a goroutine that was started and the type assertion in
  the provider's \<open>Run\<close> are not modelled.
\<close>

section \<open>The host\<close>

text \<open>The command line flags and their defaults.\<close>

record flags =
  fl_probe :: string
  fl_leader :: bool
  fl_leader_namespace :: string
  fl_server_config :: string

definition default_flags :: flags where
  "default_flags = \<lparr>fl_probe = '':8081'', fl_leader = False, fl_leader_namespace = [], fl_server_config = []\<rparr>"

record 'c milo_options =
  mo_internal :: bool
  mo_project :: 'c
  mo_selector :: "string option"

datatype 'c provider = SingleProvider string | MiloProvider "'c milo_options"

datatype runnable = DeploymentCluster | DiscoveryManager

datatype task = RunRunnable runnable | RunProvider | RunDownstream | RunManager

record manager_options =
  mg_metrics :: server_options
  mg_webhook :: server_options
  mg_probe :: string
  mg_leader :: bool
  mg_leader_id :: string
  mg_leader_namespace :: string

datatype setup_step =
    AddScheme string | ReadConfig string | DecodeConfig | DefaultRest | LoadRest rest_source | NewCluster | NewDiscoveryManager
  | NewMilo | NewManager manager_options | NewDownstream "string \<rightharpoonup> string" | RegisterFinalizer string | NewSource kind
  | RegisterController controller "watch list" | IndexField kind string | AddCheck string | StartTasks "task list"

text \<open>How a task returned: the error of \<open>Engage\<close>, which only the wrapped provider calls, and of its own run.\<close>

record task_return =
  tr_task :: task
  tr_engaged :: "goerr option"
  tr_ran :: "goerr option"

record ('h, 'c) host =
  ho_scheme :: "string \<Rightarrow> 'h \<Rightarrow> (goerr + unit) \<times> 'h"
  ho_read :: "string \<Rightarrow> 'h \<Rightarrow> (goerr + string) \<times> 'h"
  ho_decode :: "string \<Rightarrow> 'h \<Rightarrow> (goerr + gcp_provider) \<times> 'h"
  ho_rest :: "rest_source \<Rightarrow> 'h \<Rightarrow> (goerr + 'c) \<times> 'h"
  ho_cluster :: "'c \<Rightarrow> (string \<rightharpoonup> string) \<Rightarrow> 'h \<Rightarrow> (goerr + unit) \<times> 'h"
  ho_discovery :: "'c \<Rightarrow> 'h \<Rightarrow> (goerr + unit) \<times> 'h"
  ho_milo :: "'c milo_options \<Rightarrow> 'h \<Rightarrow> (goerr + unit) \<times> 'h"
  ho_manager :: "'c \<Rightarrow> 'c provider \<Rightarrow> manager_options \<Rightarrow> 'h \<Rightarrow> (goerr + unit) \<times> 'h"
  ho_finalizer :: "string \<Rightarrow> 'h \<Rightarrow> (goerr + unit) \<times> 'h"
  ho_source :: "kind \<Rightarrow> 'h \<Rightarrow> (goerr + unit) \<times> 'h"
  ho_register :: "controller \<Rightarrow> watch list \<Rightarrow> 'h \<Rightarrow> (goerr + unit) \<times> 'h"
  ho_index :: "kind \<Rightarrow> string \<Rightarrow> 'h \<Rightarrow> (goerr + unit) \<times> 'h"
  ho_check :: "string \<Rightarrow> 'h \<Rightarrow> (goerr + unit) \<times> 'h"
  ho_start :: "task list \<Rightarrow> 'h \<Rightarrow> task_return list \<times> 'h"

record 'h process =
  ps_host :: 'h
  ps_log :: "setup_step list"

definition logged :: "setup_step \<Rightarrow> ('h \<Rightarrow> (goerr + 'a) \<times> 'h) \<Rightarrow> ('h process, 'a) act" where
  "logged st f = (\<lambda>p. case f (ps_host p) of
     (r, h) \<Rightarrow> (of_sum r, p\<lparr>ps_host := h, ps_log := ps_log p @ [st]\<rparr>))"

text \<open>\<open>utilruntime.Must\<close> and the functions whose name says so: an error is a panic.\<close>

definition must :: "('s, 'a) act \<Rightarrow> ('s, 'a) act" where
  "must m = (\<lambda>s. case m s of (Fail e, s') \<Rightarrow> (Panic ''must'', s') | (r, s') \<Rightarrow> (r, s'))"

section \<open>The API types\<close>



section \<open>The controllers and the index\<close>

text \<open>
  \<open>SetupWithManager\<close>: the subnet controller registers its finalizer first; the sources of the downstream
  watches are made while the builder's chain is evaluated, and \<open>Complete\<close> ends it.
\<close>

definition raw_kinds :: "watch list \<Rightarrow> kind list" where
  "raw_kinds ws = concat (map (\<lambda>w. case w of RawSource k \<Rightarrow> [k] | _ \<Rightarrow> []) ws)"

definition setup_with_manager :: "('h, 'c) host \<Rightarrow> controller \<Rightarrow> ('h process, unit) act" where
  "setup_with_manager ho c =
     bindA (if c = SubnetCtl
            then wrapE ''failed to register finalizer''
              (logged (RegisterFinalizer gcp_infra_finalizer) (ho_finalizer ho gcp_infra_finalizer))
            else ret ()) (\<lambda>_.
     bindA (eachA (\<lambda>k. must (logged (NewSource k) (ho_source ho k))) (raw_kinds (watches_of c))) (\<lambda>_.
     logged (RegisterController c (watches_of c)) (ho_register ho c (watches_of c))))"

definition add_context_indexers :: "('h, 'c) host \<Rightarrow> ('h process, unit) act" where
  "add_context_indexers ho =
     wrapE (''failed to add network context controller indexer '' @ [CHR 34] @ network_uid_index @ [CHR 34])
       (logged (IndexField KContext network_uid_index) (ho_index ho KContext network_uid_index))"

text \<open>\<open>AddIndexers\<close>: \<open>errors.Join\<close> of the one error there may be.\<close>

definition add_indexers :: "('h, 'c) host \<Rightarrow> ('h process, unit) act" where
  "add_indexers ho = bindA (tryA (add_context_indexers ho)) (\<lambda>r. case r of
     Inl e \<Rightarrow> fail (Joined [e]) | Inr _ \<Rightarrow> ret ())"

section \<open>Cluster discovery\<close>

definition initialize_cluster_discovery ::
  "api_consts \<Rightarrow> ('h, 'c) host \<Rightarrow> gcp_provider \<Rightarrow> ('h process, runnable list \<times> 'c provider) act" where
  "initialize_cluster_discovery k ho cfg =
     (let dc = gp_discovery cfg in
      if dc_mode dc = k_provider_single k then ret ([DeploymentCluster], SingleProvider ''single'')
      else if dc_mode dc = k_provider_milo k then
        bindA (wrapE ''unable to get discovery rest config''
          (logged (LoadRest (discovery_rest_config dc)) (ho_rest ho (discovery_rest_config dc)))) (\<lambda>disc.
        bindA (wrapE ''unable to get project rest config''
          (logged (LoadRest (project_rest_config dc)) (ho_rest ho (project_rest_config dc)))) (\<lambda>proj.
        bindA (wrapE ''unable to set up overall controller manager''
          (logged NewDiscoveryManager (ho_discovery ho disc))) (\<lambda>_.
        let opts = \<lparr>mo_internal = dc_internal dc, mo_project = proj, mo_selector = dc_selector dc\<rparr> in
        bindA (wrapE ''unable to create datum project provider'' (logged NewMilo (ho_milo ho opts))) (\<lambda>_.
        ret ([DeploymentCluster, DiscoveryManager], MiloProvider opts)))))
      else fail (ErrorText (''unsupported cluster discovery mode '' @ dc_mode dc)))"

section \<open>Starting and waiting\<close>

definition ignore_canceled :: "goerr option \<Rightarrow> goerr option" where
  "ignore_canceled err = (case err of
     None \<Rightarrow> None | Some e \<Rightarrow> if errors_is e ContextCanceled then None else err)"

text \<open>
  \<open>errgroup\<close>'s \<open>Wait\<close>: the first error of the tasks, in the order in which they return.
\<close>

definition group_wait :: "goerr option list \<Rightarrow> goerr option" where
  "group_wait errs = (case find (\<lambda>e. e \<noteq> None) (map ignore_canceled errs) of None \<Rightarrow> None | Some e \<Rightarrow> e)"

text \<open>\<open>Run\<close> of \<open>wrappedSingleClusterProvider\<close>, which engages the cluster first, or of the Milo provider.\<close>

definition provider_run :: "'c provider \<Rightarrow> goerr option \<Rightarrow> goerr option \<Rightarrow> goerr option" where
  "provider_run prov engaged err = (case prov of
     SingleProvider n \<Rightarrow> (case engaged of Some e \<Rightarrow> Some e | None \<Rightarrow> err)
   | MiloProvider opts \<Rightarrow> err)"

definition task_error :: "'c provider \<Rightarrow> task_return \<Rightarrow> goerr option" where
  "task_error prov r = (if tr_task r = RunProvider then provider_run prov (tr_engaged r) (tr_ran r) else tr_ran r)"

definition start_tasks :: "('h, 'c) host \<Rightarrow> 'c provider \<Rightarrow> task list \<Rightarrow> ('h process, unit) act" where
  "start_tasks ho prov ts =
     bindA (logged (StartTasks ts) (\<lambda>h. case ho_start ho ts h of (rs, h') \<Rightarrow> (Inr rs, h'))) (\<lambda>rs.
     case group_wait (map (task_error prov) rs) of None \<Rightarrow> ret () | Some e \<Rightarrow> fail (Wrapped ''unable to start'' e))"

section \<open>main\<close>

definition read_config :: "('h, 'c) host \<Rightarrow> flags \<Rightarrow> ('h process, gcp_provider) act" where
  "read_config ho fl =
     bindA (if fl_server_config fl = [] then ret []
            else wrapE ''unable to read server config''
              (logged (ReadConfig (fl_server_config fl)) (ho_read ho (fl_server_config fl)))) (\<lambda>data.
     wrapE ''unable to decode server config'' (logged DecodeConfig (ho_decode ho data)))"

definition all_controllers :: "controller list" where
  "all_controllers = [WorkloadCtl, InstanceCtl, NetworkCtl, NetworkContextCtl, SubnetCtl]"

definition main :: "api_consts \<Rightarrow> ('h, 'c) host \<Rightarrow> flags \<Rightarrow> ('h process, unit) act" where
  "main k ho fl =
     bindA (read_config ho fl) (\<lambda>cfg.
     bindA (logged DefaultRest (ho_rest ho DefaultConfig)) (\<lambda>rest.
     bindA (wrapE ''failed creating local cluster'' (logged NewCluster (ho_cluster ho rest Map.empty))) (\<lambda>_.
     bindA (wrapE ''unable to initialize cluster discovery'' (initialize_cluster_discovery k ho cfg)) (\<lambda>(runnables, prov).
     bindA (\<lambda>p. (metrics_options (gp_metrics cfg), p)) (\<lambda>metrics.
     let opts = \<lparr>mg_metrics = metrics, mg_webhook = webhook_options (gp_webhook cfg), mg_probe = fl_probe fl,
           mg_leader = fl_leader fl, mg_leader_id = ''fddf20f1.datumapis.com'',
           mg_leader_namespace = fl_leader_namespace fl\<rparr> in
     bindA (wrapE ''unable to start manager'' (logged (NewManager opts) (ho_manager ho rest prov opts))) (\<lambda>_.
     let source = downstream_rest_config (gp_downstream cfg); ls = dm_labels (gp_downstream cfg) in
     bindA (wrapE ''unable to load control plane kubeconfig'' (logged (LoadRest source) (ho_rest ho source))) (\<lambda>down.
     bindA (wrapE ''failed to construct cluster'' (logged (NewDownstream ls) (ho_cluster ho down ls))) (\<lambda>_.
     bindA (eachA (\<lambda>c. wrapE ''unable to create controller'' (setup_with_manager ho c))
       all_controllers) (\<lambda>_.
     bindA (wrapE ''unable to add indexers'' (add_indexers ho)) (\<lambda>_.
     bindA (wrapE ''unable to set up health check'' (logged (AddCheck ''healthz'') (ho_check ho ''healthz''))) (\<lambda>_.
     bindA (wrapE ''unable to set up ready check'' (logged (AddCheck ''readyz'') (ho_check ho ''readyz''))) (\<lambda>_.
     start_tasks ho prov (map RunRunnable runnables @ [RunProvider, RunDownstream, RunManager])))))))))))))"


text \<open>The exit code: \<open>os.Exit(1)\<close> on an error, 2 where Go's runtime ends a panic.\<close>

fun exit_code :: "'a res \<Rightarrow> nat" where
  "exit_code (Ok x) = 0" | "exit_code (Fail e) = 1" | "exit_code (Panic p) = 2"

section \<open>Nothing runs before everything is set up\<close>

lemma hist_logged: "(\<And>r. Q (of_sum r) [st]) \<Longrightarrow> hist ps_log Q (logged st f)"
  by (rule histI) (auto simp: logged_def split: prod.splits)

lemma emits_logged [hist_intros, intro]: "P st \<Longrightarrow> emits ps_log P (logged st f)"
  unfolding emits_def by (rule hist_logged) simp

text \<open>The controllers are registered, and the index the network context watch lists by is there.\<close>

definition ready_to_start :: "setup_step set \<Rightarrow> bool" where
  "ready_to_start A \<longleftrightarrow> (\<forall>c. RegisterController c (watches_of c) \<in> A) \<and>
     IndexField KContext network_uid_index \<in> A \<and> (\<exists>ls. NewDownstream ls \<in> A)"

fun is_start :: "setup_step \<Rightarrow> bool" where
  "is_start (StartTasks ts) = True" | "is_start st = False"

lemma upward_ready [simp]: "upward ready_to_start"
  unfolding upward_def ready_to_start_def by blast

lemma leaves_logged: "upward E \<Longrightarrow> E {st} \<Longrightarrow> leaves ps_log E (logged st f)"
  unfolding leaves_def okhist_def by (rule hist_logged) simp

lemma all_controllers: "set all_controllers = UNIV"
proof -
  have "c \<in> set all_controllers" for c by (cases c) (simp_all add: all_controllers_def)
  then show ?thesis by blast
qed

lemma emits_discovery: "emits ps_log (\<lambda>st. \<not> is_start st) (initialize_cluster_discovery k ho cfg)"
  unfolding initialize_cluster_discovery_def Let_def by (intro hist_intros) simp_all

lemma emits_read_config: "emits ps_log (\<lambda>st. \<not> is_start st) (read_config ho fl)"
  unfolding read_config_def by (intro hist_intros) simp_all

lemma emits_res [hist_intros]: "emits tr P (\<lambda>s. (r, s))"
  by (rule emitsI) auto

lemma left_logged: "okhist ps_log (\<lambda>_ es. True \<and> {st} \<subseteq> set es) (logged st f)"
  by (auto simp: okhist_def intro!: hist_logged)

lemma must_Ok_iff: "must m s = (Ok x, s') \<longleftrightarrow> m s = (Ok x, s')"
  by (auto simp: must_def split: prod.splits res.splits)

lemma emits_must [hist_intros]:
  assumes "emits tr P m" shows "emits tr P (must m)"
  unfolding emits_def must_def
  by (rule histI) (auto elim: emitsE [OF assms] split: prod.splits res.splits)

lemma emits_setup:
  "(\<And>e. \<not> is_start e \<Longrightarrow> P e) \<Longrightarrow> emits ps_log P (setup_with_manager ho c)"
  unfolding setup_with_manager_def by (intro hist_intros emits_eachA) simp_all

lemma emits_add_indexers:
  "(\<And>e. \<not> is_start e \<Longrightarrow> P e) \<Longrightarrow> emits ps_log P (add_indexers ho)"
  unfolding add_indexers_def add_context_indexers_def by (intro hist_intros) simp_all

lemma leaves_setup: "leaves ps_log ((\<in>) (RegisterController c (watches_of c))) (setup_with_manager ho c)"
proof -
  have quiet: "appends ps_log (eachA (\<lambda>k. must (logged (NewSource k) (g k))) ks)" for ks and g :: "kind \<Rightarrow> 'a \<Rightarrow> (goerr + unit) \<times> 'a"
    by (rule appends_emits [where P = "\<lambda>_. True"]) (intro hist_intros emits_eachA; simp)
  have start: "appends ps_log (if c = SubnetCtl then wrapE m (logged st f) else ret ())" for m st and f :: "'a \<Rightarrow> (goerr + unit) \<times> 'a"
    by (rule appends_emits [where P = "\<lambda>_. True"]) (intro hist_intros; simp)
  show ?thesis
    unfolding setup_with_manager_def
    by (intro leaves_later leaves_logged quiet start) (auto simp: upward_def)
qed

lemma left_registered:
  "okhist ps_log (\<lambda>_ es. True \<and> range (\<lambda>c. RegisterController c (watches_of c)) \<subseteq> set es)
     (eachA (\<lambda>c. wrapE m (setup_with_manager ho c)) all_controllers)"
proof -
  have "leaves ps_log (\<lambda>A. \<forall>c \<in> set all_controllers. RegisterController c (watches_of c) \<in> A)
      (eachA (\<lambda>c. wrapE m (setup_with_manager ho c)) all_controllers)"
    by (intro leaves_eachA leaves_wrapE leaves_setup) (auto simp: upward_def)
  then show ?thesis
    unfolding leaves_def all_controllers by (rule okhist_mono) auto
qed

lemma left_indexed: "okhist ps_log (\<lambda>_ es. True \<and> {IndexField KContext network_uid_index} \<subseteq> set es) (add_indexers ho)"
proof -
  have try_log: "ps_log (snd (tryA (wrapE m (logged st f)) s)) = ps_log s @ [st]" for m st and s :: "'a process" and f :: "'a \<Rightarrow> (goerr + unit) \<times> 'a"
    by (cases "f (ps_host s)"; cases "fst (f (ps_host s))") (simp_all add: tryA_def wrapE_def logged_def)
  have "okhist ps_log (\<lambda>_ es. {IndexField KContext network_uid_index} \<subseteq> set es) (tryA (add_context_indexers ho))"
    unfolding okhist_def add_context_indexers_def by (rule histI) (metis (lifting) list.set_intros(1) try_log empty_subsetI insert_subset snd_conv)
  then show ?thesis
    unfolding add_indexers_def
    by (rule okhist_bind [where ?Q2.0 = "\<lambda>_ _ _. True"]) (auto intro!: okhist_appends appends_emits [where P = "\<lambda>_. True"] split: sum.split)
qed

lemma emits_start_quiet: "\<not> is_start st \<Longrightarrow> emits ps_log (\<lambda>e. is_start e \<longrightarrow> X e) (logged st f)"
  by (rule emits_logged) simp

lemma warrants_start:
  assumes "ready_to_start S"
  shows "warrants ps_log is_start (\<lambda>_. ready_to_start) S (start_tasks ho prov ts)"
  by (rule warrants_emits) (use assms in \<open>auto simp: start_tasks_def intro!: hist_intros\<close>)

text \<open>
  C37: The process starts its tasks only after all five controllers were registered with the manager with
  their watches, the client of the downstream cluster was made with the managed labels, and the index by
  which the network context watch lists was added: a failure of
  any of these steps ends the process before anything runs.
\<close>

theorem start_after_setup:
  assumes "main k ho fl p = (r, p')"
  shows "\<exists>es. ps_log p' = ps_log p @ es \<and> (\<forall>pre ts post. es = pre @ StartTasks ts # post \<longrightarrow>
    (\<forall>c. RegisterController c (watches_of c) \<in> set pre) \<and> IndexField KContext network_uid_index \<in> set pre \<and> (\<exists>ls. NewDownstream ls \<in> set pre))"
proof -
  have "warrants ps_log is_start (\<lambda>_. ready_to_start) {} (main k ho fl)"
    unfolding main_def Let_def
    by (intro warrants_bind [OF _ _ left_registered] warrants_bind [OF _ _ okhist_wrapE [OF left_indexed]]
        warrants_bind [OF _ _ okhist_wrapE [OF left_logged]] warrants_skip warrants_case_prod warrants_start emits_wrapE emits_eachA emits_setup emits_add_indexers emits_start_quiet emits_res
        emits_mono [OF emits_read_config] emits_mono [OF emits_discovery] upward_ready)
      (auto simp: ready_to_start_def)
  then have "hist ps_log (\<lambda>_ es. guarded is_start (\<lambda>_. ready_to_start) es) (main k ho fl)"
    by (simp add: warrants_guarded)
  from histE [OF this assms] show ?thesis
    unfolding guarded_def ready_to_start_def by (metis is_start.simps(1))
qed

text \<open>A host on which every step succeeds, and one task is canceled.\<close>

definition ref_host :: "(unit, unit) host" where
  "ref_host = \<lparr>ho_scheme = (\<lambda>_ h. (Inr (), h)), ho_read = (\<lambda>_ h. (Inr [], h)), ho_decode = (\<lambda>_ h. (Inr (set_object_defaults ''/tmp'' ref_cfg), h)),
     ho_rest = (\<lambda>_ h. (Inr (), h)), ho_cluster = (\<lambda>_ _ h. (Inr (), h)), ho_discovery = (\<lambda>_ h. (Inr (), h)),
     ho_milo = (\<lambda>_ h. (Inr (), h)), ho_manager = (\<lambda>_ _ _ h. (Inr (), h)), ho_finalizer = (\<lambda>_ h. (Inr (), h)),
     ho_source = (\<lambda>_ h. (Inr (), h)), ho_register = (\<lambda>_ _ h. (Inr (), h)), ho_index = (\<lambda>_ _ h. (Inr (), h)), ho_check = (\<lambda>_ h. (Inr (), h)),
     ho_start = (\<lambda>ts h. ([\<lparr>tr_task = RunProvider, tr_engaged = None, tr_ran = None\<rparr>,
       \<lparr>tr_task = RunManager, tr_engaged = None, tr_ran = Some (Wrapped ''stopped'' ContextCanceled)\<rparr>], h))\<rparr>"

definition ref_main :: "unit res \<times> unit process" where
  "ref_main = main ref_consts ref_host default_flags \<lparr>ps_host = (), ps_log = []\<rparr>"

lemma ref_host_steps:
  "ho_rest ref_host src h = (Inr (), h)" "ho_cluster ref_host r ls h = (Inr (), h)"
  "ho_manager ref_host r prov opts h = (Inr (), h)" "ho_register ref_host c ws h = (Inr (), h)"
  "ho_index ref_host ki n h = (Inr (), h)" "ho_check ref_host st h = (Inr (), h)"
  "ho_start ref_host ts h = ([\<lparr>tr_task = RunProvider, tr_engaged = None, tr_ran = None\<rparr>,
       \<lparr>tr_task = RunManager, tr_engaged = None, tr_ran = Some (Wrapped ''stopped'' ContextCanceled)\<rparr>], h)"
  "ho_finalizer ref_host n h = (Inr (), h)" "ho_source ref_host k h = (Inr (), h)" "ho_scheme ref_host p h = (Inr (), h)"
  by (simp_all add: ref_host_def)

lemma ref_read_config: "read_config ref_host default_flags p =
    (Ok (set_object_defaults ''/tmp'' ref_cfg), p\<lparr>ps_log := ps_log p @ [DecodeConfig]\<rparr>)"
  by (simp add: read_config_def default_flags_def ref_host_def ret_def logged_def run_simps)

lemma ref_discovery: "initialize_cluster_discovery ref_consts ref_host (set_object_defaults ''/tmp'' ref_cfg) p =
    (Ok ([DeploymentCluster], SingleProvider ''single''), p)"
  by (simp add: initialize_cluster_discovery_def Let_def ret_def defaults_defs or_default_def ref_cfg_def ref_consts_def)

lemma metrics_options_default: "\<exists>o'. metrics_options (gp_metrics (set_object_defaults tmp p)) = Ok o'"
  by (auto simp: defaults_defs metrics_options_def split: option.split)

lemma logged_ok:
  "f (ps_host p) = (Inr x, ps_host p) \<Longrightarrow> logged st f p = (Ok x, p\<lparr>ps_log := ps_log p @ [st]\<rparr>)"
  by (simp add: logged_def)

lemma ref_source: "eachA (\<lambda>k. must (logged (NewSource k) (ho_source ref_host k))) ks p =
    (Ok (), p\<lparr>ps_log := ps_log p @ map NewSource ks\<rparr>)"
  by (induction ks arbitrary: p) (simp_all add: bindA_run must_def logged_def ref_host_steps ret_def)

lemma ref_setup: "setup_with_manager ref_host c p =
    (Ok (), p\<lparr>ps_log := ps_log p @ (if c = SubnetCtl then [RegisterFinalizer gcp_infra_finalizer] else []) @
      map NewSource (raw_kinds (watches_of c)) @ [RegisterController c (watches_of c)]\<rparr>)"
  by (simp add: setup_with_manager_def bindA_run wrapE_run ref_source logged_ok ref_host_steps apply_simps)

lemma ref_indexers: "add_indexers ref_host p = (Ok (), p\<lparr>ps_log := ps_log p @ [IndexField KContext network_uid_index]\<rparr>)"
  by (simp add: add_indexers_def add_context_indexers_def bindA_def tryA_def wrapE_def logged_def ref_host_steps ret_def)

lemma ref_main_starts: "\<exists>es ts. ps_log (snd ref_main) = es @ [StartTasks ts]"
proof -
  obtain o' where "metrics_options (gp_metrics (set_object_defaults ''/tmp'' ref_cfg)) = Ok o'"
    using metrics_options_default by blast
  then show ?thesis
    unfolding ref_main_def main_def bindA_run(1) [OF ref_read_config] Let_def
    by (simp add: run_simps logged_def ref_discovery ref_host_steps all_controllers_def start_tasks_def
        ref_setup ref_indexers task_error_def provider_run_def group_wait_def ignore_canceled_def ret_def fail_def)
qed

theorem start_after_setup_witness:
  "is_start (last (ps_log (snd ref_main))) \<and>
   (\<forall>c. RegisterController c (watches_of c) \<in> set (butlast (ps_log (snd ref_main))))"
proof -
  define log where "log = ps_log (snd ref_main)"
  have last: "log \<noteq> [] \<and> is_start (last log)" unfolding log_def using ref_main_starts by auto
  then obtain ts where ts: "last log = StartTasks ts" by (cases "last log") auto
  with last have split: "log = butlast log @ [StartTasks ts]" by (metis append_butlast_last_id)
  have run: "main ref_consts ref_host default_flags \<lparr>ps_host = (), ps_log = []\<rparr> = (fst ref_main, snd ref_main)"
    by (simp add: ref_main_def)
  obtain es where es: "log = es" and
    all: "\<And>pre ts post. es = pre @ StartTasks ts # post \<Longrightarrow> \<forall>c. RegisterController c (watches_of c) \<in> set pre"
    using start_after_setup [OF run] unfolding log_def by auto
  have "\<forall>c. RegisterController c (watches_of c) \<in> set (butlast log)"
    by (rule all [of _ ts "[]"]) (use split es in simp)
  with last show ?thesis unfolding log_def by simp
qed

section \<open>Where the process panics\<close>

text \<open>The steps an error of which is a panic, and the answer of the host that made it one.\<close>

fun must_step :: "setup_step \<Rightarrow> bool" where
  "must_step (AddScheme p) = True" | "must_step (NewSource k) = True" | "must_step st = False"

definition refused_by :: "('h, 'c) host \<Rightarrow> setup_step \<Rightarrow> 'h \<Rightarrow> bool" where
  "refused_by ho st h' \<longleftrightarrow> (\<exists>h e. (\<exists>p. st = AddScheme p \<and> ho_scheme ho p h = (Inl e, h')) \<or>
     (\<exists>k. st = NewSource k \<and> ho_source ho k h = (Inl e, h')))"

text \<open>
  \<open>blames ho m\<close>: where \<open>m\<close> panics, its last step is one that must succeed and was refused; where it does not, its
  last step is no such step.
\<close>

definition blames :: "('h, 'c) host \<Rightarrow> ('h process, 'a) act \<Rightarrow> bool" where
  "blames ho m \<longleftrightarrow> (\<forall>p r p'. m p = (r, p') \<longrightarrow> (\<exists>es. ps_log p' = ps_log p @ es \<and> (case r of
     Panic q \<Rightarrow> es \<noteq> [] \<and> must_step (last es) \<and> refused_by ho (last es) (ps_host p')
   | _ \<Rightarrow> es = [] \<or> \<not> must_step (last es))))"



lemma blames_logged [simp, intro!]:
  assumes "\<not> must_step st" shows "blames ho (logged st f)"
  unfolding blames_def
proof (intro allI impI)
  fix p r p'
  assume run: "logged st f p = (r, p')"
  obtain a h where "f (ps_host p) = (a, h)" by fastforce
  with run assms show "\<exists>es. ps_log p' = ps_log p @ es \<and> (case r of
     Panic q \<Rightarrow> es \<noteq> [] \<and> must_step (last es) \<and> refused_by ho (last es) (ps_host p')
   | _ \<Rightarrow> es = [] \<or> \<not> must_step (last es))"
    by (cases a) (auto simp: logged_def)
qed



lemma blames_tryA [intro!]: "blames ho m \<Longrightarrow> blames ho (tryA m)"
  unfolding blames_def tryA_def by (fastforce split: prod.splits res.splits)





















text \<open>A source that cannot be made ends the process with Go's exit code of a panic.\<close>

lemma source_panics:
  assumes "setup_with_manager (ref_host\<lparr>ho_source := (\<lambda>k h. (Inl e, h))\<rparr>) SubnetCtl p = (r, p')"
  shows "exit_code r = 2"
  using assms
  by (auto simp: setup_with_manager_def raw_kinds_def watches_defs run_simps must_def logged_def ref_host_steps apply_simps)

text \<open>
  The process ends with exit code 0 only if every task it started returned without an error or with
  the cancellation of the context, however deep that is wrapped.
\<close>

lemma start_tasks_clean:
  "(\<exists>s'. start_tasks ho prov ts s = (Ok (), s')) =
   list_all (\<lambda>r. case task_error prov r of None \<Rightarrow> True | Some e \<Rightarrow> errors_is e ContextCanceled) (fst (ho_start ho ts (ps_host s)))"
proof -
  have wait: "group_wait (map f rs) = None \<longleftrightarrow> list_all (\<lambda>r. case f r of None \<Rightarrow> True | Some e \<Rightarrow> errors_is e ContextCanceled) rs"
    for f and rs :: "task_return list"
    by (induction rs) (auto simp: group_wait_def ignore_canceled_def split: option.splits if_splits)
  obtain rs h where run: "ho_start ho ts (ps_host s) = (rs, h)" by fastforce
  show ?thesis
    by (cases "group_wait (map (task_error prov) rs)")
      (auto simp: start_tasks_def logged_def bindA_def apply_simps run simp flip: wait)
qed

end
