(* ===== verification/Gates.thy ===== *)
theory Gates
  imports Operator_System Scenarios Warrants
begin

text \<open>
  What a reconciler has to have seen before it acts: that the object's location is one this deployment of
  the operator processes, and, before it makes anything downstream, that the object is not being deleted
  and carries the operator's finalizer. Both are read off the log of one reconciliation.
\<close>

section \<open>Reads and the calls behind them\<close>

definition location_of :: "obj \<Rightarrow> objkey option" where
  "location_of x = (case pl x of
     BContext nc \<Rightarrow> Some (nc_location nc) | BSubnet sn \<Rightarrow> Some (sn_location sn) | BInstance i \<Rightarrow> i_location i
   | _ \<Rightarrow> None)"

text \<open>Everything but a read of the request's own cluster.\<close>

definition acts :: "string \<Rightarrow> event \<Rightarrow> bool" where
  "acts c e \<longleftrightarrow> \<not> reads {Upstream c} e"

fun makes :: "event \<Rightarrow> bool" where
  "makes (ECreate s x r) = True" | "makes (EPatch s x y r) = True" | "makes e = False"

definition located :: "string \<Rightarrow> string \<Rightarrow> kind \<Rightarrow> objkey \<Rightarrow> event set \<Rightarrow> bool" where
  "located cls c k key A \<longleftrightarrow> (\<exists>x ref loc. EGet (Upstream c) k key (Inr x) \<in> A \<and> location_of x = Some ref \<and>
     EGet (Upstream c) KLocation ref (Inr (to_obj location_c loc)) \<in> A \<and> loc_gcp (pl loc) \<noteq> None \<and>
     (cls = [] \<or> loc_class (pl loc) = cls))"

definition held :: "string \<Rightarrow> kind \<Rightarrow> objkey \<Rightarrow> event set \<Rightarrow> bool" where
  "held c k key A \<longleftrightarrow> (\<exists>x. EGet (Upstream c) k key (Inr x) \<in> A \<and> om_deleted (md x) = None \<and>
     gcp_infra_finalizer \<in> set (om_finalizers (md x)))"

fun no_gates :: "body \<Rightarrow> bool" where
  "no_gates (BInstance i) = (case i_controller i of None \<Rightarrow> False | Some ic \<Rightarrow> ic_gates ic = [])"
| "no_gates b = False"

definition ungated :: "string \<Rightarrow> objkey \<Rightarrow> event set \<Rightarrow> bool" where
  "ungated c key A \<longleftrightarrow> (\<exists>x. EGet (Upstream c) KInstance key (Inr x) \<in> A \<and> no_gates (pl x))"

lemma upward_ungated [simp]: "upward (ungated c key)"
  unfolding upward_def ungated_def by blast

lemma locatedI:
  assumes "EGet (Upstream c) k key (Inr x) \<in> A" and "EGet (Upstream c) KLocation ref (Inr (to_obj location_c loc)) \<in> A"
    and "location_of x = Some ref" and "should_process cls (pl loc)"
  shows "located cls c k key A"
  using assms unfolding located_def by (auto simp: should_process_def split: if_splits)

lemma upward_located [simp]: "upward (located cls c k key)"
  unfolding upward_def located_def by blast

lemma upward_held [simp]: "upward (held c k key)"
  unfolding upward_def held_def by blast

lemma acts_reads [simp]: "\<not> acts c (EGet (Upstream c) k key r)" "\<not> acts c (EList (Upstream c) k opts r')"
  by (simp_all add: acts_def)

lemma location_of_simps [simp]:
  "location_of (to_obj context_c nc) = Some (nc_location (pl nc))"
  "location_of (to_obj subnet_c sn) = Some (sn_location (pl sn))"
  "location_of (to_obj instance_c x) = i_location (pl x)"
  by (simp_all add: location_of_def to_obj_def codec_defs)

text \<open>Where the evidence is there for every event, anything may follow.\<close>

lemma warrants_sure:
  assumes "\<And>e. upward (E e)" and "appends tr m" and "\<And>e. R e \<Longrightarrow> E e S"
  shows "warrants tr R E S m"
  by (rule warrants_emits [OF assms(1)])
    (use assms(2,3) in \<open>auto simp: appends_def elim!: emits_mono\<close>)

lemma warrants_basic [simp, intro]:
  assumes "\<And>e. upward (E e)"
  shows "warrants tr R E S (ret x)" "warrants tr R E S (fail er)" "warrants tr R E S (panic p)"
  by (rule warrants_emits [OF assms]; simp)+

text \<open>The read of the requested object, and of a location.\<close>

lemma warrants_requested:
  assumes "not_found_law d" and "codec_ok cd" and "\<And>e. upward (E e)"
    and "\<And>r. \<not> R (EGet (Upstream c) (cd_kind cd) key r)"
    and "\<And>e. warrants trace R E S (g e)"
    and "\<And>x. warrants trace R E (S \<union> {EGet (Upstream c) (cd_kind cd) key (Inr (to_obj cd x))}) (h x)"
  shows "warrants trace R E S (bindA (tryA (get_as (upstream d c) cd key)) (\<lambda>r. case r of Inl e \<Rightarrow> g e | Inr x \<Rightarrow> h x))"
proof (rule warrants_bind [OF assms(3), where P = "\<lambda>_. True" and
      S' = "\<lambda>r. case r of Inl e \<Rightarrow> {} | Inr x \<Rightarrow> {EGet (Upstream c) (cd_kind cd) key (Inr (to_obj cd x))}"])
  show "emits trace (\<lambda>e. R e \<longrightarrow> E e S) (tryA (get_as (upstream d c) cd key))"
    using assms(4) by (auto simp: upstream_def intro!: emits_tryA emits_get_as emits_call)
  show "okhist trace (\<lambda>r es. True \<and> (case r of Inl e \<Rightarrow> {}
      | Inr x \<Rightarrow> {EGet (Upstream c) (cd_kind cd) key (Inr (to_obj cd x))}) \<subseteq> set es) (tryA (get_as (upstream d c) cd key))"
    using okhist_try_get [OF assms(2,1), of "Upstream c" key "d_server d"]
    unfolding upstream_def by (rule okhist_mono) (auto split: sum.splits)
  show "warrants trace R E (S \<union> (case r of Inl e \<Rightarrow> {}
      | Inr x \<Rightarrow> {EGet (Upstream c) (cd_kind cd) key (Inr (to_obj cd x))})) (case r of Inl e \<Rightarrow> g e | Inr x \<Rightarrow> h x)" for r
    using assms(5,6) by (cases r) auto
qed

lemma okhist_get_as:
  assumes "codec_ok k"
  shows "okhist trace (\<lambda>x es. es = [EGet s (cd_kind k) key (Inr (to_obj k x))]) (get_as (api_client sv s) k key)"
  unfolding get_as_def
proof (rule okhist_bind)
  show "okhist trace (\<lambda>x es. es = [EGet s (cd_kind k) key (Inr x)]) (cl_get (api_client sv s) (cd_kind k) key)"
    by (auto simp: okhist_def intro!: hist_call)
  show "okhist trace (\<lambda>y es. of_obj k x = Inr y \<and> es = []) (pure (of_obj k x))" for x
    by (rule okhist_pure) simp
qed (use assms in \<open>auto dest: of_obj_InrD\<close>)

lemma warrants_location:
  assumes "\<And>e. upward (E e)" and "\<And>r. \<not> R (EGet (Upstream c) KLocation ref r)"
    and "warrants trace R E S q"
    and "\<And>loc. should_process cls (pl loc) \<Longrightarrow>
      warrants trace R E (S \<union> {EGet (Upstream c) KLocation ref (Inr (to_obj location_c loc))}) (h loc)"
  shows "warrants trace R E S (bindA (get_location (upstream d c) ref cls) (\<lambda>(loc, process). if \<not> process then q else h loc))"
proof (rule warrants_bind [OF assms(1), where P = "\<lambda>(loc, b). b = should_process cls (pl loc)" and
      S' = "\<lambda>(loc, b). if b then {EGet (Upstream c) KLocation ref (Inr (to_obj location_c loc))} else {}"])
  show "emits trace (\<lambda>e. R e \<longrightarrow> E e S) (get_location (upstream d c) ref cls)"
    using assms(2) by (auto simp: upstream_def intro!: emits_get_location emits_call)
  have "okhist trace (\<lambda>loc es. es = [EGet (Upstream c) KLocation ref (Inr (to_obj location_c loc))])
      (wrapE msg (get_as (upstream d c) location_c ref))" for msg
    using okhist_get_as [OF codecs_ok(4), of "Upstream c" ref "d_server d"]
    unfolding upstream_def by (simp add: okhist_wrapE)
  then show "okhist trace (\<lambda>x es. (case x of (loc, b) \<Rightarrow> b = should_process cls (pl loc)) \<and>
      (case x of (loc, b) \<Rightarrow> if b then {EGet (Upstream c) KLocation ref (Inr (to_obj location_c loc))} else {}) \<subseteq> set es)
      (get_location (upstream d c) ref cls)"
    unfolding get_location_def
    by (rule okhist_bind [where ?Q2.0 = "\<lambda>l y es. y = (l, should_process cls (pl l)) \<and> es = []"])
      (auto intro!: okhist_ret)
  show "warrants trace R E (S \<union> (case x of (loc, b) \<Rightarrow>
      if b then {EGet (Upstream c) KLocation ref (Inr (to_obj location_c loc))} else {})) (case x of (loc, process) \<Rightarrow> if \<not> process then q else h loc)"
    if "case x of (loc, b) \<Rightarrow> b = should_process cls (pl loc)" for x
    using that assms(3,4) by (cases x) auto
qed

lemma warrants_cluster:
  assumes "\<And>e. upward (E e)" and "\<And>x. warrants tr R E S (f x)" and "tr = trace"
  shows "warrants tr R E S (bindA (get_cluster d c) f)"
  by (rule warrants_skip [OF assms(1) _ assms(2)]) (simp add: assms(3))

section \<open>The rest of each reconciler only appends\<close>

lemma appends_hist: "hist tr Q m \<Longrightarrow> appends tr m"
  unfolding appends_def emits_def by (erule hist_mono) simp

lemma appends_context:
  assumes "library_laws d"
  shows "appends trace (defer_named \<lparr>lv_obj = nc, lv_cond = c0\<rparr> (publish_context d cluster) (context_program d cfg rq loc nc))"
  unfolding appends_def
  by (rule emits_defer_named [where I = "\<lambda>l. lv_obj l = nc"])
    (auto intro!: stays_emits keeps_context_program emits_mono [OF plain_context_program [OF assms]]
      emits_publish_condition emits_status_update_as emits_call simp: publish_context_def upstream_def)

lemma appends_instance_run:
  assumes "library_laws d"
  shows "appends trace (instance_run d cfg rq project x)"
proof -
  have "instance_run d cfg rq project x = instance_run d cfg (rq\<lparr>rq_key := obj_key x\<rparr>) project x"
    by (simp add: instance_run_def)
  then show ?thesis
    using appends_emits [OF plain_instance_run [OF assms, of x "rq\<lparr>rq_key := obj_key x\<rparr>" cfg project]] by simp
qed


text \<open>After the location gate.\<close>

definition subnet_rest :: "'w deps \<Rightarrow> gcp_provider \<Rightarrow> request \<Rightarrow> subnet kobj \<Rightarrow> location \<Rightarrow> ('w world, ctrl_result) act" where
  "subnet_rest d cfg rq sn loc = bindA (tryA (subnet_finalizers d sn)) (\<lambda>f. case f of
      Inl e \<Rightarrow> if is_deleting e then ret Done else fail (Wrapped ''failed to finalize'' e)
    | Inr (sn1, updated) \<Rightarrow>
        if updated then
          bindA (wrapE ''failed to update based on finalization result''
            (update_as (upstream d (rq_cluster rq)) subnet_c sn1)) (\<lambda>_. ret Done)
        else if om_deleted (md sn1) \<noteq> None then ret Done
        else if d_condition_true d (sn_conditions (pl sn1)) (k_subnet_programmed (d_consts d)) then ret Done
        else defer_unnamed \<lparr>lv_obj = sn1, lv_cond = subnet_condition0 d sn1\<rparr>
          (publish_subnet d (rq_cluster rq)) (subnet_program d cfg rq loc sn1))"

lemma appends_subnet_rest: "library_laws d \<Longrightarrow> appends trace (subnet_rest d cfg rq sn loc)"
  unfolding appends_def subnet_rest_def
  by (intro emits_bind emits_tryA emits_case_sum emits_case_prod emits_if emits_wrapE emits_update_as
      emits_mono [OF plain_subnet_finalizers] emits_mono [OF subnet_published_quiet])
    (auto simp: upstream_def intro: emits_call)

definition instance_rest :: "'w deps \<Rightarrow> gcp_provider \<Rightarrow> request \<Rightarrow> inst kobj \<Rightarrow> gcp_location \<Rightarrow> ('w world, ctrl_result) act" where
  "instance_rest d cfg rq x gl =
     (if om_deleted (md x) \<noteq> None then
        (if has_finalizer d x gcp_infra_finalizer
         then bindA (instance_finalize d (rq_cluster rq) x) (\<lambda>_. ret Done) else ret Done)
      else if \<not> has_finalizer d x gcp_infra_finalizer then
        bindA (update_as (upstream d (rq_cluster rq)) instance_c (with_finalizer d x gcp_infra_finalizer)) (\<lambda>_. ret Done)
      else (case i_controller (pl x) of
          None \<Rightarrow> panic ''nil pointer dereference''
        | Some ic \<Rightarrow>
            if ic_gates ic \<noteq> [] then ret Done
            else instance_run d cfg rq (gl_project gl) x))"

lemma appends_update_as: "appends trace (update_as (upstream d c) k x)"
  unfolding appends_def by (auto simp: upstream_def intro!: emits_update_as emits_call)

lemma appends_finalize: "library_laws d \<Longrightarrow> appends trace (instance_finalize d c x)"
  by (rule appends_hist [OF instance_finalize_clean])

lemma appends_seq [intro]: "appends tr m \<Longrightarrow> (\<And>x. appends tr (f x)) \<Longrightarrow> appends tr (bindA m f)"
  unfolding appends_def by (rule emits_bind)

lemma appends_basic [simp, intro]: "appends tr (ret x)" "appends tr (fail e)" "appends tr (panic p)"
  by (simp_all add: appends_def)

lemma warrants_gate:
  assumes "location_of x = Some ref" and "\<And>loc. appends trace (h loc)"
  shows "warrants trace (acts c) (\<lambda>_. located cls c k key) (S \<union> {EGet (Upstream c) k key (Inr x)})
    (bindA (get_location (upstream d c) ref cls) (\<lambda>(loc, process). if \<not> process then ret y else h loc))"
proof (rule warrants_location)
  fix loc :: "location kobj"
  assume "should_process cls (pl loc)"
  then have "located cls c k key (S \<union> {EGet (Upstream c) k key (Inr x)} \<union>
      {EGet (Upstream c) KLocation ref (Inr (to_obj location_c loc))})"
    by (intro locatedI [where x = x and ref = ref and loc = loc]) (simp_all add: assms(1))
  then show "warrants trace (acts c) (\<lambda>_. located cls c k key) (S \<union> {EGet (Upstream c) k key (Inr x)} \<union>
      {EGet (Upstream c) KLocation ref (Inr (to_obj location_c loc))}) (h loc)"
    by (rule warrants_sure [OF upward_located assms(2)])
qed simp_all

lemma appends_instance_rest:
  assumes "library_laws d"
  shows "appends trace (bindA (gcp_of l) (instance_rest d cfg rq x))"
  by (intro appends_seq)
    (auto simp: gcp_of_def instance_rest_def intro: appends_seq appends_instance_run [OF assms] appends_update_as
      appends_finalize [OF assms] split: option.split)

lemma context_located:
  assumes "library_laws d"
  shows "warrants trace (acts (rq_cluster rq)) (\<lambda>_. located cls (rq_cluster rq) KContext (rq_key rq)) {}
    (context_reconcile d cfg cls rq)"
  unfolding context_reconcile_def Let_def codec_kinds(6) [symmetric]
  by (intro warrants_cluster warrants_requested [OF library_lawsD(3) [OF assms]] warrants_gate)
    (simp_all add: appends_context [OF assms])

lemma subnet_located:
  assumes "library_laws d"
  shows "warrants trace (acts (rq_cluster rq)) (\<lambda>_. located cls (rq_cluster rq) KSubnet (rq_key rq)) {}
    (subnet_reconcile d cfg cls rq)"
  unfolding subnet_reconcile_def Let_def subnet_rest_def [symmetric] codec_kinds(8) [symmetric]
  by (intro warrants_cluster warrants_requested [OF library_lawsD(3) [OF assms]] warrants_gate)
    (simp_all add: appends_subnet_rest [OF assms])

lemma instance_located:
  assumes "library_laws d"
  shows "warrants trace (acts (rq_cluster rq)) (\<lambda>_. located cls (rq_cluster rq) KInstance (rq_key rq)) {}
    (instance_reconcile d cfg cls rq)"
  unfolding instance_reconcile_def Let_def instance_rest_def [symmetric] codec_kinds(1) [symmetric]
  by (intro warrants_cluster warrants_requested [OF library_lawsD(3) [OF assms]] warrants_case_option warrants_gate)
    (simp_all add: appends_instance_rest [OF assms])

section \<open>The finalizer comes first\<close>

lemma subnet_finalizers_held:
  assumes "finalize_law d" and "subnet_finalizers d sn s = (Ok (sn1, updated), s')"
    and "\<not> updated" and "om_deleted (md sn1) = None"
  shows "sn1 = sn" "gcp_infra_finalizer \<in> set (om_finalizers (md sn))"
  using assms(2-4) unfolding subnet_finalizers_law [OF assms(1)]
  by (auto simp: apply_simps split: if_splits sum.splits elim!: bindA_OkE)

lemma makes_simps [simp]: "makes (EUpdate s x r) = False" by simp

lemma subnet_held:
  assumes "library_laws d"
  shows "warrants trace makes (\<lambda>_. held (rq_cluster rq) KSubnet (rq_key rq)) {} (subnet_reconcile d cfg cls rq)"
proof -
  let ?E = "\<lambda>_ :: event. held (rq_cluster rq) KSubnet (rq_key rq)"
  have rest: "warrants trace makes ?E S (subnet_rest d cfg rq sn loc)"
    if S: "EGet (Upstream (rq_cluster rq)) KSubnet (rq_key rq) (Inr (to_obj subnet_c sn)) \<in> S" for S sn loc
    unfolding subnet_rest_def
  proof (rule warrants_bind [where S' = "\<lambda>_. {}" and P = "\<lambda>f. case f of Inr (sn1, False) \<Rightarrow> 
      om_deleted (md sn1) = None \<longrightarrow> sn1 = sn \<and> gcp_infra_finalizer \<in> set (om_finalizers (md sn)) | _ \<Rightarrow> True"], goal_cases)
    case 2
    have "emits trace (\<lambda>e. \<not> makes e) (subnet_finalizers d sn)"
      unfolding subnet_finalizers_law [OF library_lawsD(6) [OF assms]] subnet_finalize_def
      by (auto simp: downstream_def intro!: hist_intros)
    then show ?case by (auto intro!: emits_tryA elim: emits_mono)
  next
    case 3
    have "okhist trace (\<lambda>f _. case f of Inr (sn1, False) \<Rightarrow> om_deleted (md sn1) = None \<longrightarrow>
        sn1 = sn \<and> gcp_infra_finalizer \<in> set (om_finalizers (md sn)) | _ \<Rightarrow> True) (tryA (subnet_finalizers d sn))"
      by (rule okhist_result [OF appends_emits [OF emits_tryA [OF plain_subnet_finalizers [OF assms]]]])
        (auto simp: tryA_Ok_iff split: sum.splits bool.splits
          dest: subnet_finalizers_held [OF library_lawsD(6) [OF assms], where updated = False, simplified])
    then show ?case by (rule okhist_mono) simp
  next
    case (4 f)
    have sure: "warrants trace makes ?E S (defer_unnamed \<lparr>lv_obj = sn1, lv_cond = c0\<rparr>
        (publish_subnet d (rq_cluster rq)) (subnet_program d cfg rq loc sn1))"
      if "sn1 = sn" "gcp_infra_finalizer \<in> set (om_finalizers (md sn))" "om_deleted (md sn1) = None" for sn1 c0
      using that S by (intro warrants_sure upward_held appends_emits [OF subnet_published_quiet [OF assms]])
        (auto simp: held_def)
    have quiet: "warrants trace makes ?E S (bindA (wrapE msg (update_as (upstream d (rq_cluster rq)) subnet_c y)) (\<lambda>_. ret Done))"
      for y msg
      by (rule warrants_emits) (auto simp: upstream_def intro!: emits_bind emits_wrapE emits_update_as emits_call)
    from 4 show ?case
      by (cases f) (auto intro!: sure quiet split: bool.splits)
  qed simp
  show ?thesis
    unfolding subnet_reconcile_def Let_def subnet_rest_def [symmetric]
    by (intro warrants_cluster warrants_requested [OF library_lawsD(3) [OF assms]] warrants_location rest) auto
qed

lemma finalize_makes_nothing: "emits trace (\<lambda>e. \<not> makes e) (instance_finalize d c x)"
  unfolding instance_finalize_def sync_power_state_def Let_def upstream_def downstream_def
  by (intro hist_intros emits_case_prod emits_if emits_wrapE emits_get_or_zero emits_update_as emits_status_update_as emits_tryA emits_case_option emits_case_sum emits_bind) (auto intro!: hist_intros)

lemma instance_makes_after:
  assumes "library_laws d" and up: "upward E"
    and evidence: "\<And>x ic S. EGet (Upstream (rq_cluster rq)) KInstance (rq_key rq) (Inr (to_obj instance_c x)) \<in> S \<Longrightarrow>
      om_deleted (md x) = None \<Longrightarrow> has_finalizer d x gcp_infra_finalizer \<Longrightarrow>
      i_controller (pl x) = Some ic \<Longrightarrow> ic_gates ic = [] \<Longrightarrow> E S"
  shows "warrants trace makes (\<lambda>_. E) {} (instance_reconcile d cfg cls rq)"
proof -
  have quiet: "warrants trace makes (\<lambda>_. E) S (bindA (instance_finalize d c x) (\<lambda>_. ret y))"
    "warrants trace makes (\<lambda>_. E) S (bindA (update_as (upstream d c) instance_c x) (\<lambda>_. ret y))" for S x c y
    by (rule warrants_emits [OF up]; auto simp: upstream_def intro!: emits_bind emits_mono [OF finalize_makes_nothing]
        emits_update_as emits_call)+
  have rest: "warrants trace makes (\<lambda>_. E) S (instance_rest d cfg rq x gl)"
    if S: "EGet (Upstream (rq_cluster rq)) KInstance (rq_key rq) (Inr (to_obj instance_c x)) \<in> S" for S x gl
    using evidence [OF S] quiet up
      warrants_sure [OF up appends_instance_run [OF assms(1), of cfg rq "gl_project gl" x], where R = makes and S = S]
    by (auto simp: instance_rest_def split: option.split)
  show ?thesis
    unfolding instance_reconcile_def Let_def instance_rest_def [symmetric]
    by (intro warrants_cluster warrants_requested [OF library_lawsD(3) [OF assms(1)]] warrants_case_option
        warrants_location warrants_skip [where m = "gcp_of l" for l] rest)
      (auto simp: up)
qed

lemma instance_held:
  assumes "library_laws d"
  shows "warrants trace makes (\<lambda>_. held (rq_cluster rq) KInstance (rq_key rq)) {} (instance_reconcile d cfg cls rq)"
  by (rule instance_makes_after [OF assms upward_held])
    (use library_lawsD(4) [OF assms] in \<open>fastforce simp: held_def has_finalizer_def finalizer_law_def\<close>)

lemma instance_ungated:
  assumes "library_laws d"
  shows "warrants trace makes (\<lambda>_. ungated (rq_cluster rq) (rq_key rq)) {} (instance_reconcile d cfg cls rq)"
  by (rule instance_makes_after [OF assms upward_ungated]) (force simp: ungated_def to_obj_def codec_defs)

section \<open>Properties\<close>

text \<open>
  C7: The location gate: a reconciliation of a network context, a subnet or an instance does nothing but
  read its own cluster until it has read the requested object and the location this object names, and the
  location is a GCP one of the class this deployment of the operator is responsible for.
\<close>

theorem location_gate:
  assumes "library_laws d" and "dispatch d cfg cls c rq w = (r, w')"
    and "c \<in> {NetworkContextCtl, SubnetCtl, InstanceCtl}"
  shows "\<exists>es. trace w' = trace w @ es \<and>
    guarded (acts (rq_cluster rq)) (\<lambda>_. located cls (rq_cluster rq) (controller_kind c) (rq_key rq)) es"
proof -
  have "hist trace (\<lambda>_ es. guarded (acts (rq_cluster rq))
      (\<lambda>_. located cls (rq_cluster rq) (controller_kind c) (rq_key rq)) es) (dispatch d cfg cls c rq)"
    using assms(3) context_located [OF assms(1)] subnet_located [OF assms(1)] instance_located [OF assms(1)]
    by (auto simp: warrants_guarded)
  from histE [OF this assms(2)] show ?thesis by blast
qed

text \<open>A network context whose network is not programmed yet.\<close>

definition context_rq :: request where "context_rq = \<lparr>rq_cluster = ''c'', rq_key = key_of ''ns'' ''ctx''\<rparr>"

definition context_run :: "ctrl_result res \<times> store world" where
  "context_run = dispatch ref_deps ref_cfg [] NetworkContextCtl context_rq
     (on [(tenant, to_obj context_c ref_context), ref_location, (tenant, to_obj network_c ref_net)])"

theorem location_gate_witness:
  "list_ex (acts ''c'') (trace (snd context_run)) \<and>
   guarded (acts ''c'') (\<lambda>_. located [] ''c'' KContext (rq_key context_rq)) (trace (snd context_run))"
proof
  show "list_ex (acts ''c'') (trace (snd context_run))" by code_simp
  have "dispatch ref_deps ref_cfg [] NetworkContextCtl context_rq
      (on [(tenant, to_obj context_c ref_context), ref_location, (tenant, to_obj network_c ref_net)]) =
      (fst context_run, snd context_run)"
    by (simp add: context_run_def)
  from location_gate [OF ref_laws this] show "guarded (acts ''c'') (\<lambda>_. located [] ''c'' KContext (rq_key context_rq)) (trace (snd context_run))"
    by (simp add: on_def context_rq_def)
qed

text \<open>
  C8: The finalizer comes first: a reconciliation of a subnet or an instance creates or patches nothing,
  on any side, before it has read that the requested object is not being deleted and carries the
  operator's finalizer. What it makes is cleaned up when the object goes.
\<close>

theorem finalizer_before_creation:
  assumes "library_laws d" and "dispatch d cfg cls c rq w = (r, w')" and "c \<in> {SubnetCtl, InstanceCtl}"
  shows "\<exists>es. trace w' = trace w @ es \<and>
    guarded makes (\<lambda>_. held (rq_cluster rq) (controller_kind c) (rq_key rq)) es"
proof -
  have "hist trace (\<lambda>_ es. guarded makes (\<lambda>_. held (rq_cluster rq) (controller_kind c) (rq_key rq)) es)
      (dispatch d cfg cls c rq)"
    using assms(3) subnet_held [OF assms(1)] instance_held [OF assms(1)] by (auto simp: warrants_guarded)
  from histE [OF this assms(2)] show ?thesis by blast
qed

text \<open>An allocated subnet that carries the finalizer.\<close>

definition subnet_run :: "ctrl_result res \<times> store world" where
  "subnet_run = dispatch ref_deps ref_cfg [] SubnetCtl ref_rq
     (on [(tenant, finalized (to_obj subnet_c ref_subnet)), ref_location, (tenant, to_obj context_c ref_context),
       (tenant, to_obj network_c ref_net)])"

theorem finalizer_before_creation_witness:
  "list_ex makes (trace (snd subnet_run)) \<and> guarded makes (\<lambda>_. held ''c'' KSubnet (rq_key ref_rq)) (trace (snd subnet_run))"
proof
  show "list_ex makes (trace (snd subnet_run))" by code_simp
  have "dispatch ref_deps ref_cfg [] SubnetCtl ref_rq
      (on [(tenant, finalized (to_obj subnet_c ref_subnet)), ref_location, (tenant, to_obj context_c ref_context),
        (tenant, to_obj network_c ref_net)]) = (fst subnet_run, snd subnet_run)"
    by (simp add: subnet_run_def)
  from finalizer_before_creation [OF ref_laws this]
  show "guarded makes (\<lambda>_. held ''c'' KSubnet (rq_key ref_rq)) (trace (snd subnet_run))"
    by (simp add: on_def ref_rq_def)
qed

text \<open>
  C9: Scheduling gates hold an instance back: a reconciliation of an instance creates or patches nothing, on any
  side, before it has read the instance with a controller part that lists no gate.
\<close>

theorem gates_hold_creation:
  assumes "library_laws d" and "dispatch d cfg cls InstanceCtl rq w = (r, w')"
  shows "\<exists>es. trace w' = trace w @ es \<and> guarded makes (\<lambda>_. ungated (rq_cluster rq) (rq_key rq)) es"
proof -
  have "hist trace (\<lambda>_ es. guarded makes (\<lambda>_. ungated (rq_cluster rq) (rq_key rq)) es) (dispatch d cfg cls InstanceCtl rq)"
    using instance_ungated [OF assms(1)] by (simp add: warrants_guarded)
  from histE [OF this assms(2)] show ?thesis by blast
qed

text \<open>An instance that is still gated.\<close>

definition gated_inst :: inst where
  "gated_inst = ref_inst\<lparr>i_controller := Some \<lparr>ic_gates = [''network''], ic_template_hash = ''hash''\<rparr>\<rparr>"

definition gated_world :: "store world" where
  "gated_world = on [ref_location, (tenant, finalized (live ''ns'' ''x'' ''i1'' (BInstance gated_inst)))]"

definition gated_run :: "ctrl_result res \<times> store world" where
  "gated_run = dispatch ref_deps ref_cfg [] InstanceCtl ref_rq gated_world"

lemma gated_run_reads:
  "trace (snd gated_run) \<noteq> [] \<and> list_all (\<lambda>e. case e of EGet s k key (Inr x) \<Rightarrow> \<not> no_gates (pl x) | _ \<Rightarrow> True) (trace (snd gated_run))"
  by code_simp

theorem gates_hold_creation_witness:
  "trace (snd gated_run) \<noteq> [] \<and> list_all (\<lambda>e. \<not> makes e) (trace (snd gated_run))"
proof -
  have run: "dispatch ref_deps ref_cfg [] InstanceCtl ref_rq gated_world = (fst gated_run, snd gated_run)"
    by (simp add: gated_run_def)
  have "guarded makes (\<lambda>_. ungated (rq_cluster ref_rq) (rq_key ref_rq)) (trace (snd gated_run))"
    using gates_hold_creation [OF ref_laws run] by (auto simp: gated_world_def on_def)
  moreover have "\<not> ungated c key (set pre)" if "set pre \<subseteq> set (trace (snd gated_run))" for c key pre
    using gated_run_reads that by (fastforce simp: ungated_def list_all_iff)
  ultimately have "\<not> makes e" if "e \<in> set (trace (snd gated_run))" for e
    using that unfolding guarded_def by (metis in_set_conv_decomp set_append Un_upper1)
  with gated_run_reads show ?thesis by (simp add: list_all_iff)
qed

end
