(* ===== verification/Lifecycle.thy ===== *)
theory Lifecycle
  imports Gates
begin

text \<open>
  The life of an upstream object as the operator sees it: whether its finalizer is on it and whether the
  object is being deleted. The four reconcilers that hold a finalizer refine this small state machine;
  what they write to an upstream object is one of its two steps.
\<close>

section \<open>The abstract machine\<close>

datatype phase = Unclaimed | Claimed | Doomed | Free

text \<open>The operator claims an object and lets a doomed one go; a tenant deletes, which the API server defers.\<close>

inductive operator_step :: "phase \<Rightarrow> phase \<Rightarrow> bool" where
  claim: "operator_step Unclaimed Claimed"
| release: "operator_step Doomed Free"

inductive tenant_step :: "phase \<Rightarrow> phase \<Rightarrow> bool" where
  delete_unclaimed: "tenant_step Unclaimed Free"
| delete_claimed: "tenant_step Claimed Doomed"

inductive_simps operator_step_simps [simp]: "operator_step p q"
inductive_cases operator_stepE: "operator_step p q"
inductive_cases tenant_stepE: "tenant_step p q"

definition life_step :: "phase \<Rightarrow> phase \<Rightarrow> bool" where
  "life_step p q \<longleftrightarrow> operator_step p q \<or> tenant_step p q"

fun remaining :: "phase \<Rightarrow> nat" where
  "remaining Unclaimed = 3" | "remaining Claimed = 2" | "remaining Doomed = 1" | "remaining Free = 0"

lemma life_step_decreases: "life_step p q \<Longrightarrow> remaining q < remaining p"
  unfolding life_step_def by (auto elim: tenant_stepE)

lemma life_ends: "wf {(q, p). life_step p q}"
  by (rule wf_subset [OF wf_measure [of remaining]]) (auto dest: life_step_decreases)

text \<open>A claimed object is not freed without the operator: the only step into \<open>Free\<close> behind a claim is the release.\<close>

lemma claimed_until_release: "life_step\<^sup>*\<^sup>* Claimed q \<Longrightarrow> q = Claimed \<or> q = Doomed \<or> q = Free"
  by (induction rule: rtranclp_induct) (auto simp: life_step_def elim: tenant_stepE)

section \<open>The abstraction\<close>

definition phase_of :: "'b kobj \<Rightarrow> phase" where
  "phase_of x = (if om_deleted (md x) = None
     then (if gcp_infra_finalizer \<in> set (om_finalizers (md x)) then Claimed else Unclaimed)
     else (if gcp_infra_finalizer \<in> set (om_finalizers (md x)) then Doomed else Free))"

lemma phase_of_to_obj [simp]: "phase_of (to_obj k x) = phase_of x"
  by (simp add: phase_of_def)

lemma claim_step:
  assumes "finalizer_law d" and "om_deleted (md x) = None" and "\<not> has_finalizer d x gcp_infra_finalizer"
  shows "operator_step (phase_of x) (phase_of (with_finalizer d x gcp_infra_finalizer))"
  using assms by (simp add: phase_of_def has_finalizer_def with_finalizer_def finalizer_law_def)

lemma release_step:
  assumes "finalizer_law d" and "om_deleted (md x) \<noteq> None" and "has_finalizer d x gcp_infra_finalizer"
  shows "operator_step (phase_of x) (phase_of (without_finalizer d x gcp_infra_finalizer))"
  using assms by (simp add: phase_of_def has_finalizer_def without_finalizer_def finalizer_law_def)

text \<open>An update of an upstream object, and the step it has to be.\<close>

fun updates_upstream :: "event \<Rightarrow> bool" where
  "updates_upstream (EUpdate (Upstream c) y r) = True" | "updates_upstream e = False"

definition one_step :: "kind \<Rightarrow> objkey \<Rightarrow> event \<Rightarrow> event set \<Rightarrow> bool" where
  "one_step k key e A \<longleftrightarrow> (\<forall>c y r. e = EUpdate (Upstream c) y r \<longrightarrow> (\<exists>x. EGet (Upstream c) k key (Inr x) \<in> A \<and>
     operator_step (phase_of x) (phase_of y) \<and> y = x\<lparr>md := (md x)\<lparr>om_finalizers := om_finalizers (md y)\<rparr>\<rparr>))"

lemma upward_one_step [simp]: "upward (one_step k key e)"
  unfolding upward_def one_step_def by blast

text \<open>The update that carries the step.\<close>

lemma emits_step:
  assumes "EGet (Upstream c) (cd_kind cd) key (Inr (to_obj cd x)) \<in> S"
    and "operator_step (phase_of x) (phase_of y)" and "y = x\<lparr>md := (md x)\<lparr>om_finalizers := om_finalizers (md y)\<rparr>\<rparr>"
  shows "emits trace (\<lambda>e. updates_upstream e \<longrightarrow> one_step (cd_kind cd) key e S) (update_as (upstream d c) cd y)"
proof -
  have y: "to_obj cd y = (to_obj cd x)\<lparr>md := (md (to_obj cd x))\<lparr>om_finalizers := om_finalizers (md (to_obj cd y))\<rparr>\<rparr>"
    by (subst assms(3)) (simp add: to_obj_def)
  have "one_step (cd_kind cd) key (EUpdate (Upstream c) (to_obj cd y) r) S" for r
    unfolding one_step_def
  proof (intro allI impI)
    fix c' y' r'
    assume "EUpdate (Upstream c) (to_obj cd y) r = EUpdate (Upstream c') y' r'"
    then have eqs: "c' = c" "y' = to_obj cd y" by simp_all
    have "operator_step (phase_of (to_obj cd x)) (phase_of (to_obj cd y))"
      using assms(2) by (simp only: phase_of_to_obj)
    with assms(1) y show "\<exists>x. EGet (Upstream c') (cd_kind cd) key (Inr x) \<in> S \<and>
        operator_step (phase_of x) (phase_of y') \<and> y' = x\<lparr>md := (md x)\<lparr>om_finalizers := om_finalizers (md y')\<rparr>\<rparr>"
      unfolding eqs by blast
  qed
  then show ?thesis by (auto simp: upstream_def intro!: emits_update_as emits_call)
qed

lemma warrants_update:
  assumes "EGet (Upstream c) (cd_kind cd) key (Inr (to_obj cd x)) \<in> S"
    and "operator_step (phase_of x) (phase_of y)" and "y = x\<lparr>md := (md x)\<lparr>om_finalizers := om_finalizers (md y)\<rparr>\<rparr>"
  shows "warrants trace updates_upstream (one_step (cd_kind cd) key) S (bindA (update_as (upstream d c) cd y) (\<lambda>_. ret z))"
    "warrants trace updates_upstream (one_step (cd_kind cd) key) S (bindA (wrapE msg (update_as (upstream d c) cd y)) (\<lambda>_. ret z))"
  by (rule warrants_emits [OF upward_one_step]; intro emits_bind emits_wrapE emits_step [OF assms] emits_ret)+

lemma warrants_quiet:
  assumes "\<And>e. upward (E e)" and "emits tr (\<lambda>e. \<not> R e) m" and "\<And>x. warrants tr R E S (f x)"
  shows "warrants tr R E S (bindA m f)"
  by (rule warrants_skip [OF assms(1) emits_mono [OF assms(2)] assms(3)]) simp

lemma only_finalizers:
  "with_finalizer d x f = x\<lparr>md := (md x)\<lparr>om_finalizers := om_finalizers (md (with_finalizer d x f))\<rparr>\<rparr>"
  "without_finalizer d x f = x\<lparr>md := (md x)\<lparr>om_finalizers := om_finalizers (md (without_finalizer d x f))\<rparr>\<rparr>"
  by (simp_all add: with_finalizer_def without_finalizer_def)

lemma workload_lifecycle:
  assumes "library_laws d"
  shows "warrants trace updates_upstream (one_step KWorkload (rq_key rq)) {} (workload_reconcile d cfg rq)"
proof -
  have quiet: "emits trace (\<lambda>e. \<not> updates_upstream e) (workload_cleanup d cfg c wl)" for c wl
  proof -
    have "emits trace (\<lambda>e. \<not> updates_upstream e) (mapped_delete_anchor d (new_mapped d c ls) y)" for ls y
      by (rule emits_mono [OF emits_mapped_delete_anchor]) (auto elim: reads.elims)
    then show ?thesis
      unfolding workload_cleanup_def Let_def new_mapped_strategy_client
      by (intro emits_bind emits_wrapE emits_eachA emits_delete_ignoring_not_found)
        (auto simp: downstream_def intro!: emits_call)
  qed
  show ?thesis
    unfolding workload_reconcile_def Let_def codec_kinds(3) [symmetric]
    by (intro warrants_cluster warrants_requested [OF library_lawsD(3) [OF assms]] warrants_if warrants_quiet [OF _ quiet]
       warrants_update [OF _ release_step] warrants_update [OF _ claim_step] only_finalizers library_lawsD(4) [OF assms] warrants_basic upward_one_step)
      auto
qed


lemma network_lifecycle:
  assumes "library_laws d"
  shows "warrants trace updates_upstream (one_step KNetwork (rq_key rq)) {} (network_reconcile d rq)"
proof -
  have quiet: "emits trace (\<lambda>e. \<not> updates_upstream e) (wrapE msg (delete_ignoring_not_found d (downstream d) k key))" for msg k key
    by (auto simp: downstream_def intro!: emits_wrapE emits_delete_ignoring_not_found emits_call)
  show ?thesis
    unfolding network_reconcile_def Let_def codec_kinds(5) [symmetric]
    by (intro warrants_cluster warrants_requested [OF library_lawsD(3) [OF assms]] warrants_if warrants_quiet [OF _ quiet]
       warrants_update [OF _ release_step] warrants_update [OF _ claim_step] only_finalizers library_lawsD(4) [OF assms] warrants_basic upward_one_step)
      auto
qed

text \<open>
  A function whose calls are in scope for every kind of requested object updates no upstream object.
\<close>

lemma generic_quiet:
  assumes "\<And>k. emits tr (plain ls k rq) m"
  shows "emits tr (\<lambda>e. \<not> updates_upstream e) m"
proof -
  have "hist tr (\<lambda>_ es. (\<forall>e \<in> set es. plain ls KInstance rq e) \<and> (\<forall>e \<in> set es. plain ls KWorkload rq e)) m"
    using hist_conj [OF assms [unfolded emits_def] assms [unfolded emits_def]] .
  moreover have "\<not> updates_upstream e" if "plain ls KInstance rq e" "plain ls KWorkload rq e" for e
    using that by (cases e rule: updates_upstream.cases) auto
  ultimately show ?thesis unfolding emits_def by (auto elim!: hist_mono)
qed

lemma sync_no_update: "emits trace (\<lambda>e. \<not> updates_upstream e) (sync_power_state d (upstream d c) x g)"
  unfolding sync_power_state_def Let_def
  by (intro hist_intros) (auto simp: upstream_def intro: emits_call)

lemma gcp_step_no_update:
  assumes "library_laws d" and "env_for d rq e"
  shows "emits (\<lambda>(s, l). trace s) (\<lambda>e. \<not> updates_upstream e) (gcp_instance_step d e zone x cc meta sa)"
proof -
  let ?ls = "dm_labels (gp_downstream (e_cfg e))"
  have patch: "emits trace (\<lambda>e. \<not> updates_upstream e) (create_or_patch_as d
      (mapped_client d (new_mapped d (rq_cluster rq) ?ls)) gcp_instance_c y (fill_gcp_instance d e zone x cc meta sa))" for y
    by (rule generic_quiet [OF plain_create_or_patch [OF assms(1) codecs_ok(16) fill_gcp_instance_key
          plain_fill_gcp_instance [OF assms(2)]]])
  have update: "emits trace (\<lambda>e. \<not> updates_upstream e) (update_as (mapped_client d (new_mapped d (rq_cluster rq) ?ls)) gcp_instance_c y)" for y
    by (auto simp: downstream_def intro!: emits_update_as emits_call)
  show ?thesis
    unfolding gcp_instance_step_def Let_def env_forD(1,3) [OF assms(2)]
    by (intro emits_bind emits_if emits_locals emits_lift emits_wrapE patch update emits_now emits_fail emits_case_prod
        emits_assign emits_case_option emits_ret sync_no_update)
qed

lemma publish_programmed_no_update: "emits (\<lambda>(s, l). tr s) P (publish_programmed d g)"
  unfolding publish_programmed_def set_nic_status_def update_inst_def
  by (intro hist_intros emits_eachA)

lemma instance_program_no_update:
  assumes "library_laws d" and "env_for d rq e"
  shows "emits (\<lambda>(s, l). trace s) (\<lambda>e. \<not> updates_upstream e) (instance_program d e zone x cc meta)"
  unfolding instance_program_def Let_def env_forD(1,3) [OF assms(2)]
  by (intro emits_bind emits_if emits_case_option emits_lift emits_wrapE emits_set_cond emits_ret emits_fail
      gcp_step_no_update [OF assms] publish_programmed_no_update
      generic_quiet [OF plain_network_policies [OF assms(1)]] generic_quiet [OF plain_workload_service_account [OF assms]]
      generic_quiet [OF plain_build_config_maps])
    (simp add: env_forD(2) [OF assms(2)] generic_quiet [OF plain_reconcile_secrets [OF assms(1)]])


lemma reconcile_instance_no_update:
  assumes "library_laws d" and "env_for d rq e"
  shows "emits trace (\<lambda>e. \<not> updates_upstream e) (reconcile_instance d e x cc meta)"
proof -
  have "emits trace (\<lambda>e. \<not> updates_upstream e) (defer_named l0 (publish_instance d (upstream d (rq_cluster rq)))
      (instance_program d e zone x cc meta))" for l0 zone
    by (rule emits_defer_named [where I = "\<lambda>_. True", OF stays_emits [OF _ instance_program_no_update [OF assms]]])
      (auto simp: publish_instance_def upstream_def keeps_def intro!: emits_publish_condition emits_status_update_as emits_call)
  then show ?thesis
    unfolding reconcile_instance_def env_forD(1) [OF assms(2)]
    by (intro emits_case_option emits_bind emits_wrapE emits_get_as emits_fail emits_panic) (simp_all add: upstream_def emits_call)
qed

lemma instance_run_no_update:
  assumes "library_laws d"
  shows "emits trace (\<lambda>e. \<not> updates_upstream e) (instance_run d cfg rq project x)"
proof -
  have env: "env_for d rq \<lparr>e_cfg = cfg, e_cluster = rq_cluster rq, e_project = project, e_up = upstream d (rq_cluster rq),
      e_strategy = new_mapped_strategy d (rq_cluster rq) (dm_labels (gp_downstream cfg)),
      e_workload = wl, e_deployment = dep\<rparr>" for wl dep
    by (simp add: env_for_def)
  have pod: "emits trace P (sandbox_pod i cs)" for P i cs
    unfolding sandbox_pod_def sandbox_container_def sandbox_mount_def mount_disk_def disk_populator_of_def
      pod_volume_step_def Let_def
    by (intro hist_intros)
  show ?thesis
    unfolding instance_run_def Let_def sandbox_instance_def vm_instance_def
    by (intro emits_case_option emits_bind emits_wrapE emits_get_as emits_fail emits_ret emits_pure pod
        reconcile_instance_no_update [OF assms env])
      (simp_all add: upstream_def emits_call)
qed

lemma instance_lifecycle:
  assumes "library_laws d"
  shows "warrants trace updates_upstream (one_step KInstance (rq_key rq)) {} (instance_reconcile d cfg cls rq)"
proof -
  let ?G = "EGet (Upstream (rq_cluster rq)) KInstance (rq_key rq)"
  have fin: "emits trace (\<lambda>e. updates_upstream e \<longrightarrow> one_step KInstance (rq_key rq) e S) (instance_finalize d (rq_cluster rq) x)"
    if "?G (Inr (to_obj instance_c x)) \<in> S" "om_deleted (md x) \<noteq> None" "has_finalizer d x gcp_infra_finalizer" for x S
  proof -
    note step = emits_step [OF _ release_step only_finalizers(2), of "rq_cluster rq" instance_c, unfolded codec_kinds,
        OF that(1) library_lawsD(4) [OF assms] that(2,3)]
    show ?thesis
      unfolding instance_finalize_def sync_power_state_def Let_def
      by (intro emits_bind emits_wrapE emits_if emits_case_prod emits_case_option emits_case_sum emits_tryA emits_ret emits_fail
          step emits_get_or_zero emits_status_update_as)
        (auto simp: upstream_def downstream_def intro!: emits_call emits_update_as)
  qed
  have rest: "warrants trace updates_upstream (one_step KInstance (rq_key rq)) S (instance_rest d cfg rq x gl)"
    if S: "?G (Inr (to_obj instance_c x)) \<in> S" for S x gl
  proof -
    have run: "warrants trace updates_upstream (one_step KInstance (rq_key rq)) S (instance_run d cfg rq project x)" for project
      by (rule warrants_emits [OF upward_one_step], rule emits_mono [OF instance_run_no_update [OF assms]]) simp
    have claim: "warrants trace updates_upstream (one_step KInstance (rq_key rq)) S
        (bindA (update_as (upstream d (rq_cluster rq)) instance_c (with_finalizer d x gcp_infra_finalizer)) (\<lambda>_. ret Done))"
      if "om_deleted (md x) = None" "\<not> has_finalizer d x gcp_infra_finalizer"
      using warrants_update(1) [OF _ claim_step [OF library_lawsD(4) [OF assms] that] only_finalizers(1), of "rq_cluster rq" instance_c] S
      by simp
    have free: "warrants trace updates_upstream (one_step KInstance (rq_key rq)) S
        (bindA (instance_finalize d (rq_cluster rq) x) (\<lambda>_. ret Done))"
      if "om_deleted (md x) \<noteq> None" "has_finalizer d x gcp_infra_finalizer"
      by (rule warrants_emits [OF upward_one_step]) (intro emits_bind fin [OF S that] emits_ret)
    show ?thesis
      unfolding instance_rest_def by (intro warrants_if free claim warrants_case_option run warrants_basic upward_one_step) auto
  qed
  show ?thesis
    unfolding instance_reconcile_def Let_def instance_rest_def [symmetric]
    by (intro warrants_cluster warrants_requested [OF library_lawsD(3) [OF assms]] warrants_case_option
        warrants_location warrants_quiet [where m = "gcp_of l" for l] rest)
      auto
qed

lemma subnet_step:
  assumes "finalize_law d" and "subnet_finalizers d sn s = (Ok (sn1, True), s')"
  shows "operator_step (phase_of sn) (phase_of sn1)" "sn1 = sn\<lparr>md := (md sn)\<lparr>om_finalizers := om_finalizers (md sn1)\<rparr>\<rparr>"
  using assms(2) unfolding subnet_finalizers_law [OF assms(1)]
  by (auto simp: phase_of_def apply_simps split: if_splits sum.splits elim!: bindA_OkE)


lemma subnet_program_no_update:
  assumes "library_laws d"
  shows "emits trace (\<lambda>e. \<not> updates_upstream e)
    (defer_unnamed \<lparr>lv_obj = sn, lv_cond = c0\<rparr> (publish_subnet d cluster) (subnet_program d cfg rq loc sn))"
  by (rule emits_defer_unnamed [where I = "\<lambda>_. True",
        OF stays_emits [OF _ generic_quiet [OF plain_subnet_program [OF assms]]]])
    (auto simp: publish_subnet_def upstream_def keeps_def intro!: emits_publish_condition emits_status_update_as emits_call)

lemma subnet_lifecycle:
  assumes "library_laws d"
  shows "warrants trace updates_upstream (one_step KSubnet (rq_key rq)) {} (subnet_reconcile d cfg cls rq)"
proof -
  let ?G = "EGet (Upstream (rq_cluster rq)) KSubnet (rq_key rq)" and ?E = "one_step KSubnet (rq_key rq)"
  have rest: "warrants trace updates_upstream ?E S (subnet_rest d cfg rq sn loc)"
    if S: "?G (Inr (to_obj subnet_c sn)) \<in> S" for S sn loc
    unfolding subnet_rest_def
  proof (rule warrants_bind [where S' = "\<lambda>_. {}" and P = "\<lambda>f. case f of Inr (sn1, True) \<Rightarrow>
      operator_step (phase_of sn) (phase_of sn1) \<and> sn1 = sn\<lparr>md := (md sn)\<lparr>om_finalizers := om_finalizers (md sn1)\<rparr>\<rparr> | _ \<Rightarrow> True"], goal_cases)
    case 2
    show ?case
      by (rule emits_mono [OF emits_tryA [OF generic_quiet [OF plain_subnet_finalizers [OF assms]]]]) simp
  next
    case 3
    have "okhist trace (\<lambda>f _. case f of Inr (sn1, True) \<Rightarrow> operator_step (phase_of sn) (phase_of sn1) \<and>
        sn1 = sn\<lparr>md := (md sn)\<lparr>om_finalizers := om_finalizers (md sn1)\<rparr>\<rparr> | _ \<Rightarrow> True) (tryA (subnet_finalizers d sn))"
      by (rule okhist_result [OF appends_emits [OF emits_tryA [OF plain_subnet_finalizers [OF assms]]]])
        (auto simp: tryA_Ok_iff split: sum.splits bool.splits dest: subnet_step [OF library_lawsD(6) [OF assms]])
    then show ?case by (rule okhist_mono) simp
  next
    case (4 f)
    have quiet: "warrants trace updates_upstream ?E S (defer_unnamed \<lparr>lv_obj = sn1, lv_cond = c0\<rparr>
        (publish_subnet d (rq_cluster rq)) (subnet_program d cfg rq loc sn1))" for sn1 c0
      by (rule warrants_emits [OF upward_one_step], rule emits_mono [OF subnet_program_no_update [OF assms]]) simp
    have step: "warrants trace updates_upstream ?E S (bindA (wrapE msg (update_as (upstream d (rq_cluster rq)) subnet_c sn1)) (\<lambda>_. ret Done))"
      if "operator_step (phase_of sn) (phase_of sn1)" "sn1 = sn\<lparr>md := (md sn)\<lparr>om_finalizers := om_finalizers (md sn1)\<rparr>\<rparr>" for sn1 msg
      using warrants_update(2) [OF _ that, of "rq_cluster rq" subnet_c] S by simp
    from 4 show ?case
      by (cases f) (auto intro!: step quiet split: bool.splits simp del: operator_step_simps)
  qed simp
  show ?thesis
    unfolding subnet_reconcile_def Let_def subnet_rest_def [symmetric]
    by (intro warrants_cluster warrants_requested [OF library_lawsD(3) [OF assms]] warrants_location rest) auto
qed

section \<open>Properties\<close>

text \<open>
  C11: The reconcilers of workloads, networks, subnets and instances refine the life cycle: whenever one
  updates an upstream object, it is the object of the request as read in this reconciliation with nothing but
  its finalizers changed, and the update claims an unclaimed object or releases a doomed one.
\<close>

theorem lifecycle_refinement:
  assumes "library_laws d" and "dispatch d cfg cls c rq w = (r, w')" and "c \<noteq> NetworkContextCtl"
  shows "\<exists>es. trace w' = trace w @ es \<and> (\<forall>pre cl y ans post. es = pre @ EUpdate (Upstream cl) y ans # post \<longrightarrow>
    (\<exists>x. EGet (Upstream cl) (controller_kind c) (rq_key rq) (Inr x) \<in> set pre \<and> operator_step (phase_of x) (phase_of y) \<and>
       y = x\<lparr>md := (md x)\<lparr>om_finalizers := om_finalizers (md y)\<rparr>\<rparr>))"
proof -
  have "hist trace (\<lambda>_ es. guarded updates_upstream (one_step (controller_kind c) (rq_key rq)) es) (dispatch d cfg cls c rq)"
    using assms(3) workload_lifecycle [OF assms(1)] network_lifecycle [OF assms(1)] subnet_lifecycle [OF assms(1)]
      instance_lifecycle [OF assms(1)]
    by (cases c) (simp_all add: warrants_guarded)
  then obtain es where "trace w' = trace w @ es" "guarded updates_upstream (one_step (controller_kind c) (rq_key rq)) es"
    using assms(2) by (rule histE)
  then show ?thesis
    unfolding guarded_def one_step_def by (intro exI [of _ es] conjI allI impI) (auto simp del: operator_step_simps)
qed


text \<open>A doomed workload.\<close>

definition doomed_run :: "ctrl_result res \<times> store world" where
  "doomed_run = dispatch ref_deps ref_cfg [] WorkloadCtl ref_rq dying_workload"

lemma doomed_run_ends: "trace (snd doomed_run) \<noteq> [] \<and> updates_upstream (last (trace (snd doomed_run)))"
  by code_simp

theorem lifecycle_refinement_witness:
  "\<exists>cl y ans x. last (trace (snd doomed_run)) = EUpdate (Upstream cl) y ans \<and>
     EGet (Upstream cl) KWorkload (rq_key ref_rq) (Inr x) \<in> set (butlast (trace (snd doomed_run))) \<and>
     operator_step (phase_of x) (phase_of y)"
proof -
  have run: "dispatch ref_deps ref_cfg [] WorkloadCtl ref_rq dying_workload = (fst doomed_run, snd doomed_run)"
    by (simp add: doomed_run_def)
  have start: "trace dying_workload = []" by (simp add: dying_workload_def on_def)
  obtain cl y ans where last: "last (trace (snd doomed_run)) = EUpdate (Upstream cl) y ans"
    using doomed_run_ends by (cases "last (trace (snd doomed_run))" rule: updates_upstream.cases) auto
  then have "trace (snd doomed_run) = butlast (trace (snd doomed_run)) @ EUpdate (Upstream cl) y ans # []"
    using doomed_run_ends by (metis append_butlast_last_id)
  then obtain x where "EGet (Upstream cl) KWorkload (rq_key ref_rq) (Inr x) \<in> set (butlast (trace (snd doomed_run)))"
    "operator_step (phase_of x) (phase_of y)"
    using lifecycle_refinement [OF ref_laws run] start by (fastforce simp del: operator_step_simps)
  with last show ?thesis by blast
qed

section \<open>The reconcilers by the phase\<close>

text \<open>
  The reconcilers of workloads and networks with the case of the phase made explicit, for the proofs about both
  of them at once.
\<close>

definition phase_reconcile ::
  "'w deps \<Rightarrow> 'b codec \<Rightarrow> ('b kobj \<Rightarrow> ('w world, unit) act) \<Rightarrow> request \<Rightarrow> ('w world, ctrl_result) act" where
  "phase_reconcile d k cleanup rq =
     (let c = upstream d (rq_cluster rq) in
      bindA (get_cluster d (rq_cluster rq)) (\<lambda>_.
      bindA (tryA (get_as c k (rq_key rq))) (\<lambda>r. case r of
        Inl e \<Rightarrow> if d_is_not_found d e then ret Done else fail e
      | Inr x \<Rightarrow> (case phase_of x of
          Unclaimed \<Rightarrow> bindA (update_as c k (with_finalizer d x gcp_infra_finalizer)) (\<lambda>_. ret Done)
        | Claimed \<Rightarrow> ret Done
        | Doomed \<Rightarrow> bindA (cleanup x) (\<lambda>_.
            bindA (update_as c k (without_finalizer d x gcp_infra_finalizer)) (\<lambda>_. ret Done))
        | Free \<Rightarrow> ret Done))))"

definition network_cleanup :: "'w deps \<Rightarrow> network kobj \<Rightarrow> ('w world, unit) act" where
  "network_cleanup d n = wrapE ''failed to delete downstream network''
     (delete_ignoring_not_found d (downstream d) KGcpNetwork (key_of [] (network_name (om_uid (md n)))))"

lemma phase_cases:
  assumes "finalizer_law d"
  shows "(if om_deleted (md x) \<noteq> None then (if has_finalizer d x gcp_infra_finalizer then doomed else quiet)
      else if \<not> has_finalizer d x gcp_infra_finalizer then unclaimed else quiet) =
    (case phase_of x of Unclaimed \<Rightarrow> unclaimed | Claimed \<Rightarrow> quiet | Doomed \<Rightarrow> doomed | Free \<Rightarrow> quiet)"
  using assms by (auto simp: phase_of_def has_finalizer_def finalizer_law_def)

lemma workload_by_phase:
  "finalizer_law d \<Longrightarrow>
   workload_reconcile d cfg rq = phase_reconcile d workload_c (workload_cleanup d cfg (rq_cluster rq)) rq"
  unfolding workload_reconcile_def phase_reconcile_def Let_def by (simp only: phase_cases)

lemma network_by_phase: "finalizer_law d \<Longrightarrow> network_reconcile d rq = phase_reconcile d network_c (network_cleanup d) rq"
  unfolding network_reconcile_def phase_reconcile_def network_cleanup_def Let_def by (simp only: phase_cases)

end
