(* ===== verification/Publication.thy ===== *)
theory Publication
  imports Gates
begin

text \<open>
  What the deferred status updates publish: a condition that says a network context or a subnet is
  programmed only where Crossplane's answer in the same reconciliation said that the GCP resource is ready,
  and what becomes of the error of the update itself.
\<close>

section \<open>Facts about local variables and the calls that led to them\<close>

text \<open>
  \<open>ledger tr I F m\<close>: where the calls so far satisfy \<open>F\<close>, \<open>m\<close> keeps a fact \<open>I\<close> that relates the local variables
  to the calls so far.
\<close>

definition ledger ::
  "('s \<Rightarrow> 'e list) \<Rightarrow> ('l \<Rightarrow> 'e set \<Rightarrow> bool) \<Rightarrow> ('e set \<Rightarrow> bool) \<Rightarrow> ('s \<times> 'l, 'a) act \<Rightarrow> bool" where
  "ledger tr I F m \<longleftrightarrow> (\<forall>s l r s' l' A. m (s, l) = (r, (s', l')) \<longrightarrow> F A \<longrightarrow> I l A \<longrightarrow>
     (\<exists>es. tr s' = tr s @ es \<and> I l' (A \<union> set es)))"

lemma upward_simps [simp, intro]: "upward (\<lambda>_. True)" "upward (\<lambda>A. e \<in> A)" "upward ((\<in>) e)"
  by (auto simp: upward_def)

lemma upward_under [intro]:
  "upward E \<Longrightarrow> upward (\<lambda>A. P \<or> E A)" "upward E \<Longrightarrow> upward (\<lambda>A. P \<longrightarrow> E A)"
  by (auto simp: upward_def)

named_theorems ledger_intros "rules that follow the program text of a function with a deferred closure"

lemma ledgerD:
  assumes "ledger tr I F m" "m (s, l) = (r, (s', l'))" "F A" "I l A"
  obtains es where "tr s' = tr s @ es" "I l' (A \<union> set es)"
  using assms unfolding ledger_def by blast

lemma ledger_basic [ledger_intros, simp, intro]:
  "ledger tr I F (ret x)" "ledger tr I F (fail e)" "ledger tr I F (panic p)"
  by (auto simp: ledger_def apply_simps)

lemma ledger_set_cond:
  assumes "\<And>l A. F A \<Longrightarrow> I l A \<Longrightarrow> I (l\<lparr>lv_cond := f (lv_cond l)\<rparr>) A"
  shows "ledger tr I F (set_cond f)"
  unfolding ledger_def set_cond_def assign_def using assms by auto

lemma ledger_bind:
  assumes "upward F" and "ledger tr I F m" and "\<And>x. ledger tr I F (f x)"
  shows "ledger tr I F (bindA m f)"
  unfolding ledger_def
proof (intro allI impI)
  fix s l r s' l' A
  assume run: "bindA m f (s, l) = (r, (s', l'))" and A: "F A" "I l A"
  obtain r1 s1 l1 where m: "m (s, l) = (r1, (s1, l1))" by (metis surj_pair)
  from ledgerD [OF assms(2) m A] obtain es where es: "tr s1 = tr s @ es" "I l1 (A \<union> set es)" .
  show "\<exists>es. tr s' = tr s @ es \<and> I l' (A \<union> set es)"
  proof (cases r1)
    case (Ok x)
    with run m have "f x (s1, l1) = (r, (s', l'))" by (simp add: bindA_run)
    moreover have "F (A \<union> set es)" by (rule upwardD [OF assms(1) A(1)]) simp
    ultimately obtain es' where "tr s' = tr s1 @ es'" "I l' (A \<union> set es \<union> set es')"
      using ledgerD [OF assms(3) _ _ es(2)] by metis
    with es(1) show ?thesis by (auto simp: Un_assoc)
  qed (use run m es in \<open>auto simp: bindA_run\<close>)
qed

text \<open>A step that does not touch the variables, with what its result says about its calls.\<close>

lemma ledger_lift:
  assumes I: "\<And>l. upward (I l)" and F: "upward F" and Q: "\<And>x. upward (Q x)"
    and left: "okhist tr (\<lambda>x es. Q x (set es)) m"
    and f: "\<And>x. ledger tr I (\<lambda>A. F A \<and> Q x A) (f x)"
  shows "ledger tr I F (bindA (lift m) f)"
  unfolding ledger_def
proof (intro allI impI)
  fix s l r s' l' A
  assume run: "bindA (lift m) f (s, l) = (r, (s', l'))" and A: "F A" "I l A"
  obtain r1 s1 where m1: "m s = (r1, s1)" by fastforce
  then have lifted: "lift m (s, l) = (r1, (s1, l))" by (simp add: lift_run)
  from left m1 obtain es where es: "tr s1 = tr s @ es" unfolding okhist_def by (auto elim: histE)
  have kept: "F (A \<union> set es)" "I l (A \<union> set es)"
    by (rule upwardD [OF F A(1)], simp, rule upwardD [OF I A(2)], simp)
  show "\<exists>es. tr s' = tr s @ es \<and> I l' (A \<union> set es)"
  proof (cases r1)
    case (Ok x)
    with run lifted have go: "f x (s1, l) = (r, (s', l'))" by (simp add: bindA_run)
    from okhistE [OF left m1 [unfolded Ok]] es have "Q x (set es)" by auto
    then have "Q x (A \<union> set es)" by (rule upwardD [OF Q]) simp
    with kept ledgerD [OF f go] obtain es' where "tr s' = tr s1 @ es'" "I l' (A \<union> set es \<union> set es')" by metis
    with es show ?thesis by (auto simp: Un_assoc)
  qed (use run lifted es kept in \<open>auto simp: bindA_run\<close>)
qed

text \<open>The deferred function is run on variables for which the fact holds.\<close>

lemma guarded_deferring:
  assumes up: "\<And>e. upward (E e)" and body: "emits (\<lambda>(s, l). tr s) (\<lambda>e. \<not> R e) body"
    and led: "ledger tr I (\<lambda>_. True) body" and l0: "I l0 {}"
    and dfn: "\<And>l err A. I l A \<Longrightarrow> emits tr (\<lambda>e. R e \<longrightarrow> E e A) (dfn l err)"
  shows "hist tr (\<lambda>_ es. guarded R E es) (deferring join l0 dfn body)"
proof (rule histI)
  fix s r s'
  assume run: "deferring join l0 dfn body s = (r, s')"
  obtain r1 s1 l r2 where b: "body (s, l0) = (r1, (s1, l))" and d: "dfn l (res_err r1) s1 = (r2, s')"
    using deferringE [OF run] by metis
  from ledgerD [OF led b _ l0] obtain es where es: "tr s1 = tr s @ es" "I l (set es)" by auto
  from emitsE [OF body b] es(1) have quiet: "\<forall>e \<in> set es. \<not> R e" by auto
  from emitsE [OF dfn [OF es(2)] d] obtain es' where "tr s' = tr s1 @ es'" "\<forall>e \<in> set es'. R e \<longrightarrow> E e (set es)" .
  then have "tr s' = tr s @ (es @ es')" "guarded R E (es @ es')"
    using es(1) by (simp_all add: guarded_after [OF up quiet])
  then show "\<exists>es. tr s' = tr s @ es \<and> guarded R E es" by blast
qed

section \<open>Answers\<close>

text \<open>An answer to a read, a creation or a patch of a downstream object with a given kind and key.\<close>

definition obtained :: "kind \<Rightarrow> objkey \<Rightarrow> obj \<Rightarrow> event set \<Rightarrow> bool" where
  "obtained k key y A \<longleftrightarrow> EGet Downstream k key (Inr y) \<in> A \<or>
     (\<exists>x. obj_kind x = k \<and> obj_key x = key \<and>
        (ECreate Downstream x (Inr y) \<in> A \<or> (\<exists>x0. EPatch Downstream x0 x (Inr y) \<in> A)))"

lemma obtainedI:
  "EGet Downstream k key (Inr y) \<in> A \<Longrightarrow> obtained k key y A"
  "obj_kind x = k \<Longrightarrow> obj_key x = key \<Longrightarrow> ECreate Downstream x (Inr y) \<in> A \<Longrightarrow> obtained k key y A"
  "obj_kind x = k \<Longrightarrow> obj_key x = key \<Longrightarrow> EPatch Downstream x0 x (Inr y) \<in> A \<Longrightarrow> obtained k key y A"
  by (auto simp: obtained_def)

lemma upward_obtained [simp]: "upward (obtained k key y)"
  unfolding upward_def obtained_def by blast

lemma obtained_Un [intro]:
  "obtained k key y A \<Longrightarrow> obtained k key y (A \<union> B)" "obtained k key y B \<Longrightarrow> obtained k key y (A \<union> B)"
  by (auto simp: obtained_def)

lemma add_labels_kind [simp]: "pl (add_labels ls x) = pl x" "obj_key (add_labels ls x) = obj_key x"
  by (simp_all add: add_labels_def obj_key_def)

lemma okhist_mapped_create:
  assumes "create_or_update_law d"
  shows "okhist trace (\<lambda>y es. obtained (obj_kind x) (obj_key x) y (set es)) (mapped_create d (new_mapped d cluster ls) x)"
  unfolding mapped_create_def
proof (rule okhist_bind)
  show "okhist trace (\<lambda>_ _. True) (wrapE msg (ensure_namespace d (new_mapped d cluster ls) y))" for msg y
    by (intro okhist_wrapE okhist_appends appends_ensure_namespace assms)
  show "okhist trace (\<lambda>y es. es = [ECreate Downstream (add_labels ls x) (Inr y)])
      (cl_create (ms_downstream (new_mapped d cluster ls)) (add_labels (ms_labels (new_mapped d cluster ls)) x))"
    by (auto simp: okhist_def downstream_def intro!: hist_call)
qed (rule obtainedI(2) [where x = "add_labels ls x"]; simp)

lemma okhist_upsert:
  assumes "create_or_update_law d" and "keeps_key f" and "\<And>y. appends trace (f y)" and "server_law d"
  shows "okhist trace (\<lambda>y es. obtained (obj_kind x) (obj_key x) y (set es))
    (upsert_doc d cl_patch (mapped_client d (new_mapped d cluster ls)) x f)"
  unfolding upsert_doc_def
proof (rule okhist_bind [where ?Q2.0 = "\<lambda>r y es. case r of
      Inl e \<Rightarrow> obtained (obj_kind x) (obj_key x) y (set es)
    | Inr y0 \<Rightarrow> obj_key y0 = obj_key x \<longrightarrow> obj_kind y0 = obj_kind x \<longrightarrow> y = y0 \<or> obtained (obj_kind x) (obj_key x) y (set es)"])
  let ?c = "mapped_client d (new_mapped d cluster ls)"
  let ?Q1 = "\<lambda>r es. case r of Inl e \<Rightarrow> True
    | Inr y \<Rightarrow> EGet Downstream (obj_kind x) (obj_key x) (Inr y) \<in> set es \<and> obj_key y = obj_key x \<and> obj_kind y = obj_kind x"
  have "okhist trace (\<lambda>y es. EGet Downstream (obj_kind x) (obj_key x) (Inr y) \<in> set es \<and> obj_key y = obj_key x \<and> obj_kind y = obj_kind x)
      (cl_get ?c (obj_kind x) (obj_key x))"
    unfolding okhist_def
    by (rule histI) (auto simp: downstream_def call_def dest: server_lawD [OF assms(4)] split: prod.splits)
  then show "okhist trace ?Q1 (tryA (cl_get ?c (obj_kind x) (obj_key x)))"
    by (rule okhist_tryA) auto
  have keep: "okhist trace (\<lambda>z _. obj_key z = obj_key y \<and> obj_kind z = obj_kind y) (f y)" for y
    by (rule okhist_result [OF assms(3)]) (use assms(2) in \<open>auto simp: keeps_key_def\<close>)
  show "okhist trace (\<lambda>y es. case r of
      Inl e \<Rightarrow> obtained (obj_kind x) (obj_key x) y (set es)
    | Inr y0 \<Rightarrow> obj_key y0 = obj_key x \<longrightarrow> obj_kind y0 = obj_kind x \<longrightarrow> y = y0 \<or> obtained (obj_kind x) (obj_key x) y (set es))
    (case r of Inl e \<Rightarrow> if d_is_not_found d e then bindA (f x) (cl_create ?c) else fail e
     | Inr y \<Rightarrow> bindA (f y) (\<lambda>z. if d_deep_equal d y z then ret y else cl_patch ?c y z))" for r
  proof (cases r)
    case (Inl e)
    have "okhist trace (\<lambda>y es. obtained (obj_kind x) (obj_key x) y (set es)) (bindA (f x) (cl_create ?c))"
    proof (rule okhist_bind [OF keep])
      show "okhist trace (\<lambda>y es. obj_key z = obj_key x \<longrightarrow> obj_kind z = obj_kind x \<longrightarrow>
          obtained (obj_kind x) (obj_key x) y (set es)) (cl_create ?c z)" for z
        unfolding mapped_client_simps by (rule okhist_mono [OF okhist_mapped_create [OF assms(1)]]) auto
    qed auto
    with Inl show ?thesis by simp
  next
    case (Inr y0)
    have patch: "okhist trace (\<lambda>y es. obj_key z = obj_key x \<longrightarrow> obj_kind z = obj_kind x \<longrightarrow>
        y = y0 \<or> obtained (obj_kind x) (obj_key x) y (set es))
        (if d_deep_equal d y0 z then ret y0 else cl_patch ?c y0 z)" for z
      by (auto simp: okhist_def downstream_def intro!: hist_call hist_ret intro: obtainedI(3) [where x = z])
    have "okhist trace (\<lambda>y es. obj_key y0 = obj_key x \<longrightarrow> obj_kind y0 = obj_kind x \<longrightarrow>
        y = y0 \<or> obtained (obj_kind x) (obj_key x) y (set es))
        (bindA (f y0) (\<lambda>z. if d_deep_equal d y0 z then ret y0 else cl_patch ?c y0 z))"
      by (rule okhist_bind [OF keep patch]) auto
    with Inr show ?thesis by simp
  qed
qed (auto split: sum.splits intro: obtainedI)

lemma okhist_create_or_patch:
  assumes "library_laws d" and "codec_ok k" and "\<And>x s y s'. f x s = (Ok y, s') \<Longrightarrow> obj_key y = obj_key x"
    and "\<And>y. appends trace (f y)"
  shows "okhist trace (\<lambda>y es. obtained (cd_kind k) (obj_key x) (to_obj k y) (set es))
    (create_or_patch_as d (mapped_client d (new_mapped d cluster ls)) k x f)"
proof -
  have "appends trace (typed_callback k f y)" for y
    unfolding typed_callback_def appends_def
    by (intro emits_bind emits_pure emits_ret assms(4) [unfolded appends_def])
  then have up: "okhist trace (\<lambda>y es. obtained (obj_kind (to_obj k x)) (obj_key (to_obj k x)) y (set es))
      (upsert_doc d cl_patch (mapped_client d (new_mapped d cluster ls)) (to_obj k x) (typed_callback k f))"
    by (intro okhist_upsert library_lawsD [OF assms(1)] keeps_key_typed assms(2,3))
  have eq: "create_or_patch_as d c k x f =
      bindA (upsert_doc d cl_patch c (to_obj k x) (typed_callback k f)) (\<lambda>y. pure (of_obj k y))" for c
    by (rule create_or_patch_as_law [OF library_lawsD(2) [OF assms(1)] assms(2,3)])
  show ?thesis
    unfolding eq
    by (rule okhist_bind [OF up, where ?Q2.0 = "\<lambda>y z es. of_obj k y = Inr z \<and> es = []"])
      (use assms(2) in \<open>auto intro!: okhist_pure dest!: of_obj_InrD\<close>)
qed

section \<open>Programmed only if ready\<close>

definition conditions_of :: "obj \<Rightarrow> condition list" where
  "conditions_of x = (case pl x of
     BContext nc \<Rightarrow> nc_conditions nc | BSubnet sn \<Rightarrow> sn_conditions sn | BInstance i \<Rightarrow> i_conditions i | _ \<Rightarrow> [])"

text \<open>A status update that says that the condition \<open>t\<close> of the object is true.\<close>

fun announces :: "string \<Rightarrow> event \<Rightarrow> bool" where
  "announces t (EStatusUpdate s x r) =
     (case find (\<lambda>c. c_type c = t) (conditions_of x) of None \<Rightarrow> False | Some c \<Rightarrow> c_status c = CTrue)"
| "announces t e = False"

text \<open>The GCP network of the context's network was answered, in sync and ready.\<close>

definition network_of :: "obj \<Rightarrow> objkey option" where
  "network_of x = (case pl x of BContext nc \<Rightarrow> Some (key_of (om_namespace (md x)) (nc_network nc)) | _ \<Rightarrow> None)"

definition network_ready :: "'w deps \<Rightarrow> string \<Rightarrow> obj \<Rightarrow> event set \<Rightarrow> bool" where
  "network_ready d cluster x A \<longleftrightarrow> (\<exists>key n g. network_of x = Some key \<and>
     EGet (Upstream cluster) KNetwork key (Inr (to_obj network_c n)) \<in> A \<and>
     obtained KGcpNetwork (key_of [] (network_name (om_uid (md n)))) (to_obj gcp_network_c g) A \<and>
     is_ready d (gw_conditions (pl g)) \<and>
     c_reason (d_get_condition d (gw_conditions (pl g)) (k_type_synced (d_consts d))) \<noteq> ''ReconcileError'')"

definition subnetwork_ready :: "'w deps \<Rightarrow> obj \<Rightarrow> event set \<Rightarrow> bool" where
  "subnetwork_ready d x A \<longleftrightarrow> (\<exists>g. is_ready d (sw_conditions (pl g)) \<and>
     obtained KSubnetwork (key_of [] (subnet_name (om_uid (md x)))) (to_obj subnetwork_c g) A)"

lemma network_of_context [simp]:
  "network_of (to_obj context_c nc) = Some (key_of (om_namespace (md nc)) (nc_network (pl nc)))"
  by (simp add: network_of_def to_obj_def codec_defs)

lemma network_ready_conditions:
  "network_ready d cluster (to_obj context_c (nc\<lparr>pl := (pl nc)\<lparr>nc_conditions := cs\<rparr>\<rparr>)) = network_ready d cluster (to_obj context_c nc)"
  by (simp add: network_ready_def fun_eq_iff)

lemma subnetwork_ready_conditions:
  "subnetwork_ready d (to_obj subnet_c (sn\<lparr>pl := b\<rparr>)) = subnetwork_ready d (to_obj subnet_c sn)"
  by (simp add: subnetwork_ready_def fun_eq_iff)

lemma upward_network_ready [simp]: "upward (network_ready d cluster x)"
  unfolding upward_def network_ready_def using upwardD [OF upward_obtained] by blast

lemma upward_subnetwork_ready [simp]: "upward (subnetwork_ready d x)"
  unfolding upward_def subnetwork_ready_def using upwardD [OF upward_obtained] by blast

text \<open>What the locals say at any time: true only with the evidence.\<close>

definition justified :: "string \<Rightarrow> (event set \<Rightarrow> bool) \<Rightarrow> 'b kobj \<Rightarrow> ('b, 'z) prog_locals_scheme \<Rightarrow> event set \<Rightarrow> bool" where
  "justified t Ev x l A \<longleftrightarrow> lv_obj l = x \<and> c_type (lv_cond l) = t \<and> (c_status (lv_cond l) = CTrue \<longrightarrow> Ev A)"

lemma upward_justified: "upward Ev \<Longrightarrow> upward (justified t Ev x l)"
  unfolding upward_def justified_def by blast

lemma ledger_false:
  "(\<And>c. c_type (f c) = c_type c \<and> (c_status (f c) = CTrue \<longrightarrow> c_status c = CTrue)) \<Longrightarrow>
     ledger tr (justified t Ev x) F (set_cond f)"
  by (rule ledger_set_cond) (auto simp: justified_def)

lemma ledger_true:
  "(\<And>c. c_type (f c) = c_type c) \<Longrightarrow> (\<And>A. F A \<Longrightarrow> Ev A) \<Longrightarrow> ledger tr (justified t Ev x) F (set_cond f)"
  by (rule ledger_set_cond) (auto simp: justified_def)

lemma ledger_if [ledger_intros]:
  "(c \<Longrightarrow> ledger tr I F m) \<Longrightarrow> (\<not> c \<Longrightarrow> ledger tr I F n) \<Longrightarrow> ledger tr I F (if c then m else n)"
  by simp

lemma appends_wrapE: "appends tr m \<Longrightarrow> appends tr (wrapE msg m)"
  unfolding appends_def by (rule emits_wrapE)

lemma appends_get_as: "appends trace (get_as (api_client sv s) k key)"
  unfolding appends_def by (intro emits_get_as) (simp add: emits_call)

lemma ledger_context:
  assumes "library_laws d"
  shows "ledger trace (justified t (network_ready d (rq_cluster rq) (to_obj context_c nc)) nc) (\<lambda>_. True)
    (context_program d cfg rq loc nc)"
proof -
  let ?c = "rq_cluster rq" and ?ls = "dm_labels (gp_downstream cfg)"
  let ?I = "justified t (network_ready d ?c (to_obj context_c nc)) nc"
  let ?key = "key_of (om_namespace (md nc)) (nc_network (pl nc))"
  let ?read = "\<lambda>n A. EGet (Upstream ?c) KNetwork ?key (Inr (to_obj network_c n)) \<in> A"
  let ?got = "\<lambda>n r A. case r of Inl e \<Rightarrow> True
    | Inr g \<Rightarrow> obtained KGcpNetwork (key_of [] (network_name (om_uid (md n)))) (to_obj gcp_network_c g) A"
  have outcome: "ledger trace ?I F (context_outcome d g)"
    if F: "\<And>A. F A \<Longrightarrow> ?read n A \<and> ?got n (Inr g) A" "upward F" for F n g
    unfolding context_outcome_def Let_def
    by (intro ledger_if ledger_bind [OF F(2)] ledger_false ledger_true ledger_basic)
      (use F(1) in \<open>auto simp: network_ready_def\<close>)
  have patched: "okhist trace (\<lambda>r es. ?got n r (set es)) (tryA (create_or_patch_as d (mapped_client d (new_mapped d ?c ?ls))
      gcp_network_c (named [] (network_name (om_uid (md n))) zero_gcp_network) (desired_network d cfg ?c n loc)))" for n
  proof (rule okhist_tryA)
    show "okhist trace (\<lambda>g es. obtained (cd_kind gcp_network_c) (obj_key (named [] (network_name (om_uid (md n))) zero_gcp_network))
          (to_obj gcp_network_c g) (set es))
        (create_or_patch_as d (mapped_client d (new_mapped d ?c ?ls))
      gcp_network_c (named [] (network_name (om_uid (md n))) zero_gcp_network) (desired_network d cfg ?c n loc))"
      by (rule okhist_create_or_patch [OF assms]) (auto dest: desired_network_key simp: appends_def)
  qed (simp_all add: obj_key_def)
  have read: "okhist trace (\<lambda>n es. ?read n (set es)) (wrapE msg (get_as (upstream d ?c) network_c ?key))" for msg
    using okhist_get_as [OF codecs_ok(5), of "Upstream ?c" ?key "d_server d"]
    unfolding upstream_def by (intro okhist_wrapE) (erule okhist_mono, simp)
  have up: "upward (?got n r)" for n r
    using upward_obtained by (cases r) (auto simp: upward_def)
  show ?thesis
    unfolding context_program_def Let_def new_mapped_strategy_client
  proof (rule ledger_lift [where Q = ?read], goal_cases)
    case (5 n)
    show ?case
    proof (rule ledger_lift [where Q = "?got n"], goal_cases)
      case (5 r)
      show ?case
      proof (cases r)
        case (Inr g)
        show ?thesis unfolding Inr sum.case by (rule outcome [of _ n]) (auto intro: upward_conj)
      qed auto
    qed (simp_all add: upward_justified patched up)
  qed (simp_all add: upward_justified read)
qed

lemma publish_justified:
  assumes "condition_law d" and l: "justified t Ev x l A"
    and conds: "\<And>cs. conditions_of (to_obj k (x\<lparr>pl := upd cs (pl x)\<rparr>)) = cs"
    and E: "\<And>cs r. Ev A \<Longrightarrow> E (EStatusUpdate s (to_obj k (x\<lparr>pl := upd cs (pl x)\<rparr>)) r) A"
  shows "emits trace (\<lambda>e. announces t e \<longrightarrow> E e A) (publish_condition d (api_client sv s) k cnds upd l err)"
proof -
  obtain cs changed where cs: "d_set_condition d (cnds (pl x)) (lv_cond l) = (cs, changed)" by fastforce
  have t: "c_type (lv_cond l) = t" and x: "lv_obj l = x" and Ev: "c_status (lv_cond l) = CTrue \<Longrightarrow> Ev A"
    using l by (simp_all add: justified_def)
  have "find (\<lambda>c. c_type c = c_type (lv_cond l)) (fst (d_set_condition d (cnds (pl x)) (lv_cond l))) = Some (lv_cond l)"
    using assms(1) unfolding condition_law_def by blast
  then have "find (\<lambda>c. c_type c = t) cs = Some (lv_cond l)" by (simp add: cs t)
  then have "announces t (EStatusUpdate s (to_obj k (x\<lparr>pl := upd cs (pl x)\<rparr>)) r) \<Longrightarrow> Ev A" for r
    using Ev by (simp add: conds)
  then have "emits trace (\<lambda>e. announces t e \<longrightarrow> E e A) (status_update_as (api_client sv s) k (x\<lparr>pl := upd cs (pl x)\<rparr>))"
    using E by (auto intro!: emits_status_update_as emits_call simp del: announces.simps)
  then show ?thesis
    unfolding publish_condition_def Let_def x cs prod.case by (intro emits_if emits_bind emits_tryA emits_ret)
qed

lemma conditions_of_simps [simp]:
  "conditions_of (to_obj context_c nc) = nc_conditions (pl nc)"
  "conditions_of (to_obj subnet_c sn) = sn_conditions (pl sn)"
  "conditions_of (to_obj instance_c x) = i_conditions (pl x)"
  by (simp_all add: conditions_of_def to_obj_def codec_defs)

text \<open>The bodies under the deferred updates write no status themselves.\<close>

fun publishes :: "event \<Rightarrow> bool" where
  "publishes (EStatusUpdate s x r) = True" | "publishes e = False"

lemma announces_publishes: "announces t e \<Longrightarrow> publishes e"
  by (cases e) auto

lemma setup_not_publishes [simp]: "setup_event A s ls e \<Longrightarrow> \<not> publishes e" "creates_labelled s ls x e \<Longrightarrow> \<not> publishes e"
  by (cases e; auto simp: creates_labelled_def)+

lemma create_not_publishes:
  "create_or_update_law d \<Longrightarrow> emits trace (\<lambda>e. \<not> publishes e) (mapped_create d (new_mapped d cluster ls) x)"
  by (rule emits_mono [OF emits_mapped_create]) auto

lemma context_program_quiet:
  assumes "library_laws d"
  shows "emits (\<lambda>(s, l). trace s) (\<lambda>e. \<not> publishes e) (context_program d cfg rq loc nc)"
proof -
  have "emits trace (\<lambda>e. \<not> publishes e) (create_or_patch_as d (mapped_client d (new_mapped d c ls)) gcp_network_c x
      (desired_network d cfg c n loc))" for c ls x n
    by (rule emits_create_or_patch_as)
      (auto simp: downstream_def intro: library_lawsD [OF assms] emits_call create_not_publishes dest: desired_network_key)
  then show ?thesis
    unfolding context_program_def context_outcome_def Let_def new_mapped_strategy_client
    by (intro hist_intros) (auto simp: upstream_def intro: emits_call)
qed

lemma subnet_program_quiet:
  assumes "library_laws d"
  shows "emits (\<lambda>(s, l). trace s) (\<lambda>e. \<not> publishes e) (subnet_program d cfg rq loc sn)"
  unfolding subnet_program_def Let_def new_mapped_strategy_client
  by (intro hist_intros)
    (auto simp: upstream_def downstream_def intro: emits_call create_not_publishes library_lawsD [OF assms])

text \<open>The subnet: read, or created where there is none.\<close>

lemma lift_simps [simp]: "lift (ret x) = ret x"
  by (auto simp: lift_def ret_def)

lemma lift_bind: "bindA (lift m) (\<lambda>x. lift (f x)) = lift (bindA m f)"
  by (auto simp: fun_eq_iff lift_def bindA_def split: prod.splits res.splits)

lemma lift_if: "(if c then lift m else lift n) = lift (if c then m else n)"
  by simp

lemma okhist_create_mapped:
  assumes "create_or_update_law d" and "codec_ok k"
  shows "okhist trace (\<lambda>y es. obtained (cd_kind k) (obj_key x) (to_obj k y) (set es))
    (create_as (mapped_client d (new_mapped d cluster ls)) k x)"
proof -
  have "okhist trace (\<lambda>y es. obtained (cd_kind k) (obj_key x) y (set es)) (mapped_create d (new_mapped d cluster ls) (to_obj k x))"
    using okhist_mapped_create [OF assms(1), of "to_obj k x"] assms(2) by simp
  then show ?thesis
    unfolding create_as_def mapped_client_simps
    by (rule okhist_bind [where ?Q2.0 = "\<lambda>y z es. of_obj k y = Inr z \<and> es = []"])
      (use assms(2) in \<open>auto intro!: okhist_pure dest!: of_obj_InrD\<close>)
qed

lemma ledger_subnet:
  assumes "library_laws d"
  shows "ledger trace (justified t (subnetwork_ready d (to_obj subnet_c sn)) sn) (\<lambda>_. True) (subnet_program d cfg rq loc sn)"
proof -
  let ?ls = "dm_labels (gp_downstream cfg)" and ?key = "key_of [] (subnet_name (om_uid (md sn)))"
  let ?c = "mapped_client d (new_mapped d (rq_cluster rq) ?ls)"
  let ?Ev = "subnetwork_ready d (to_obj subnet_c sn)"
  let ?got = "\<lambda>g A. obtained KSubnetwork ?key (to_obj subnetwork_c g) A"
  let ?read = "\<lambda>g A. om_created (md g) \<noteq> None \<longrightarrow> ?got g A"
  have up: "upward (?read g)" for g by auto
  have read: "okhist trace (\<lambda>g es. ?read g (set es)) (wrapE msg (get_or_zero d ?c subnetwork_c ?key (named [] n zero_subnetwork)))" for msg n
    unfolding get_or_zero_mapped
    by (rule okhist_wrapE, rule okhist_mono [OF okhist_get_or_zero [OF codecs_ok(19) library_lawsD(3) [OF assms]]])
      (auto intro: obtainedI simp: zero_subnetwork_def)
  have created: "okhist trace (\<lambda>g es. ?got g (set es)) (bindA (desired_subnetwork d cfg cl sn n loc) (\<lambda>x.
      wrapE msg (create_as ?c subnetwork_c x)))" for msg n cl
  proof (rule okhist_bind)
    show "okhist trace (\<lambda>x _. obj_key x = ?key) (desired_subnetwork d cfg cl sn n loc)"
    proof (rule okhist_result)
      show "appends trace (desired_subnetwork d cfg cl sn n loc)" by (simp add: appends_def)
      show "obj_key x = ?key" if "desired_subnetwork d cfg cl sn n loc s = (Ok x, s')" for s x s'
        using that by (auto simp: desired_subnetwork_def Let_def obj_key_def elim!: bindA_OkE split: option.splits)
    qed
    show "okhist trace (\<lambda>y es. obj_key x = ?key \<longrightarrow> ?got y (set es)) (wrapE msg (create_as ?c subnetwork_c x))" for x
      by (intro okhist_wrapE okhist_mono [OF okhist_create_mapped [OF library_lawsD(1) [OF assms] codecs_ok(19)]]) auto
  qed auto
  let ?make = "\<lambda>n g0. if om_created (md g0) = None
    then bindA (desired_subnetwork d cfg (rq_cluster rq) sn n loc) (\<lambda>x.
      wrapE ''failed to create downstream subnet'' (create_as ?c subnetwork_c x)) else ret g0"
  have make: "okhist trace (\<lambda>g es. g = g0 \<and> om_created (md g0) \<noteq> None \<or> ?got g (set es)) (?make n g0)" for n g0
    using created [where n = n] by (auto intro!: okhist_ret elim: okhist_mono)
  have lifted: "(if om_created (md g0) = None then bindA (lift (desired_subnetwork d cfg (rq_cluster rq) sn n loc)) (\<lambda>x.
      lift (wrapE ''failed to create downstream subnet'' (create_as ?c subnetwork_c x))) else ret g0) = lift (?make n g0)" for n g0
    by (simp add: lift_bind)
  have quiet: "ledger trace (justified t ?Ev sn) F (set_cond (\<lambda>c. c\<lparr>c_status := CFalse, c_reason := a, c_message := b\<rparr>))" for F a b
    by (rule ledger_false) simp
  have ready: "ledger trace (justified t ?Ev sn) F (set_cond (\<lambda>c. c\<lparr>c_status := CTrue, c_reason := a, c_message := b\<rparr>))"
    if "\<And>A. F A \<Longrightarrow> ?got g A" "is_ready d (sw_conditions (pl g))" for F g a b
    by (rule ledger_true) (use that in \<open>auto simp: subnetwork_ready_def\<close>)
  have any: "okhist trace (\<lambda>_ es. True) (wrapE msg (get_as (upstream d cl) k key))" for msg cl and k :: "'b codec" and key
    unfolding upstream_def by (intro okhist_wrapE okhist_appends appends_get_as)
  show ?thesis
    unfolding subnet_program_def Let_def new_mapped_strategy_client lifted
  proof (intro ledger_if ledger_basic, rule ledger_lift [where Q = "\<lambda>_ _. True"], goal_cases)
    case (5 nc)
    show ?case
    proof (rule ledger_lift [where Q = "\<lambda>_ _. True"], goal_cases)
      case (5 n)
      show ?case
      proof (rule ledger_lift [OF _ _ up read], goal_cases)
        case (3 g0)
        show ?case
        proof (rule ledger_lift [OF _ _ _ make], goal_cases)
          case (4 g)
          show ?case by (intro ledger_if ledger_bind ledger_basic quiet ready [of _ g] upward_conj upward_under upward_simps upward_obtained) auto
        qed (auto intro: upward_conj simp: upward_justified)
      qed (auto intro: upward_conj simp: upward_justified)
    qed (simp_all add: upward_justified any)
  qed (simp_all add: upward_justified any)
qed


text \<open>Both deferred updates.\<close>

definition update_evidence :: "(obj \<Rightarrow> event set \<Rightarrow> bool) \<Rightarrow> event \<Rightarrow> event set \<Rightarrow> bool" where
  "update_evidence Rdy e A \<longleftrightarrow> (\<forall>s x r. e = EStatusUpdate s x r \<longrightarrow> Rdy x A)"

lemma upward_update_evidence: "(\<And>x. upward (Rdy x)) \<Longrightarrow> upward (update_evidence Rdy e)"
  unfolding upward_def update_evidence_def by blast

lemma deferred_announces:
  assumes "condition_law d" and "emits (\<lambda>(s, l). trace s) (\<lambda>e. \<not> publishes e) body"
    and led: "ledger trace (justified t (Rdy (to_obj k x)) x) (\<lambda>_. True) body"
    and c0: "c_type c0 = t" "c_status c0 \<noteq> CTrue" and up: "\<And>x. upward (Rdy x)"
    and conds: "\<And>cs. conditions_of (to_obj k (x\<lparr>pl := upd cs (pl x)\<rparr>)) = cs"
    and same: "\<And>cs. Rdy (to_obj k (x\<lparr>pl := upd cs (pl x)\<rparr>)) = Rdy (to_obj k x)"
  shows "hist trace (\<lambda>_ es. guarded (announces t) (update_evidence Rdy) es)
    (deferring join \<lparr>lv_obj = x, lv_cond = c0\<rparr> (publish_condition d (upstream d c) k cnds upd) body)"
proof (rule guarded_deferring [OF upward_update_evidence [OF up] _ led])
  show "emits (\<lambda>(s, l). trace s) (\<lambda>e. \<not> announces t e) body"
    by (rule emits_mono [OF assms(2)]) (auto dest: announces_publishes)
  show "justified t (Rdy (to_obj k x)) x \<lparr>lv_obj = x, lv_cond = c0\<rparr> {}"
    using c0 by (simp add: justified_def)
  show "emits trace (\<lambda>e. announces t e \<longrightarrow> update_evidence Rdy e A) (publish_condition d (upstream d c) k cnds upd l err)"
    if "justified t (Rdy (to_obj k x)) x l A" for l err A
    unfolding upstream_def by (rule publish_justified [OF assms(1) that]) (auto simp: same conds update_evidence_def)
qed

lemmas announce_seq = guarded_seq [OF upward_update_evidence]

lemma guarded_basic [simp, intro]: "hist tr (\<lambda>_ es. guarded R E es) (ret x)" "hist tr (\<lambda>_ es. guarded R E es) (fail e)"
  by (auto intro: hist_ret hist_fail)

lemma context_announces:
  assumes "library_laws d"
  shows "hist trace (\<lambda>_ es. guarded (announces (k_context_programmed (d_consts d)))
    (update_evidence (network_ready d (rq_cluster rq))) es) (context_reconcile d cfg cls rq)"
proof -
  let ?G = "\<lambda>_ es. guarded (announces (k_context_programmed (d_consts d))) (update_evidence (network_ready d (rq_cluster rq))) es"
  have published: "hist trace ?G (defer_named \<lparr>lv_obj = nc, lv_cond = context_condition0 d nc\<rparr>
      (publish_context d (rq_cluster rq)) (context_program d cfg rq loc nc))" for nc loc
    unfolding defer_named_def publish_context_def
    by (rule deferred_announces [where Rdy = "network_ready d (rq_cluster rq)"])
      (simp_all add: library_lawsD(5) [OF assms] context_program_quiet [OF assms] ledger_context [OF assms]
        context_condition0_def network_ready_conditions)
  have read: "hist trace ?G (tryA (get_as (upstream d c) k key))" "hist trace ?G (get_location (upstream d c) ref cls)" for c and k :: "'c codec" and key ref
    by (auto simp: upstream_def intro!: guarded_emits emits_tryA emits_get_as emits_get_location emits_call)
  show ?thesis
    unfolding context_reconcile_def Let_def
    by (intro announce_seq upward_network_ready guarded_emits [OF emits_get_cluster] read(1))
      (auto intro!: announce_seq upward_network_ready read published split: sum.splits)
qed

lemma subnet_announces:
  assumes "library_laws d"
  shows "hist trace (\<lambda>_ es. guarded (announces (k_subnet_programmed (d_consts d)))
    (update_evidence (subnetwork_ready d)) es) (subnet_reconcile d cfg cls rq)"
proof -
  let ?G = "\<lambda>_ es. guarded (announces (k_subnet_programmed (d_consts d))) (update_evidence (subnetwork_ready d)) es"
  have published: "hist trace ?G (defer_unnamed \<lparr>lv_obj = sn, lv_cond = subnet_condition0 d sn\<rparr>
      (publish_subnet d (rq_cluster rq)) (subnet_program d cfg rq loc sn))" for sn loc
    unfolding defer_unnamed_def publish_subnet_def
    by (rule deferred_announces [where Rdy = "subnetwork_ready d"])
      (simp_all add: library_lawsD(5) [OF assms] subnet_program_quiet [OF assms] ledger_subnet [OF assms]
        subnet_condition0_def subnetwork_ready_conditions)
  have quiet: "hist trace ?G (tryA (get_as (upstream d c) k key))" "hist trace ?G (get_location (upstream d c) ref cls)"
    "hist trace ?G (wrapE msg (update_as (upstream d c) k x))" for c and k :: "'c codec" and key ref x msg
    by (auto simp: upstream_def intro!: guarded_emits emits_tryA emits_wrapE emits_update_as emits_get_as emits_get_location emits_call)
  have "emits trace (\<lambda>e. \<not> announces t e) (subnet_finalizers d sn)" for t sn
    unfolding subnet_finalizers_law [OF library_lawsD(6) [OF assms]] subnet_finalize_def
    by (auto simp: downstream_def intro!: hist_intros)
  then have fin: "hist trace ?G (tryA (subnet_finalizers d sn))" for sn
    by (intro guarded_emits emits_tryA)
  show ?thesis
    unfolding subnet_reconcile_def Let_def
    by (intro announce_seq upward_subnetwork_ready guarded_emits [OF emits_get_cluster] quiet(1))
      (auto intro!: announce_seq upward_subnetwork_ready quiet fin published split: sum.splits)
qed


section \<open>The error of the update itself\<close>

lemma status_update_run:
  "\<exists>ans w1. status_update_as (api_client sv s) k x w = (of_sum (case ans of Inl e \<Rightarrow> Inl e | Inr y \<Rightarrow> of_obj k y), w1) \<and>
     trace w1 = trace w @ [EStatusUpdate s (to_obj k x) ans]"
proof -
  obtain ans s1 where sv: "sv_status_update sv s (to_obj k x) (srv w) = (ans, s1)" by fastforce
  then show ?thesis
    by (cases ans; cases "of_obj k (projr ans)")
      (auto simp: status_update_as_def call_def bindA_def pure_def split: sum.splits intro!: exI [where x = ans])
qed

lemma publish_run:
  "\<exists>err' w1 es. publish_condition d (upstream d c) k cnds upd l err w = (Ok err', w1) \<and> trace w1 = trace w @ es \<and>
     (\<forall>s x e. EStatusUpdate s x (Inl e) \<in> set es \<longrightarrow> (\<exists>e'. err' = Some e' \<and> errors_is e' e))"
proof -
  obtain cs changed where cs: "d_set_condition d (cnds (pl (lv_obj l))) (lv_cond l) = (cs, changed)" by fastforce
  let ?x = "(lv_obj l)\<lparr>pl := upd cs (pl (lv_obj l))\<rparr>"
  obtain ans w1 where upd: "status_update_as (upstream d c) k ?x w = (of_sum (case ans of Inl e \<Rightarrow> Inl e | Inr y \<Rightarrow> of_obj k y), w1)"
    "trace w1 = trace w @ [EStatusUpdate (Upstream c) (to_obj k ?x) ans]"
    using status_update_run unfolding upstream_def by blast
  have tried: "tryA (status_update_as (upstream d c) k ?x) w = (Ok (case ans of Inl e \<Rightarrow> Inl e | Inr y \<Rightarrow> of_obj k y), w1)"
    by (cases "case ans of Inl e \<Rightarrow> Inl e | Inr y \<Rightarrow> of_obj k y") (simp_all add: tryA_run upd(1))
  show ?thesis
  proof (cases changed)
    case False
    then show ?thesis by (simp add: publish_condition_def Let_def cs ret_apply)
  next
    case True
    let ?new = "case (case ans of Inl e \<Rightarrow> Inl e | Inr y \<Rightarrow> of_obj k y) of Inl e \<Rightarrow> Some e | Inr _ \<Rightarrow> None"
    have run: "publish_condition d (upstream d c) k cnds upd l err w = (Ok (errors_join err ?new), w1)"
      using True by (simp add: publish_condition_def Let_def cs bindA_def tried ret_apply)
    have "\<exists>e'. errors_join err (Some e) = Some e' \<and> errors_is e' e" for e
      by (cases err) auto
    then have "\<forall>s x e. EStatusUpdate s x (Inl e) \<in> {EStatusUpdate (Upstream c) (to_obj k ?x) ans} \<longrightarrow>
        (\<exists>e'. errors_join err ?new = Some e' \<and> errors_is e' e)"
      by auto
    with run upd(2) show ?thesis by auto
  qed
qed

text \<open>A result that carries the error of every failed status update.\<close>

definition reports :: "'a res \<Rightarrow> event list \<Rightarrow> bool" where
  "reports r es \<longleftrightarrow> (\<forall>s x e. EStatusUpdate s x (Inl e) \<in> set es \<longrightarrow>
     (case r of Ok res \<Rightarrow> False | Fail e' \<Rightarrow> errors_is e' e | Panic p \<Rightarrow> True))"

lemma reports_quiet: "\<forall>e \<in> set es. \<not> publishes e \<Longrightarrow> reports r es"
  unfolding reports_def by force

lemma reports_basic: "hist tr reports (ret y)" "hist tr reports (fail e)"
  by (auto intro!: hist_ret hist_fail reports_quiet)

lemma reports_bind:
  assumes "emits tr (\<lambda>e. \<not> publishes e) m" and "\<And>x. hist tr reports (f x)"
  shows "hist tr reports (bindA m f)"
  by (rule hist_bind [OF assms(1) [unfolded emits_def] assms(2)]) (auto simp: reports_quiet, force simp: reports_def)

lemma reports_branches:
  "(c \<Longrightarrow> hist tr reports m) \<Longrightarrow> (\<not> c \<Longrightarrow> hist tr reports n) \<Longrightarrow> hist tr reports (if c then m else n)"
  "(\<And>a. hist tr reports (f a)) \<Longrightarrow> (\<And>b. hist tr reports (g b)) \<Longrightarrow> hist tr reports (case x of Inl a \<Rightarrow> f a | Inr b \<Rightarrow> g b)"
  "(\<And>a b. hist tr reports (h a b)) \<Longrightarrow> hist tr reports (case y of (a, b) \<Rightarrow> h a b)"
  by (auto split: sum.splits prod.splits)

lemma context_published_reports:
  assumes "library_laws d"
  shows "hist trace reports (defer_named l0 (publish_context d cluster) (context_program d cfg rq loc nc))"
proof (rule histI)
  fix s r s'
  assume run: "defer_named l0 (publish_context d cluster) (context_program d cfg rq loc nc) s = (r, s')"
  obtain r1 s1 l r2 where b: "context_program d cfg rq loc nc (s, l0) = (r1, (s1, l))"
    and dfn: "publish_context d cluster l (res_err r1) s1 = (r2, s')"
    and r: "r = (case r2 of Ok err \<Rightarrow> named_result r1 err | Fail e \<Rightarrow> Fail e | Panic p \<Rightarrow> Panic p)"
    using deferringE [OF run [unfolded defer_named_def]] by metis
  from emitsE [OF context_program_quiet [OF assms] b] obtain es where es: "trace s1 = trace s @ es" "\<forall>e \<in> set es. \<not> publishes e"
    by auto
  obtain err' es' where pub: "r2 = Ok err'" "trace s' = trace s1 @ es'"
    "\<forall>s x e. EStatusUpdate s x (Inl e) \<in> set es' \<longrightarrow> (\<exists>e'. err' = Some e' \<and> errors_is e' e)"
    using publish_run [of d cluster context_c nc_conditions "\<lambda>cs b. b\<lparr>nc_conditions := cs\<rparr>" l "res_err r1" s1] dfn
    unfolding publish_context_def by auto
  have "reports r (es @ es')"
    using es(2) pub(3) unfolding r pub(1) reports_def by (cases r1) force+
  with es(1) pub(2) show "\<exists>es. trace s' = trace s @ es \<and> reports r es" by auto
qed

text \<open>
  C19: The network context reconciler reports a failed status update: whenever the API server answers the
  update with an error, the reconciliation returns an error that wraps it (or ends in a panic), whatever the
  body of the function returned before the deferred update ran.
\<close>

theorem context_update_error:
  assumes "library_laws d" and "context_reconcile d cfg cls rq w = (r, w')"
  shows "\<exists>es. trace w' = trace w @ es \<and> (\<forall>s x e. EStatusUpdate s x (Inl e) \<in> set es \<longrightarrow>
    (case r of Ok res \<Rightarrow> False | Fail e' \<Rightarrow> errors_is e' e | Panic p \<Rightarrow> True))"
proof -
  have "hist trace reports (context_reconcile d cfg cls rq)"
    unfolding context_reconcile_def Let_def
    by (intro reports_bind context_published_reports [OF assms(1)] reports_basic reports_branches
        emits_get_cluster emits_tryA emits_get_as emits_get_location)
      (simp_all add: upstream_def emits_call)
  then obtain es where "trace w' = trace w @ es" "reports r es" using assms(2) by (rule histE)
  then show ?thesis unfolding reports_def by (intro exI [of _ es] conjI)
qed

text \<open>What the deferred update of the subnet reconciler answers does not reach its result.\<close>

lemma subnet_body_result:
  "fst (defer_unnamed l0 (publish_subnet d cluster) (subnet_program d cfg rq loc sn) w) =
   fst (subnet_program d cfg rq loc sn (w, l0))"
proof -
  obtain r w1 l where body: "subnet_program d cfg rq loc sn (w, l0) = (r, (w1, l))" by (metis surj_pair)
  obtain err' w2 where "publish_subnet d cluster l (res_err r) w1 = (Ok err', w2)"
    using publish_run [of d cluster subnet_c sn_conditions "\<lambda>cs b. b\<lparr>sn_conditions := cs\<rparr>" l "res_err r" w1]
    unfolding publish_subnet_def by auto
  with body show ?thesis by (simp add: defer_unnamed_def deferring_def)
qed


section \<open>Properties\<close>

text \<open>The condition a controller publishes, and the answer that justifies it.\<close>

fun programmed_type :: "api_consts \<Rightarrow> controller \<Rightarrow> string" where
  "programmed_type k SubnetCtl = k_subnet_programmed k"
| "programmed_type k c = k_context_programmed k"

fun resource_ready :: "'w deps \<Rightarrow> controller \<Rightarrow> string \<Rightarrow> obj \<Rightarrow> event set \<Rightarrow> bool" where
  "resource_ready d SubnetCtl cluster x A = subnetwork_ready d x A"
| "resource_ready d c cluster x A = network_ready d cluster x A"

text \<open>
  C10: A network context or a subnet is published as programmed only on evidence: a status update that says
  so comes after Crossplane's answer, in the same reconciliation, that the GCP network of the context's
  network is in sync and ready, or that the GCP subnetwork of the subnet is ready.
\<close>

theorem programmed_means_ready:
  assumes "library_laws d" and "dispatch d cfg cls c rq w = (r, w')" and "c \<in> {NetworkContextCtl, SubnetCtl}"
  shows "\<exists>es. trace w' = trace w @ es \<and> guarded (announces (programmed_type (d_consts d) c))
    (update_evidence (resource_ready d c (rq_cluster rq))) es"
proof -
  have "resource_ready d SubnetCtl cl = subnetwork_ready d" "resource_ready d NetworkContextCtl cl = network_ready d cl" for cl
    by (simp_all add: fun_eq_iff)
  then have "hist trace (\<lambda>_ es. guarded (announces (programmed_type (d_consts d) c))
      (update_evidence (resource_ready d c (rq_cluster rq))) es) (dispatch d cfg cls c rq)"
    using assms(3) context_announces [OF assms(1)] subnet_announces [OF assms(1)] by auto
  from histE [OF this assms(2)] show ?thesis by blast
qed

text \<open>A network context whose GCP network is there and ready.\<close>

definition ready_network :: obj where
  "ready_network = live [] ''network-n7'' ''g7'' (BGcpNetwork ((pl zero_gcp_network)\<lparr>gw_conditions := [cond ''Ready'' CTrue]\<rparr>))"

definition ready_store :: store where
  "ready_store = [(tenant, to_obj context_c ref_context), ref_location, (tenant, to_obj network_c ref_net),
     (Downstream, ready_network)]"

definition ready_run :: "ctrl_result res \<times> store world" where
  "ready_run = dispatch ref_deps ref_cfg [] NetworkContextCtl context_rq (on ready_store)"

theorem programmed_means_ready_witness:
  "list_ex (announces (k_context_programmed ref_consts)) (trace (snd ready_run)) \<and>
   guarded (announces (k_context_programmed ref_consts)) (update_evidence (resource_ready ref_deps NetworkContextCtl ''c''))
     (trace (snd ready_run))"
proof
  show "list_ex (announces (k_context_programmed ref_consts)) (trace (snd ready_run))" by code_simp
  have "dispatch ref_deps ref_cfg [] NetworkContextCtl context_rq (on ready_store) = (fst ready_run, snd ready_run)"
    by (simp add: ready_run_def)
  moreover have "d_consts ref_deps = ref_consts" by (simp add: ref_deps_def ref_base_def)
  ultimately show "guarded (announces (k_context_programmed ref_consts))
      (update_evidence (resource_ready ref_deps NetworkContextCtl ''c'')) (trace (snd ready_run))"
    using programmed_means_ready [OF ref_laws] by (fastforce simp: on_def context_rq_def)
qed

text \<open>The same run against a server that refuses status updates.\<close>

definition refusing :: "store deps" where
  "refusing = ref_deps\<lparr>d_server := ref_server\<lparr>sv_status_update := \<lambda>s x st. (Inl (ApiError ''refused''), st)\<rparr>\<rparr>"

lemma laws_other_server:
  assumes "library_laws d" and "server_law (d\<lparr>d_server := sv\<rparr>)"
  shows "library_laws (d\<lparr>d_server := sv\<rparr>)"
proof -
  have "d_is_not_found (d\<lparr>d_server := sv\<rparr>) = d_is_not_found d" "d_deep_equal (d\<lparr>d_server := sv\<rparr>) = d_deep_equal d"
    by simp_all
  then have "upsert_doc (d\<lparr>d_server := sv\<rparr>) = upsert_doc d" by (intro ext) (simp only: upsert_doc_def)
  with assms show ?thesis
    by (simp add: library_laws_def create_or_update_law_def create_or_patch_law_def not_found_law_def
        finalizer_law_def condition_law_def finalize_law_def owner_law_def)
qed

lemma refusing_laws: "library_laws refusing"
  unfolding refusing_def
proof (rule laws_other_server [OF ref_laws])
  have "server_law ref_deps" using library_lawsD(8) [OF ref_laws] .
  then show "server_law (ref_deps\<lparr>d_server := ref_server\<lparr>sv_status_update := \<lambda>s x st. (Inl (ApiError ''refused''), st)\<rparr>\<rparr>)"
    by (simp add: server_law_def ref_deps_def ref_base_def)
qed

definition refused_run :: "ctrl_result res \<times> store world" where
  "refused_run = context_reconcile refusing ref_cfg [] context_rq (on ready_store)"

fun refused :: "event \<Rightarrow> bool" where
  "refused (EStatusUpdate s x (Inl e)) = (e = ApiError ''refused'')" | "refused e = False"

lemma refused_run_facts:
  "list_ex refused (trace (snd refused_run)) \<and>
   (case fst refused_run of Panic p \<Rightarrow> False | _ \<Rightarrow> True)"
  by code_simp

theorem context_update_error_witness:
  "\<exists>e. fst refused_run = Fail e \<and> errors_is e (ApiError ''refused'')"
proof -
  have run: "context_reconcile refusing ref_cfg [] context_rq (on ready_store) = (fst refused_run, snd refused_run)"
    by (simp add: refused_run_def)
  obtain es where es: "trace (snd refused_run) = es" and
    err: "\<And>s x e. EStatusUpdate s x (Inl e) \<in> set es \<Longrightarrow>
      (case fst refused_run of Ok res \<Rightarrow> False | Fail e' \<Rightarrow> errors_is e' e | Panic p \<Rightarrow> True)"
    using context_update_error [OF refusing_laws run] by (auto simp: on_def)
  obtain ev where "ev \<in> set es" "refused ev" using refused_run_facts es by (auto simp: list_ex_iff)
  then obtain s x where "EStatusUpdate s x (Inl (ApiError ''refused'')) \<in> set es"
    by (cases ev rule: refused.cases) auto
  from err [OF this] refused_run_facts show ?thesis by (auto split: res.splits)
qed

end
