(* ===== verification/Release.thy ===== *)
theory Release
  imports Lifecycle Publication
begin

text \<open>
  Liveness: a reconciliation of a deleted object that carries the operator's finalizer does not only clean
  up, it lets the object go, unless a call it made was answered by an error; and a reconciliation that has
  succeeded leaves nothing to do for the next one.
\<close>

section \<open>A doomed object is released\<close>

text \<open>
  The answers that stop the reconciliation of a doomed object. That there is no anchor to read, or no object
  to delete, does not; an anchor that is gone by the time it is deleted does, because \<open>DeleteAnchorForObject\<close>
  returns every error of that deletion.
\<close>

fun troubled :: "'w deps \<Rightarrow> event \<Rightarrow> bool" where
  "troubled d (EGet s k key (Inl e)) \<longleftrightarrow> k \<noteq> KConfigMap \<or> \<not> d_is_not_found d e"
| "troubled d (EList s k opts (Inl e)) \<longleftrightarrow> True"
| "troubled d (EDelete s k key (Inl e)) \<longleftrightarrow> k = KConfigMap \<or> \<not> d_is_not_found d e"
| "troubled d (EUpdate s y (Inl e)) \<longleftrightarrow> True"
| "troubled d (EUpdate s y (Inr a)) \<longleftrightarrow> obj_kind a \<noteq> obj_kind y"
| "troubled d e \<longleftrightarrow> False"

text \<open>An action that fails where, and only where, one of its calls met with trouble, and never panics.\<close>

fun honest :: "'w deps \<Rightarrow> 'a res \<Rightarrow> event list \<Rightarrow> bool" where
  "honest d (Ok x) es \<longleftrightarrow> (\<forall>e \<in> set es. \<not> troubled d e)"
| "honest d (Fail e) es \<longleftrightarrow> (\<exists>e \<in> set es. troubled d e)"
| "honest d (Panic p) es \<longleftrightarrow> False"

lemma honest_after: "honest d (Ok x) es \<Longrightarrow> honest d r es' \<Longrightarrow> honest d r (es @ es')"
  by (cases r) auto

lemma honest_ret: "hist trace (honest d) (ret x)"
  by (rule hist_ret) simp

lemma honest_bind: "hist trace (honest d) m \<Longrightarrow> (\<And>x. hist trace (honest d) (f x)) \<Longrightarrow> hist trace (honest d) (bindA m f)"
  by (rule hist_bind [where ?Q1.0 = "honest d" and ?Q2.0 = "\<lambda>_. honest d"]) (simp_all add: honest_after del: honest.simps(1))

lemma honest_wrapE: "hist trace (honest d) m \<Longrightarrow> hist trace (honest d) (wrapE msg m)"
  by (rule hist_wrapE) simp_all

lemma honest_eachA: "(\<And>x. hist trace (honest d) (f x)) \<Longrightarrow> hist trace (honest d) (eachA f xs)"
  by (induction xs) (auto intro: honest_ret honest_bind)

lemma honest_call:
  fixes f :: "'w \<Rightarrow> (goerr + 'a) \<times> 'w"
  assumes "\<And>e. troubled d (ev (Inl e))" and "\<And>x. \<not> troubled d (ev (Inr x))"
  shows "hist trace (honest d) (call f ev)"
proof (rule hist_call)
  show "honest d (of_sum r) [ev r]" for r by (cases r) (simp_all add: assms)
qed

lemma decodes:
  "obj_kind x = KNamespace \<Longrightarrow> \<exists>y. of_obj namespace_c x = Inr y"
  "obj_kind x = KConfigMap \<Longrightarrow> \<exists>y. of_obj configmap_c x = Inr y"
  "obj_kind x = KWorkload \<Longrightarrow> \<exists>y. of_obj workload_c x = Inr y"
  "obj_kind x = KNetwork \<Longrightarrow> \<exists>y. of_obj network_c x = Inr y"
  by (cases "pl x"; simp add: of_obj_def codec_defs)+

lemma encoded_kinds: "obj_kind (to_obj workload_c y) = cd_kind workload_c" "obj_kind (to_obj network_c n) = cd_kind network_c"
  by (simp_all add: to_obj_def codec_defs)

text \<open>A typed read: the answer has the kind asked for, so that nothing but the server makes it fail.\<close>

lemma hist_get_as:
  fixes d :: "'w deps"
  assumes "server_law d" and "\<And>x. obj_kind x = cd_kind k \<Longrightarrow> \<exists>y. of_obj k x = Inr y"
  shows "hist trace (\<lambda>r es.
    (\<exists>y x. r = Ok y \<and> of_obj k x = Inr y \<and> obj_key x = key \<and> es = [EGet s (cd_kind k) key (Inr x)]) \<or>
    (\<exists>e. r = Fail e \<and> es = [EGet s (cd_kind k) key (Inl e)])) (get_as (api_client (d_server d) s) k key)"
proof (rule histI)
  fix w r w'
  assume run: "get_as (api_client (d_server d) s) k key w = (r, w')"
  obtain a v where sv: "sv_get (d_server d) s (cd_kind k) key (srv w) = (a, v)" by fastforce
  show "\<exists>es. trace w' = trace w @ es \<and>
      ((\<exists>y x. r = Ok y \<and> of_obj k x = Inr y \<and> obj_key x = key \<and> es = [EGet s (cd_kind k) key (Inr x)]) \<or>
      (\<exists>e. r = Fail e \<and> es = [EGet s (cd_kind k) key (Inl e)]))"
  proof (cases a)
    case (Inl e)
    with run sv show ?thesis by (auto simp: get_as_def call_run bindA_def)
  next
    case (Inr x)
    with sv have "obj_kind x = cd_kind k" and key: "obj_key x = key" using server_lawD(1,2) [OF assms(1)] by blast+
    with assms(2) obtain y where "of_obj k x = Inr y" by blast
    with run sv Inr key show ?thesis by (auto simp: get_as_def call_run bindA_def apply_simps)
  qed
qed

lemma honest_get_namespace:
  assumes "server_law d" shows "hist trace (honest d) (get_as (upstream d c) namespace_c key)"
  unfolding upstream_def by (rule hist_mono [OF hist_get_as [OF assms]]) (auto dest: decodes(1))

lemma honest_anchor:
  assumes "server_law d" and "\<And>a. hist trace (honest d) (f a)" and "\<And>e. \<exists>e'. g e = fail e'"
  shows "hist trace (honest d) (bindA (tryA (get_as (downstream d) configmap_c key)) (\<lambda>r. case r of
    Inl e \<Rightarrow> if d_is_not_found d e then ret () else g e | Inr a \<Rightarrow> f a))"
proof (rule hist_bind [where ?Q1.0 = "\<lambda>r es. (\<exists>a. r = Ok (Inr a) \<and> honest d (Ok ()) es) \<or>
    (\<exists>e. r = Ok (Inl e) \<and> (if d_is_not_found d e then honest d (Ok ()) es else honest d (Fail e) es))"
    and ?Q2.0 = "\<lambda>r r' es. case r of Inr a \<Rightarrow> honest d r' es
      | Inl e \<Rightarrow> if d_is_not_found d e then r' = Ok () \<and> es = [] else (\<exists>e. r' = Fail e) \<and> es = []"])
  show "hist trace (\<lambda>r es. (\<exists>a. r = Ok (Inr a) \<and> honest d (Ok ()) es) \<or>
      (\<exists>e. r = Ok (Inl e) \<and> (if d_is_not_found d e then honest d (Ok ()) es else honest d (Fail e) es)))
    (tryA (get_as (downstream d) configmap_c key))"
    unfolding downstream_def by (rule hist_tryA [OF hist_get_as [OF assms(1)]]) (auto dest: decodes(2))
  fix r
  show "hist trace (\<lambda>r' es. case r of Inr a \<Rightarrow> honest d r' es
      | Inl e \<Rightarrow> if d_is_not_found d e then r' = Ok () \<and> es = [] else (\<exists>e. r' = Fail e) \<and> es = [])
    (case r of Inl e \<Rightarrow> if d_is_not_found d e then ret () else g e | Inr a \<Rightarrow> f a)"
  proof (cases r)
    case (Inl e)
    obtain e' where "g e = fail e'" using assms(3) by blast
    with Inl show ?thesis by (auto intro: hist_ret hist_fail)
  qed (simp add: assms(2))
qed (auto split: sum.splits if_splits intro: honest_after)

lemma honest_delete:
  assumes "cl_delete c = cl_delete (downstream d)" and "k \<noteq> KConfigMap"
  shows "hist trace (honest d) (delete_ignoring_not_found d c k key)"
proof -
  have "hist trace (\<lambda>r es. \<exists>a. r = Ok a \<and> es = [EDelete Downstream k key a]) (tryA (cl_delete c k key))"
    unfolding assms(1) downstream_def api_client_simps
    by (rule hist_tryA [OF hist_call [where Q = "\<lambda>r es. \<exists>a. r = of_sum a \<and> es = [EDelete Downstream k key a]"]]) auto
  then show ?thesis
    unfolding delete_ignoring_not_found_def
    by (rule hist_bind [where ?Q2.0 = "\<lambda>a r es. es = [] \<and> (case a of Inr x \<Rightarrow> r = Ok ()
        | Inl e \<Rightarrow> if d_is_not_found d e then r = Ok () else r = Fail e)"])
      (use assms(2) in \<open>auto split: sum.splits if_splits intro: hist_ret hist_fail\<close>)
qed

lemma honest_update:
  assumes "\<And>x. obj_kind x = cd_kind k \<Longrightarrow> \<exists>y. of_obj k x = Inr y" and "\<And>y. obj_kind (to_obj k y) = cd_kind k"
    and "\<And>x y. of_obj k x = Inr y \<Longrightarrow> obj_kind x = cd_kind k"
  shows "hist trace (honest d) (update_as (upstream d c) k x)"
proof -
  have fits: "honest d (of_sum (of_obj k a)) [EUpdate (Upstream c) (to_obj k x) (Inr a)]" for a
    using assms by (cases "of_obj k a") (fastforce simp del: of_obj_to_obj)+
  have "hist trace (\<lambda>r es. \<exists>a. r = of_sum a \<and> es = [EUpdate (Upstream c) (to_obj k x) a]) (cl_update (upstream d c) (to_obj k x))"
    unfolding upstream_def api_client_simps by (rule hist_call) auto
  then show ?thesis
    unfolding update_as_def
    by (rule hist_bind [where ?Q2.0 = "\<lambda>a r es. es = [] \<and> r = of_sum (of_obj k a)"])
      (auto simp: hist_pure fits)
qed

lemma decoded_kinds:
  "of_obj workload_c x = Inr y \<Longrightarrow> obj_kind x = cd_kind workload_c" "of_obj network_c x = Inr n \<Longrightarrow> obj_kind x = cd_kind network_c"
  by (cases "pl x"; simp add: of_obj_def codec_defs)+

lemma honest_workload_cleanup:
  assumes "server_law d" shows "hist trace (honest d) (workload_cleanup d cfg c wl)"
proof -
  let ?ms = "new_mapped d c (dm_labels (gp_downstream cfg))"
  have client: "cl_list (mapped_client d ?ms) = cl_list (downstream d)" "cl_delete (mapped_client d ?ms) = cl_delete (downstream d)"
    by (simp_all add: mapped_client_def)
  have get: "get_as (mapped_client d ?ms) configmap_c key = get_as (downstream d) configmap_c key" for key
    by (simp add: get_as_def mapped_client_def)
  have meta: "hist trace (honest d) (mapped_object_meta ?ms x)" for x
    unfolding mapped_object_meta_def mapped_namespace_def get_upstream_namespace_def
    by (auto intro!: honest_bind honest_wrapE honest_ret honest_get_namespace [OF assms])
  have anchor: "hist trace (honest d) (mapped_delete_anchor d ?ms x)" for x
    unfolding mapped_delete_anchor_def get client(2)
    by (intro honest_bind honest_wrapE meta honest_anchor [OF assms]) (auto simp: downstream_def intro!: honest_call)
  have lst: "hist trace (honest d) (cl_list (downstream d) k opts)" for k opts
    by (auto simp: downstream_def intro!: honest_call)
  show ?thesis
    unfolding workload_cleanup_def Let_def new_mapped_strategy_client client(1)
    by (intro honest_bind honest_wrapE anchor honest_delete [OF client(2)] lst honest_eachA) simp_all
qed

lemma honest_network_cleanup: "hist trace (honest d) (network_cleanup d n)"
  unfolding network_cleanup_def by (intro honest_wrapE honest_delete) simp_all


section \<open>The reconciliation of a doomed object\<close>

text \<open>What the first two calls of a reconciliation answer: the cluster is known, and the object is \<open>x\<close>.\<close>

definition object_read :: "kind \<Rightarrow> request \<Rightarrow> 'w deps \<Rightarrow> 'w world \<Rightarrow> obj \<Rightarrow> bool" where
  "object_read k rq d w x \<longleftrightarrow> (\<exists>w1 w2. get_cluster d (rq_cluster rq) w = (Ok (), w1) \<and>
     cl_get (upstream d (rq_cluster rq)) k (rq_key rq) w1 = (Ok x, w2))"

lemma get_decoded:
  assumes "server_law d" and "cl_get (upstream d c) (cd_kind k) key w1 = (Ok x, w2)"
    and "\<And>x. obj_kind x = cd_kind k \<Longrightarrow> \<exists>y. of_obj k x = Inr y"
  shows "\<exists>y. get_as (upstream d c) k key w1 = (Ok y, w2) \<and> md y = md x \<and> of_obj k x = Inr y"
proof -
  have "\<exists>s. sv_get (d_server d) (Upstream c) (cd_kind k) key (srv w1) = (Inr x, s)"
    using call_OkD assms(2) by (fastforce simp: upstream_def)
  then have "obj_kind x = cd_kind k" using server_lawD(2) [OF assms(1)] by blast
  with assms(3) obtain y where "of_obj k x = Inr y" by blast
  with assms(2) show ?thesis by (intro exI [of _ y]) (simp add: get_as_def bindA_run pure_def ret_apply of_obj_md)
qed

lemma phase_of_md: "md y = md x \<Longrightarrow> phase_of y = phase_of x"
  by (simp add: phase_of_def)

lemma object_readE:
  assumes "server_law d" and "object_read (cd_kind k) rq d w x" and "\<And>x. obj_kind x = cd_kind k \<Longrightarrow> \<exists>y. of_obj k x = Inr y"
  obtains w1 y w2 where "get_cluster d (rq_cluster rq) w = (Ok (), w1)"
    "get_as (upstream d (rq_cluster rq)) k (rq_key rq) w1 = (Ok y, w2)" "md y = md x"
    "trace w2 = trace w @ [EGet (Upstream (rq_cluster rq)) (cd_kind k) (rq_key rq) (Inr x)]" "of_obj k x = Inr y"
proof -
  from assms(2) obtain w1 w2 where get: "get_cluster d (rq_cluster rq) w = (Ok (), w1)"
    "cl_get (upstream d (rq_cluster rq)) (cd_kind k) (rq_key rq) w1 = (Ok x, w2)"
    unfolding object_read_def by blast
  with get_decoded [OF assms(1) get(2) assms(3)] obtain y where
    y: "get_as (upstream d (rq_cluster rq)) k (rq_key rq) w1 = (Ok y, w2)" "md y = md x" and dec: "of_obj k x = Inr y" by blast
  from get have "trace w2 = trace w @ [EGet (Upstream (rq_cluster rq)) (cd_kind k) (rq_key rq) (Inr x)]"
    by (auto simp: get_cluster_def silent_def upstream_def call_def of_sum_eq_simps split: prod.splits)
  with get(1) y show ?thesis using dec by (rule that)
qed

text \<open>After the two reads, the clean-up and the update.\<close>

lemma doomed_run_released:
  assumes "finalizer_law d" and "hist trace (honest d) (cleanup kx)" and "hist trace (honest d) (update_as (upstream d (rq_cluster rq)) k y)"
    and "y = without_finalizer d kx gcp_infra_finalizer"
    and "get_cluster d (rq_cluster rq) w = (Ok (), w1)"
    and "get_as (upstream d (rq_cluster rq)) k (rq_key rq) w1 = (Ok kx, w2)" and "phase_of kx = Doomed"
    and "phase_reconcile d k cleanup rq w = (r, w')"
  shows "\<exists>es. trace w' = trace w2 @ es \<and> honest d r es \<and> (r = Ok Done \<or> (\<exists>e. r = Fail e)) \<and>
    (r = Ok Done \<longrightarrow> (\<exists>ans. es \<noteq> [] \<and> last es = EUpdate (Upstream (rq_cluster rq)) (to_obj k y) (Inr ans)))"
proof -
  let ?m = "bindA (cleanup kx) (\<lambda>_. bindA (update_as (upstream d (rq_cluster rq)) k y) (\<lambda>_. ret Done))"
  have run: "?m w2 = (r, w')"
    using assms(5-8) by (simp add: phase_reconcile_def Let_def bindA_run tryA_def assms(4))
  have "hist trace (honest d) ?m" by (intro honest_bind assms(2,3) honest_ret)
  then obtain es where es: "trace w' = trace w2 @ es" "honest d r es" using run by (rule histE)
  moreover have "r = Ok Done \<or> (\<exists>e. r = Fail e)"
    using run es(2) by (cases r) (auto elim!: bindA_OkE)
  moreover have "\<exists>ans. es \<noteq> [] \<and> last es = EUpdate (Upstream (rq_cluster rq)) (to_obj k y) (Inr ans)" if "r = Ok Done"
  proof -
    from run that obtain u w3 z where clean: "cleanup kx w2 = (Ok u, w3)"
      and upd: "update_as (upstream d (rq_cluster rq)) k y w3 = (Ok z, w')"
      by (auto elim!: bindA_OkE)
    from assms(2) clean obtain es' where "trace w3 = trace w2 @ es'" by (rule histE)
    moreover from upd obtain ans where "trace w' = trace w3 @ [EUpdate (Upstream (rq_cluster rq)) (to_obj k y) (Inr ans)]"
      by (auto simp: update_as_def upstream_def call_def bindA_def pure_def split: sum.splits prod.splits res.splits)
    ultimately show ?thesis using es(1) by auto
  qed
  ultimately show ?thesis by blast
qed

text \<open>
  C13: A deleted workload or network is let go: when the reconciliation finds it deleted with the operator's
  finalizer on it, then it succeeds if and only if none of its calls was answered by an error it does not
  tolerate (it tolerates that there is no anchor to read and that an object to delete is not there, except the
  anchor it has just read), and where it succeeds its last call is the update, accepted by the API server, that
  frees the object. Where it does not succeed it returns an error.
\<close>

theorem doomed_released:
  assumes "library_laws d" and "c \<in> {WorkloadCtl, NetworkCtl}" and "object_read (controller_kind c) rq d w x"
    and "phase_of x = Doomed" and "dispatch d cfg cls c rq w = (r, w')"
  shows "\<exists>es. trace w' = trace w @ es \<and>
    (if \<exists>e \<in> set es. troubled d e then \<exists>e. r = Fail e
     else r = Ok Done \<and> (\<exists>y ans. last es = EUpdate (Upstream (rq_cluster rq)) y (Inr ans) \<and>
       phase_of y = Free \<and> om_uid (md y) = om_uid (md x)))"
proof -
  have law: "finalizer_law d" "server_law d" using library_lawsD [OF assms(1)] by auto
  have freed: "phase_of (to_obj k (without_finalizer d y gcp_infra_finalizer)) = Free"
    "om_uid (md (to_obj k (without_finalizer d y gcp_infra_finalizer))) = om_uid (md x)"
    if "md y = md x" for k :: "'b codec" and y
    using that assms(4) law(1) by (auto simp: phase_of_def without_finalizer_def finalizer_law_def split: if_splits)
  have released: ?thesis
    if run: "phase_reconcile d k cleanup rq w = (r, w')" and k: "cd_kind k = controller_kind c"
      and clean: "\<And>y. hist trace (honest d) (cleanup y)"
      and dec: "\<And>x. obj_kind x = cd_kind k \<Longrightarrow> \<exists>y. of_obj k x = Inr y"
      and enc: "\<And>y. obj_kind (to_obj k y) = cd_kind k" "\<And>x y. of_obj k x = Inr y \<Longrightarrow> obj_kind x = cd_kind k"
    for k :: "'b codec" and cleanup
  proof -
    have "object_read (cd_kind k) rq d w x" using assms(3) k by simp
    from law(2) this dec obtain w1 y w2 where y: "get_cluster d (rq_cluster rq) w = (Ok (), w1)"
      "get_as (upstream d (rq_cluster rq)) k (rq_key rq) w1 = (Ok y, w2)" "md y = md x"
      "trace w2 = trace w @ [EGet (Upstream (rq_cluster rq)) (cd_kind k) (rq_key rq) (Inr x)]"
      by (rule object_readE) auto
    have "phase_of y = Doomed" using phase_of_md [OF y(3)] assms(4) by simp
    moreover have "hist trace (honest d) (update_as (upstream d (rq_cluster rq)) k z)" for z
      by (rule honest_update) (use dec enc in auto)
    ultimately
    obtain es where es: "trace w' = trace w2 @ es" "honest d r es" "r = Ok Done \<or> (\<exists>e. r = Fail e)"
      "r = Ok Done \<Longrightarrow> \<exists>ans. es \<noteq> [] \<and> last es = EUpdate (Upstream (rq_cluster rq)) (to_obj k (without_finalizer d y gcp_infra_finalizer)) (Inr ans)"
      using doomed_run_released [OF law(1) clean _ refl y(1,2) _ run] by blast
    with freed [OF y(3), of k] y(4) show ?thesis
      by (intro exI [of _ "EGet (Upstream (rq_cluster rq)) (cd_kind k) (rq_key rq) (Inr x) # es"]) auto
  qed
  show ?thesis
  proof (cases "c = WorkloadCtl")
    case True
    with assms(5) have "phase_reconcile d workload_c (workload_cleanup d cfg (rq_cluster rq)) rq w = (r, w')"
      by (simp add: workload_by_phase [OF law(1)])
    then show ?thesis
      by (rule released) (use True in \<open>auto simp: honest_workload_cleanup [OF law(2)] encoded_kinds dest: decodes(3) decoded_kinds\<close>)
  next
    case False
    with assms(2) have c: "c = NetworkCtl" by simp
    with assms(5) have "phase_reconcile d network_c (network_cleanup d) rq w = (r, w')"
      by (simp add: network_by_phase [OF law(1)])
    then show ?thesis
      by (rule released) (use c in \<open>auto simp: honest_network_cleanup encoded_kinds dest: decodes(4) decoded_kinds\<close>)
  qed
qed

text \<open>The doomed workload of \<open>doomed_run\<close>, on the in-memory server.\<close>

lemma doomed_read: "object_read KWorkload ref_rq ref_deps dying_workload (dying (live ''ns'' ''x'' ''u1'' BWorkload))"
  by (simp add: object_read_def get_cluster_def silent_def upstream_def call_def ref_deps_def ref_base_def ref_server_def
      dying_workload_def on_def store_get_def same_object_def ref_namespace_def live_def dying_def ref_rq_def obj_key_def zero_meta_def)

lemma doomed_run_untroubled: "list_all (\<lambda>e. \<not> troubled ref_deps e) (trace (snd doomed_run))"
  by code_simp

theorem doomed_released_witness:
  "fst doomed_run = Ok Done \<and> (\<exists>y ans. last (trace (snd doomed_run)) = EUpdate tenant y (Inr ans) \<and> phase_of y = Free \<and>
     om_uid (md y) = ''u1'')"
proof -
  have run: "dispatch ref_deps ref_cfg [] WorkloadCtl ref_rq dying_workload = (fst doomed_run, snd doomed_run)"
    by (simp add: doomed_run_def)
  have facts: "trace dying_workload = []" "rq_cluster ref_rq = ''c''" "om_uid (md (dying (live ''ns'' ''x'' ''u1'' BWorkload))) = ''u1''"
    "phase_of (dying (live ''ns'' ''x'' ''u1'' BWorkload)) = Doomed"
    by (simp_all add: dying_workload_def on_def ref_rq_def dying_def live_def phase_of_def)
  have "\<forall>e \<in> set (trace (snd doomed_run)). \<not> troubled ref_deps e"
    using doomed_run_untroubled by (simp only: list_all_iff)
  with doomed_released [OF ref_laws _ _ facts(4) run] doomed_read facts show ?thesis by auto
qed

section \<open>Settling\<close>

text \<open>The upstream object as a reconciliation leaves it: what its last call wrote, or else what it read.\<close>

fun written_last :: "event \<Rightarrow> obj \<Rightarrow> obj" where
  "written_last (EUpdate (Upstream c) y (Inr a)) x = y" | "written_last e x = x"

lemma settled_phase:
  assumes "finalizer_law d" and "get_cluster d (rq_cluster rq) w = (Ok (), w1)"
    and "get_as (upstream d (rq_cluster rq)) k (rq_key rq) w1 = (Ok kx, w2)" and "md kx = md x"
    and "\<not> updates_upstream (last (trace w2))" and "phase_reconcile d k cleanup rq w = (Ok Done, w')"
  shows "phase_of (written_last (last (trace w')) x) \<in> {Claimed, Free}"
proof -
  have update: "\<exists>a. last (trace v') = EUpdate (Upstream c) (to_obj k y) (Inr a)"
    if "update_as (upstream d c) k y v = (Ok z, v')" for c y z v v'
    using that by (auto simp: update_as_def upstream_def call_def bindA_def pure_def split: sum.splits prod.splits res.splits)
  have quiet: "written_last (last (trace w2)) x = x"
    using assms(5) by (cases "(last (trace w2), x)" rule: written_last.cases) auto
  have x: "phase_of kx = phase_of x" using phase_of_md [OF assms(4)] .
  show ?thesis
  proof (cases "phase_of kx")
    case Unclaimed
    then have "phase_of (to_obj k (with_finalizer d kx gcp_infra_finalizer)) = Claimed"
      using assms(1) by (auto simp: phase_of_def with_finalizer_def finalizer_law_def split: if_splits)
    with Unclaimed assms(2,3,6) show ?thesis
      by (auto simp: phase_reconcile_def Let_def bindA_run tryA_def ret_apply elim!: bindA_OkE dest!: update)
  next
    case Doomed
    then have "phase_of (to_obj k (without_finalizer d kx gcp_infra_finalizer)) = Free"
      using assms(1) by (auto simp: phase_of_def without_finalizer_def finalizer_law_def split: if_splits)
    with Doomed assms(2,3,6) show ?thesis
      by (auto simp: phase_reconcile_def Let_def bindA_run tryA_def ret_apply elim!: bindA_OkE dest!: update)
  qed (use assms(2,3,6) quiet x in \<open>auto simp: phase_reconcile_def Let_def bindA_run tryA_def ret_apply\<close>)
qed

lemma quiet_phase:
  assumes "get_cluster d (rq_cluster rq) v = (Ok (), v1)"
    and "get_as (upstream d (rq_cluster rq)) k (rq_key rq) v1 = (Ok ky, v2)" and "phase_of ky \<in> {Claimed, Free}"
  shows "phase_reconcile d k cleanup rq v = (Ok Done, v2)"
  using assms by (auto simp: phase_reconcile_def Let_def bindA_run tryA_def ret_apply)

lemma phase_settles:
  assumes "finalizer_law d" and "server_law d" and "\<And>x. obj_kind x = cd_kind k \<Longrightarrow> \<exists>y. of_obj k x = Inr y"
    and "object_read (cd_kind k) rq d w x" and "phase_reconcile d k cleanup rq w = (Ok Done, w')"
    and "object_read (cd_kind k) rq d v y" and "phase_of y = phase_of (written_last (last (trace w')) x)"
  shows "\<exists>v'. phase_reconcile d k cleanup rq v = (Ok Done, v') \<and>
    trace v' = trace v @ [EGet (Upstream (rq_cluster rq)) (cd_kind k) (rq_key rq) (Inr y)]"
proof -
  from assms(2,4,3) obtain w1 kx w2 where w: "get_cluster d (rq_cluster rq) w = (Ok (), w1)"
    "get_as (upstream d (rq_cluster rq)) k (rq_key rq) w1 = (Ok kx, w2)" "md kx = md x" "\<not> updates_upstream (last (trace w2))"
    by (rule object_readE) auto
  from assms(2,6,3) obtain v1 ky v2 where v: "get_cluster d (rq_cluster rq) v = (Ok (), v1)"
    "get_as (upstream d (rq_cluster rq)) k (rq_key rq) v1 = (Ok ky, v2)" "md ky = md y"
    "trace v2 = trace v @ [EGet (Upstream (rq_cluster rq)) (cd_kind k) (rq_key rq) (Inr y)]"
    by (rule object_readE) auto
  have "phase_of ky \<in> {Claimed, Free}"
    using settled_phase [OF assms(1) w assms(5)] assms(7) phase_of_md [OF v(3)] by simp
  with quiet_phase [OF v(1,2)] v(4) show ?thesis by blast
qed

text \<open>
  C14: Reconciling a workload or a network settles after one round: when a reconciliation has succeeded and
  the next one reads the object in the phase in which the first left it, the second only reads it and is
  done. No endless sequence of writes is possible without the tenant changing the object.
\<close>

theorem reconcile_settles:
  assumes "library_laws d" and "c \<in> {WorkloadCtl, NetworkCtl}"
    and "object_read (controller_kind c) rq d w x" and "dispatch d cfg cls c rq w = (Ok Done, w')"
    and "object_read (controller_kind c) rq d v y" and "phase_of y = phase_of (written_last (last (trace w')) x)"
  shows "\<exists>v'. dispatch d cfg cls c rq v = (Ok Done, v') \<and>
    trace v' = trace v @ [EGet (Upstream (rq_cluster rq)) (controller_kind c) (rq_key rq) (Inr y)]"
proof -
  have law: "finalizer_law d" "server_law d" using library_lawsD [OF assms(1)] by auto
  show ?thesis
  proof (cases "c = WorkloadCtl")
    case True
    then show ?thesis
      using phase_settles [OF law, where k = workload_c and rq = rq and w = w and x = x and cleanup = "workload_cleanup d cfg (rq_cluster rq)" and w' = w' and v = v and y = y] assms(3-6)
      by (simp add: workload_by_phase [OF law(1)] decodes(3))
  next
    case False
    with assms(2) have "c = NetworkCtl" by simp
    then show ?thesis
      using phase_settles [OF law, where k = network_c and rq = rq and w = w and x = x and cleanup = "network_cleanup d" and w' = w' and v = v and y = y] assms(3-6)
      by (simp add: network_by_phase [OF law(1)] decodes(4))
  qed
qed

definition new_workload :: obj where "new_workload = live ''ns'' ''x'' ''u1'' BWorkload"

definition claim_world :: "store world" where "claim_world = on [(tenant, new_workload)]"

definition claim_run :: "ctrl_result res \<times> store world" where
  "claim_run = dispatch ref_deps ref_cfg [] WorkloadCtl ref_rq claim_world"

text \<open>The object as the API server has it.\<close>

definition claimed_workload :: obj where
  "claimed_workload = (case cl_get (upstream ref_deps ''c'') KWorkload (rq_key ref_rq) (snd claim_run) of
     (Ok y, _) \<Rightarrow> y | _ \<Rightarrow> new_workload)"

lemma claim_run_result: "fst claim_run = Ok Done"
  by code_simp

lemma claim_run_left:
  "(case cl_get (upstream ref_deps ''c'') KWorkload (rq_key ref_rq) (snd claim_run) of
      (Ok y, _) \<Rightarrow> True | _ \<Rightarrow> False) \<and> phase_of claimed_workload = Claimed \<and>
   phase_of claimed_workload = phase_of (written_last (last (trace (snd claim_run))) new_workload)"
  by code_simp

lemma ref_get_cluster: "get_cluster ref_deps c w = (Ok (), w)"
  by (simp add: get_cluster_def silent_def ref_deps_def ref_base_def ref_server_def)

theorem reconcile_settles_witness:
  "\<exists>v'. dispatch ref_deps ref_cfg [] WorkloadCtl ref_rq (snd claim_run) = (Ok Done, v') \<and>
     trace v' = trace (snd claim_run) @ [EGet tenant KWorkload (rq_key ref_rq) (Inr claimed_workload)]"
proof -
  have rq: "rq_cluster ref_rq = ''c''" by (simp add: ref_rq_def)
  have first: "object_read KWorkload ref_rq ref_deps claim_world new_workload"
    unfolding object_read_def rq ref_get_cluster
    by (simp add: upstream_def call_def ref_deps_def ref_base_def ref_server_def claim_world_def on_def store_get_def
        same_object_def new_workload_def live_def ref_rq_def obj_key_def zero_meta_def)
  have second: "object_read KWorkload ref_rq ref_deps (snd claim_run) claimed_workload"
    using claim_run_left unfolding object_read_def rq ref_get_cluster claimed_workload_def
    by (auto split: prod.splits res.splits)
  have run: "dispatch ref_deps ref_cfg [] WorkloadCtl ref_rq claim_world = (Ok Done, snd claim_run)"
    using claim_run_result by (simp add: claim_run_def prod_eq_iff)
  have "phase_of claimed_workload = phase_of (written_last (last (trace (snd claim_run))) new_workload)"
    using claim_run_left by blast
  from reconcile_settles [OF ref_laws, of WorkloadCtl ref_rq, OF _ _ run _ this] first second rq
  show ?thesis by simp
qed

end
