(* ===== verification/Names_And_Status.thy ===== *)
theory Names_And_Status
  imports Instance_Controller Scenarios
begin

text \<open>
  Bounds on what the operator hands to GCP and to Kubernetes, and what it writes into the status of an
  instance: the account id and the hashed names are valid labels within the limits, the network interfaces
  of the status are filled from those of the GCP instance or the reconciler panics, and the Running
  condition follows the status of the GCP instance.
\<close>

section \<open>Names\<close>

text \<open>RFC 1123 labels: at most 63 letters, digits and dashes, the first and the last not a dash.\<close>

definition label_char :: "char \<Rightarrow> bool" where
  "label_char c \<longleftrightarrow> is_digit c \<or> (97 \<le> (of_char c :: nat) \<and> (of_char c :: nat) \<le> 122)"

definition dns_label :: "string \<Rightarrow> bool" where
  "dns_label s \<longleftrightarrow> s \<noteq> [] \<and> length s \<le> 63 \<and> list_all (\<lambda>c. label_char c \<or> c = CHR ''-'') s \<and>
     label_char (hd s) \<and> label_char (last s)"

lemma label_char_hex: "n < 16 \<Longrightarrow> label_char (hex_digit n)"
  by (auto simp: label_char_def is_digit_def hex_digit_def of_char_of take_bit_eq_mod)

lemma hex_digit_inject: "m < 16 \<Longrightarrow> n < 16 \<Longrightarrow> hex_digit m = hex_digit n \<Longrightarrow> m = n"
  by (auto simp: hex_digit_def char_of_eq_iff of_char_of take_bit_eq_mod dest!: arg_cong [where f = "of_char :: char \<Rightarrow> nat"]
      split: if_splits)

lemma hex_of_simps: "hex_of [] = []" "hex_of (b # bs) = hex_digit (b div 16) # hex_digit (b mod 16) # hex_of bs"
  by (simp_all add: hex_of_def)

lemma hex_of_chars: "list_all (\<lambda>b. b < 256) bs \<Longrightarrow> list_all label_char (hex_of bs)"
  by (induction bs) (auto simp: hex_of_simps intro!: label_char_hex)

lemma hex_of_inject:
  "list_all (\<lambda>b. b < 256) as \<Longrightarrow> list_all (\<lambda>b. b < 256) bs \<Longrightarrow> hex_of as = hex_of bs \<Longrightarrow> as = bs"
proof (induction as arbitrary: bs)
  case Nil
  then show ?case by (cases bs) (auto simp: hex_of_simps)
next
  case (Cons a as)
  then obtain b bs' where bs: "bs = b # bs'" by (cases bs) (auto simp: hex_of_simps)
  from Cons.prems bs have "hex_digit (a div 16) = hex_digit (b div 16)" "hex_digit (a mod 16) = hex_digit (b mod 16)"
    "a div 16 < 16" "b div 16 < 16"
    by (auto simp: hex_of_simps)
  then have "a div 16 = b div 16" "a mod 16 = b mod 16" by (auto intro: hex_digit_inject)
  then have "a = b" by (metis div_mult_mod_eq)
  with Cons bs show ?case by (simp add: hex_of_simps)
qed

lemma le_bytes_bytes: "list_all (\<lambda>b. b < 256) (le_bytes k n)"
  by (induction k arbitrary: n) auto

lemma md5_sum_bytes: "list_all (\<lambda>b. b < 256) (md5_sum s)"
  by (simp add: md5_sum_def Let_def le_bytes_bytes split: prod.splits)

lemma hashed_name_split: "hashed_name n = take 30 n @ CHR ''-'' # hex_of (md5_sum n)"
  by (simp add: hashed_name_def)

text \<open>
  C39: The service account's id is acceptable to GCP whatever the UID of the workload: a label of at least 6
  and at most 30 characters, the limit the comment in the code names.
\<close>

theorem service_account_id_valid:
  "dns_label (service_account_id uid) \<and> 6 \<le> length (service_account_id uid) \<and> length (service_account_id uid) \<le> 30"
proof -
  let ?n = "dec_nat (unat (fnv32a uid))"
  have "unat (fnv32a uid) < 10 ^ Suc 9" using unat_fnv32a [of uid] by simp
  from dec_nat_length [OF this] have len: "length ?n \<le> 10" by simp
  have digits: "label_char c" if "c \<in> set ?n" for c using dec_nat_digits [OF that] by (simp add: label_char_def)
  then have "label_char (last ?n)" by simp
  moreover have "list_all label_char ?n" using digits by (simp add: list_all_iff)
  then have "list_all (\<lambda>c. label_char c \<or> c = CHR ''-'') ?n" by (simp add: list_all_iff)
  moreover have "1 \<le> length ?n" by (simp add: Suc_le_eq)
  ultimately show ?thesis using len
    by (simp add: service_account_id_def dns_label_def label_char_def [of "CHR ''w''"] label_char_def is_digit_def)
qed

text \<open>
  C40: The names the same-cluster strategy derives stay labels: the hashed name of a label is a label again, for
  any name it has at most 63 characters, and two names share a hashed name only if they agree on their first
  30 characters and have the same MD5 sum.
\<close>

theorem hashed_name_label:
  assumes "dns_label n"
  shows "dns_label (hashed_name n) \<and> length (hashed_name m) \<le> 63 \<and>
    (hashed_name m = hashed_name n) = (take 30 m = take 30 n \<and> md5_sum m = md5_sum n)"
proof (intro conjI)
  let ?h = "hex_of (md5_sum n)"
  have hex: "list_all label_char ?h" "length ?h = 32" by (simp_all add: hex_of_chars md5_sum_bytes)
  then have "?h \<noteq> []" by (metis list.size(3) zero_neq_numeral)
  with hex have "label_char (last ?h)" by (simp add: list_all_iff)
  moreover have "list_all (\<lambda>c. label_char c \<or> c = CHR ''-'') (take 30 n)" "label_char (hd (take 30 n))"
    using assms by (auto simp: dns_label_def list_all_iff dest: in_set_takeD)
  moreover have "take 30 n \<noteq> []" using assms by (auto simp: dns_label_def)
  ultimately show "dns_label (hashed_name n)"
    using hex \<open>?h \<noteq> []\<close> by (auto simp: hashed_name_split dns_label_def list_all_iff)
  show "length (hashed_name m) \<le> 63" by (simp add: hashed_name_split)
  show "(hashed_name m = hashed_name n) = (take 30 m = take 30 n \<and> md5_sum m = md5_sum n)"
    by (auto simp: hashed_name_split append_eq_append_conv dest: hex_of_inject [OF md5_sum_bytes md5_sum_bytes])
qed

theorem hashed_name_label_witness: "dns_label (hashed_name ''web'') \<and> length (hashed_name '''') \<le> 63"
proof -
  have "dns_label ''web''" by (simp add: dns_label_def label_char_def is_digit_def)
  from hashed_name_label [OF this] show ?thesis by blast
qed

section \<open>The network interfaces of the status\<close>

lemma set_nic_status_run:
  "set_nic_status (k, a) (s, l) =
     (if k < length (i_nic_status (pl (lv_obj l)))
      then (Ok (), (s, l\<lparr>lv_obj := (lv_obj l)\<lparr>pl := (pl (lv_obj l))\<lparr>i_nic_status := (i_nic_status (pl (lv_obj l)))[k := nic_status_of a]\<rparr>\<rparr>\<rparr>))
      else (Panic ''index out of range'', (s, l)))"
  by (simp add: set_nic_status_def update_inst_def locals_def assign_def bindA_def panic_def)

text \<open>The loop writes the interfaces in order, or panics at the first index out of range.\<close>

lemma nic_loop:
  "\<exists>l'. eachA set_nic_status (enumerate k as) (s, l) =
      (if as = [] \<or> k + length as \<le> length (i_nic_status (pl (lv_obj l))) then Ok () else Panic ''index out of range'', (s, l')) \<and>
    (k + length as \<le> length (i_nic_status (pl (lv_obj l))) \<longrightarrow>
       i_nic_status (pl (lv_obj l')) = take k (i_nic_status (pl (lv_obj l))) @ map nic_status_of as @
         drop (k + length as) (i_nic_status (pl (lv_obj l))))"
proof (induction as arbitrary: k l)
  case Nil
  show ?case by (simp add: ret_apply)
next
  case (Cons a as)
  let ?ns = "i_nic_status (pl (lv_obj l))"
  show ?case
  proof (cases "k < length ?ns")
    case True
    let ?l = "l\<lparr>lv_obj := (lv_obj l)\<lparr>pl := (pl (lv_obj l))\<lparr>i_nic_status := ?ns[k := nic_status_of a]\<rparr>\<rparr>\<rparr>"
    have step: "eachA set_nic_status (enumerate k (a # as)) (s, l) = eachA set_nic_status (enumerate (Suc k) as) (s, ?l)"
      using True by (simp add: bindA_def set_nic_status_run)
    from Cons.IH [of "Suc k" ?l] True show ?thesis
      unfolding step by (auto simp: take_Suc_conv_app_nth drop_update_cancel)
  qed (simp add: bindA_run(3) set_nic_status_run)
qed

text \<open>
  C15: Publishing a programmed instance panics exactly when the instance has no controller part, or when its
  status already lists some interfaces but fewer than the GCP instance has; otherwise it returns, the status
  starts with what GCP reports for each of its interfaces, and entries behind those are kept.
\<close>

theorem nic_status_bounds:
  "case publish_programmed d g (s, l) of (r, (s', l')) \<Rightarrow>
     (let old = i_nic_status (pl (lv_obj l)); new = gi_at_nics (pl g) in
      r = (if i_controller (pl (lv_obj l)) = None then Panic ''nil pointer dereference''
           else if old = [] \<or> length new \<le> length old then Ok () else Panic ''index out of range'') \<and>
      (case r of Ok _ \<Rightarrow> i_nic_status (pl (lv_obj l')) = map nic_status_of new @ drop (length new) old | _ \<Rightarrow> True))"
proof (cases "i_controller (pl (lv_obj l))")
  case None
  then show ?thesis
    by (simp add: publish_programmed_def set_cond_def assign_def locals_def bindA_def panic_def)
next
  case (Some ic)
  define old new where "old = i_nic_status (pl (lv_obj l))" and "new = gi_at_nics (pl g)"
  define ns where "ns = (if old = [] then replicate (length new) \<lparr>ns_network_ip = None, ns_external_ip = None\<rparr> else old)"
  define l1 where "l1 = l\<lparr>lv_cond := (lv_cond l)\<lparr>c_status := CTrue, c_reason := k_instance_programmed_reason (d_consts d),
      c_message := ''Instance has been programmed''\<rparr>,
    lv_obj := (lv_obj l)\<lparr>pl := (pl (lv_obj l))\<lparr>i_observed_hash := Some (ic_template_hash ic), i_nic_status := ns\<rparr>\<rparr>\<rparr>"
  have l1: "i_nic_status (pl (lv_obj l1)) = ns" by (simp add: l1_def)
  have run: "publish_programmed d g (s, l) = eachA set_nic_status (enumerate 0 new) (s, l1)"
    using Some by (simp add: publish_programmed_def set_cond_def assign_def bindA_def update_inst_def
        l1_def ns_def old_def new_def)
  obtain l' where "eachA set_nic_status (enumerate 0 new) (s, l1) =
      (if new = [] \<or> length new \<le> length ns then Ok () else Panic ''index out of range'', (s, l'))"
    "length new \<le> length ns \<longrightarrow> i_nic_status (pl (lv_obj l')) = map nic_status_of new @ drop (length new) ns"
    using nic_loop [of 0 new s l1] l1 by auto
  then show ?thesis
    using Some unfolding run old_def [symmetric] new_def [symmetric] Let_def by (auto simp: ns_def)
qed

section \<open>The Running condition\<close>

lemma power_switch_type: "c_type (power_switch k s c) = c_type c"
  by (simp add: power_switch_def)

lemma running_condition_type: "c_type (running_condition k x g) = k_instance_running k"
  by (simp add: running_condition_def Let_def power_switch_type)

lemma running_condition_true:
  "(c_status (running_condition k x g) = CTrue) =
   (om_deleted (md x) = None \<and> gi_current_status (pl g) = Some ''RUNNING'')"
  by (auto simp: running_condition_def power_switch_def Let_def split: option.splits)

text \<open>
  C16: The power state is published faithfully: synchronising makes no call where the instance already has the
  Running condition its GCP instance calls for; else it makes one status update, of the same instance, that
  says Running=True exactly when the GCP instance is RUNNING and the instance is not being deleted, and that
  leaves every other condition alone. It fails exactly when that update does not give an instance back.
\<close>

theorem power_state_published:
  assumes "condition_law d" and "sync_power_state d (upstream d cl) x g w = (r, w')"
  shows "if find (\<lambda>c. c_type c = k_instance_running (d_consts d)) (i_conditions (pl x)) = Some (running_condition (d_consts d) x g)
    then trace w' = trace w \<and> (\<exists>x'. r = Ok (x', None))
    else \<exists>y a. trace w' = trace w @ [EStatusUpdate (Upstream cl) (to_obj instance_c y) a] \<and> md y = md x \<and>
      d_condition_true d (i_conditions (pl y)) (k_instance_running (d_consts d)) =
        (om_deleted (md x) = None \<and> gi_current_status (pl g) = Some ''RUNNING'') \<and>
      (\<forall>t. t = k_instance_running (d_consts d) \<or>
        find (\<lambda>c. c_type c = t) (i_conditions (pl y)) = find (\<lambda>c. c_type c = t) (i_conditions (pl x))) \<and>
      (\<exists>x' err. r = Ok (x', err) \<and> (err = None) = (\<exists>b z. a = Inr b \<and> of_obj instance_c b = Inr z))"
proof -
  let ?rc = "running_condition (d_consts d) x g" and ?t = "k_instance_running (d_consts d)"
  obtain cs changed where set: "d_set_condition d (i_conditions (pl x)) ?rc = (cs, changed)" by fastforce
  note law = assms(1) [unfolded condition_law_def]
  have new: "find (\<lambda>c. c_type c = ?t) cs = Some ?rc"
    using law set running_condition_type by (metis fst_conv)
  have others: "t = ?t \<or> find (\<lambda>c. c_type c = t) cs = find (\<lambda>c. c_type c = t) (i_conditions (pl x))" for t
    using law set running_condition_type by (metis fst_conv)
  have changed: "changed = (find (\<lambda>c. c_type c = ?t) (i_conditions (pl x)) \<noteq> Some ?rc)"
    using law set running_condition_type by (metis snd_conv)
  have true: "d_condition_true d cs ?t = (om_deleted (md x) = None \<and> gi_current_status (pl g) = Some ''RUNNING'')"
    using law new running_condition_true by simp
  let ?y = "x\<lparr>pl := (pl x)\<lparr>i_conditions := cs\<rparr>\<rparr>"
  show ?thesis
  proof (cases changed)
    case False
    with assms(2) set changed show ?thesis by (auto simp: sync_power_state_def ret_apply)
  next
    case True
    obtain a st where sv: "sv_status_update (d_server d) (Upstream cl) (to_obj instance_c ?y) (srv w) = (a, st)" by fastforce
    have run: "trace w' = trace w @ [EStatusUpdate (Upstream cl) (to_obj instance_c ?y) a]"
      "\<exists>x' err. r = Ok (x', err) \<and> (err = None) = (\<exists>b z. a = Inr b \<and> of_obj instance_c b = Inr z)"
      using assms(2) set True sv
      by (cases a; cases "of_obj instance_c (projr a)",
        auto simp: sync_power_state_def tryA_def status_update_as_def upstream_def call_def bindA_def pure_def
          ret_apply Let_def)+
    from True changed have differs: "find (\<lambda>c. c_type c = ?t) (i_conditions (pl x)) \<noteq> Some ?rc" by simp
    have y: "md ?y = md x" "i_conditions (pl ?y) = cs" by simp_all
    show ?thesis
      unfolding if_not_P [OF differs]
      by (rule exI [of _ ?y], rule exI [of _ a], unfold y) (intro conjI run true allI others refl)
  qed
qed

definition up_instance :: "inst kobj" where
  "up_instance = as_kobj (live ''ns'' ''x'' ''i1'' BWorkload) ref_inst"

definition up_gcp_instance :: "gcp_instance kobj" where
  "up_gcp_instance = zero_gcp_instance\<lparr>pl := (pl zero_gcp_instance)\<lparr>gi_current_status := Some ''RUNNING''\<rparr>\<rparr>"

definition up_run :: "(inst kobj \<times> goerr option) res \<times> store world" where
  "up_run = sync_power_state ref_deps (upstream ref_deps ''c'') up_instance up_gcp_instance
     (on [(tenant, to_obj instance_c up_instance)])"

theorem power_state_published_witness:
  "\<exists>y a. trace (snd up_run) = [EStatusUpdate tenant (to_obj instance_c y) a] \<and>
     d_condition_true ref_deps (i_conditions (pl y)) ''Running''"
proof -
  have new: "find (\<lambda>c. c_type c = t) (i_conditions (pl up_instance)) \<noteq> Some rc" for t rc
    by (simp add: up_instance_def as_kobj_def ref_inst_def)
  have running: "om_deleted (md up_instance) = None" "gi_current_status (pl up_gcp_instance) = Some ''RUNNING''"
    "k_instance_running (d_consts ref_deps) = ''Running''"
    by (simp_all add: up_instance_def as_kobj_def live_def zero_meta_def up_gcp_instance_def ref_deps_def ref_base_def ref_consts_def)
  have run: "sync_power_state ref_deps (upstream ref_deps ''c'') up_instance up_gcp_instance
      (on [(tenant, to_obj instance_c up_instance)]) = (fst up_run, snd up_run)"
    by (simp add: up_run_def)
  from power_state_published [OF library_lawsD(5) [OF ref_laws] run, unfolded if_not_P [OF new] running]
  show ?thesis by (auto simp: on_def)
qed

end
