(* ===== verification/Deep_Copy.thy ===== *)
theory Deep_Copy
  imports Provider_Config "HOL-Library.Char_ord" "HOL-Library.List_Lexorder"
begin

text \<open>
  \<open>internal/config/zz_generated.deepcopy.go\<close>: the copying functions of the configuration, on a heap with
  addresses, since what they are for is that the copy shares no memory with the original. A configuration
  with pointers stands for a value of \<open>Provider_Config\<close> relative to a heap; the copy stands for the same value, and
  writing through a pointer of the one does not change the other.
\<close>

section \<open>The heap\<close>

datatype cell = CBool bool | CKey objkey | CSelector string | CEntries "string \<rightharpoonup> string"

record heap =
  hp_next :: nat
  hp_cell :: "nat \<rightharpoonup> cell"

fun bool_cell :: "cell \<Rightarrow> bool option" where
  "bool_cell (CBool b) = Some b" | "bool_cell _ = None"

fun key_cell :: "cell \<Rightarrow> objkey option" where
  "key_cell (CKey k) = Some k" | "key_cell _ = None"

fun selector_cell :: "cell \<Rightarrow> string option" where
  "selector_cell (CSelector s) = Some s" | "selector_cell _ = None"

fun map_cell :: "cell \<Rightarrow> (string \<rightharpoonup> string) option" where
  "map_cell (CEntries m) = (if finite (dom m) then Some m else None)" | "map_cell _ = None"

definition new_cell :: "cell \<Rightarrow> (heap, nat) act" where
  "new_cell c = (\<lambda>h. (Ok (hp_next h), h\<lparr>hp_next := Suc (hp_next h), hp_cell := (hp_cell h)(hp_next h \<mapsto> c)\<rparr>))"

definition load :: "(cell \<Rightarrow> 'a option) \<Rightarrow> nat \<Rightarrow> (heap, 'a) act" where
  "load dec a = (\<lambda>h. (case Option.bind (hp_cell h a) dec of
     Some x \<Rightarrow> Ok x | None \<Rightarrow> Panic ''invalid memory address'', h))"

definition store_cell :: "nat \<Rightarrow> cell \<Rightarrow> heap \<Rightarrow> heap" where
  "store_cell a c h = h\<lparr>hp_cell := (hp_cell h)(a \<mapsto> c)\<rparr>"

definition store :: "nat \<Rightarrow> cell \<Rightarrow> (heap, unit) act" where
  "store a c = (\<lambda>h. (Ok (), store_cell a c h))"

text \<open>
  The order in which \<open>range\<close> visits the entries of a map, and \<open>DeepCopyInto\<close> of apimachinery's
  \<open>LabelSelector\<close>. Their documented behaviour: every entry is visited once; the target selector becomes a
  copy of the source.
\<close>

record copy_lib =
  cp_range :: "(string \<rightharpoonup> string) \<Rightarrow> (string \<times> string) list"
  cp_selector :: "nat \<Rightarrow> nat \<Rightarrow> (heap, unit) act"

definition range_law :: "copy_lib \<Rightarrow> bool" where
  "range_law lib \<longleftrightarrow> (\<forall>m. finite (dom m) \<longrightarrow> distinct (map fst (cp_range lib m)) \<and> map_of (cp_range lib m) = m)"

definition selector_law :: "copy_lib \<Rightarrow> bool" where
  "selector_law lib \<longleftrightarrow> (\<forall>i out h s. hp_cell h i = Some (CSelector s) \<longrightarrow>
     cp_selector lib i out h = (Ok (), store_cell out (CSelector s) h))"

section \<open>The configuration with its pointers\<close>

record p_tls =
  pt_secret_ref :: "nat option"
  pt_cert_dir :: string
  pt_cert_name :: string
  pt_key_name :: string

record p_metrics =
  pm_secure :: "nat option"
  pm_bind :: string
  pm_tls :: p_tls

record p_webhook =
  pw_host :: string
  pw_port :: int
  pw_tls :: p_tls
  pw_client_ca :: string

record p_discovery =
  pd_mode :: string
  pd_internal :: bool
  pd_discovery_kubeconfig :: string
  pd_context :: string
  pd_project_kubeconfig :: string
  pd_selector :: "nat option"

record p_single = ps_name :: string

record p_prefix = pf_prefix :: string

record p_strategy =
  py_single :: p_single
  py_discovery :: p_prefix

record p_downstream =
  pn_kubeconfig :: string
  pn_strategy :: p_strategy
  pn_labels :: "nat option"

record p_provider =
  pp_metrics :: p_metrics
  pp_webhook :: p_webhook
  pp_discovery :: p_discovery
  pp_downstream :: p_downstream
  pp_location_class :: string
  pp_images :: "nat option"
  pp_machine_types :: "nat option"

section \<open>Copying\<close>

text \<open>\<open>if in.F != nil { *out = new(T); **out = **in }\<close>, and the loop that fills a new map.\<close>

definition copy_cell :: "(cell \<Rightarrow> 'a option) \<Rightarrow> ('a \<Rightarrow> cell) \<Rightarrow> 'a \<Rightarrow> nat option \<Rightarrow> (heap, nat option) act" where
  "copy_cell dec enc zero p = (case p of
     None \<Rightarrow> ret None
   | Some a \<Rightarrow> bindA (new_cell (enc zero)) (\<lambda>out.
       bindA (load dec a) (\<lambda>x. bindA (store out (enc x)) (\<lambda>_. ret (Some out)))))"

definition set_entry :: "nat \<Rightarrow> string \<times> string \<Rightarrow> (heap, unit) act" where
  "set_entry out e = bindA (load map_cell out) (\<lambda>m. store out (CEntries (m(fst e \<mapsto> snd e))))"

definition copy_map :: "copy_lib \<Rightarrow> nat option \<Rightarrow> (heap, nat option) act" where
  "copy_map lib p = (case p of
     None \<Rightarrow> ret None
   | Some a \<Rightarrow> bindA (load map_cell a) (\<lambda>m.
       bindA (new_cell (CEntries Map.empty)) (\<lambda>out.
       bindA (eachA (set_entry out) (cp_range lib m)) (\<lambda>_. ret (Some out)))))"

definition copy_selector :: "copy_lib \<Rightarrow> nat option \<Rightarrow> (heap, nat option) act" where
  "copy_selector lib p = (case p of
     None \<Rightarrow> ret None
   | Some a \<Rightarrow> bindA (new_cell (CSelector [])) (\<lambda>out. bindA (cp_selector lib a out) (\<lambda>_. ret (Some out))))"

definition tls_into :: "p_tls \<Rightarrow> (heap, p_tls) act" where
  "tls_into t = bindA (copy_cell key_cell CKey (key_of [] []) (pt_secret_ref t)) (\<lambda>r. ret (t\<lparr>pt_secret_ref := r\<rparr>))"

definition metrics_into :: "p_metrics \<Rightarrow> (heap, p_metrics) act" where
  "metrics_into m = bindA (copy_cell bool_cell CBool False (pm_secure m)) (\<lambda>s.
     bindA (tls_into (pm_tls m)) (\<lambda>t. ret (m\<lparr>pm_secure := s, pm_tls := t\<rparr>)))"

definition webhook_into :: "p_webhook \<Rightarrow> (heap, p_webhook) act" where
  "webhook_into w = bindA (tls_into (pw_tls w)) (\<lambda>t. ret (w\<lparr>pw_tls := t\<rparr>))"

definition discovery_into :: "copy_lib \<Rightarrow> p_discovery \<Rightarrow> (heap, p_discovery) act" where
  "discovery_into lib c = bindA (copy_selector lib (pd_selector c)) (\<lambda>s. ret (c\<lparr>pd_selector := s\<rparr>))"

definition single_into :: "p_single \<Rightarrow> (heap, p_single) act" where "single_into s = ret s"

definition prefix_into :: "p_prefix \<Rightarrow> (heap, p_prefix) act" where "prefix_into s = ret s"

definition strategy_into :: "p_strategy \<Rightarrow> (heap, p_strategy) act" where
  "strategy_into s = ret (s\<lparr>py_single := py_single s, py_discovery := py_discovery s\<rparr>)"

definition downstream_into :: "copy_lib \<Rightarrow> p_downstream \<Rightarrow> (heap, p_downstream) act" where
  "downstream_into lib c = bindA (copy_map lib (pn_labels c)) (\<lambda>ls. ret (c\<lparr>pn_strategy := pn_strategy c, pn_labels := ls\<rparr>))"

definition provider_into :: "copy_lib \<Rightarrow> p_provider \<Rightarrow> (heap, p_provider) act" where
  "provider_into lib p =
     bindA (metrics_into (pp_metrics p)) (\<lambda>m.
     bindA (webhook_into (pp_webhook p)) (\<lambda>w.
     bindA (discovery_into lib (pp_discovery p)) (\<lambda>c.
     bindA (downstream_into lib (pp_downstream p)) (\<lambda>n.
     bindA (copy_map lib (pp_images p)) (\<lambda>is.
     bindA (copy_map lib (pp_machine_types p)) (\<lambda>ms.
     ret (p\<lparr>pp_metrics := m, pp_webhook := w, pp_discovery := c, pp_downstream := n, pp_images := is,
       pp_machine_types := ms\<rparr>)))))))"

text \<open>\<open>DeepCopy\<close>: nil for a nil receiver, else \<open>new(T)\<close> filled by \<open>DeepCopyInto\<close>.\<close>

definition deep_copy :: "('a \<Rightarrow> (heap, 'a) act) \<Rightarrow> 'a option \<Rightarrow> (heap, 'a option) act" where
  "deep_copy into x = (case x of None \<Rightarrow> ret None | Some y \<Rightarrow> bindA (into y) (\<lambda>z. ret (Some z)))"

definition copy_tls :: "p_tls option \<Rightarrow> (heap, p_tls option) act" where
  "copy_tls = deep_copy tls_into"

definition copy_metrics :: "p_metrics option \<Rightarrow> (heap, p_metrics option) act" where
  "copy_metrics = deep_copy metrics_into"

definition copy_webhook :: "p_webhook option \<Rightarrow> (heap, p_webhook option) act" where
  "copy_webhook = deep_copy webhook_into"

definition copy_discovery :: "copy_lib \<Rightarrow> p_discovery option \<Rightarrow> (heap, p_discovery option) act" where
  "copy_discovery lib = deep_copy (discovery_into lib)"

definition copy_single :: "p_single option \<Rightarrow> (heap, p_single option) act" where
  "copy_single = deep_copy single_into"

definition copy_prefix :: "p_prefix option \<Rightarrow> (heap, p_prefix option) act" where
  "copy_prefix = deep_copy prefix_into"

definition copy_strategy :: "p_strategy option \<Rightarrow> (heap, p_strategy option) act" where
  "copy_strategy = deep_copy strategy_into"

definition copy_downstream :: "copy_lib \<Rightarrow> p_downstream option \<Rightarrow> (heap, p_downstream option) act" where
  "copy_downstream lib = deep_copy (downstream_into lib)"

definition copy_provider :: "copy_lib \<Rightarrow> p_provider option \<Rightarrow> (heap, p_provider option) act" where
  "copy_provider lib = deep_copy (provider_into lib)"

definition copy_object :: "copy_lib \<Rightarrow> p_provider option \<Rightarrow> (heap, p_provider option) act" where
  "copy_object lib p = bindA (copy_provider lib p) (\<lambda>c. case c of Some x \<Rightarrow> ret (Some x) | None \<Rightarrow> ret None)"

section \<open>What a configuration on the heap stands for\<close>

definition holds :: "(cell \<Rightarrow> 'a option) \<Rightarrow> heap \<Rightarrow> nat option \<Rightarrow> 'a option \<Rightarrow> bool" where
  "holds dec h p v \<longleftrightarrow> (case p of None \<Rightarrow> v = None | Some a \<Rightarrow> v \<noteq> None \<and> Option.bind (hp_cell h a) dec = v)"

definition stands_tls :: "heap \<Rightarrow> p_tls \<Rightarrow> tls_config \<Rightarrow> bool" where
  "stands_tls h t v \<longleftrightarrow> holds key_cell h (pt_secret_ref t) (tls_secret_ref v) \<and> pt_cert_dir t = tls_cert_dir v \<and>
     pt_cert_name t = tls_cert_name v \<and> pt_key_name t = tls_key_name v"

definition stands_metrics :: "heap \<Rightarrow> p_metrics \<Rightarrow> metrics_config \<Rightarrow> bool" where
  "stands_metrics h m v \<longleftrightarrow> holds bool_cell h (pm_secure m) (mc_secure v) \<and> pm_bind m = mc_bind v \<and>
     stands_tls h (pm_tls m) (mc_tls v)"

definition stands_webhook :: "heap \<Rightarrow> p_webhook \<Rightarrow> webhook_config \<Rightarrow> bool" where
  "stands_webhook h w v \<longleftrightarrow> pw_host w = wc_host v \<and> pw_port w = wc_port v \<and> stands_tls h (pw_tls w) (wc_tls v) \<and>
     pw_client_ca w = wc_client_ca v"

definition stands_discovery :: "heap \<Rightarrow> p_discovery \<Rightarrow> discovery_config \<Rightarrow> bool" where
  "stands_discovery h c v \<longleftrightarrow> pd_mode c = dc_mode v \<and> pd_internal c = dc_internal v \<and>
     pd_discovery_kubeconfig c = dc_discovery_kubeconfig v \<and> pd_context c = dc_context v \<and>
     pd_project_kubeconfig c = dc_project_kubeconfig v \<and> holds selector_cell h (pd_selector c) (dc_selector v)"

definition stands_downstream :: "heap \<Rightarrow> p_downstream \<Rightarrow> downstream_config \<Rightarrow> bool" where
  "stands_downstream h c v \<longleftrightarrow> pn_kubeconfig c = dm_kubeconfig v \<and> ps_name (py_single (pn_strategy c)) = dm_single_name v \<and>
     pf_prefix (py_discovery (pn_strategy c)) = dm_discovery_prefix v \<and>
     (\<exists>m. holds map_cell h (pn_labels c) m \<and> dm_labels v = nil_map m)"

definition stands_for :: "heap \<Rightarrow> p_provider \<Rightarrow> gcp_provider \<Rightarrow> bool" where
  "stands_for h p v \<longleftrightarrow> stands_metrics h (pp_metrics p) (gp_metrics v) \<and> stands_webhook h (pp_webhook p) (gp_webhook v) \<and>
     stands_discovery h (pp_discovery p) (gp_discovery v) \<and> stands_downstream h (pp_downstream p) (gp_downstream v) \<and>
     pp_location_class p = gp_location_class v \<and> holds map_cell h (pp_images p) (gp_images v) \<and>
     holds map_cell h (pp_machine_types p) (gp_machine_types v)"

lemmas stands_defs = stands_tls_def stands_metrics_def stands_webhook_def stands_discovery_def
  stands_downstream_def stands_for_def

text \<open>The addresses a configuration points to.\<close>

definition points_to :: "p_provider \<Rightarrow> nat set" where
  "points_to p = set_option (pm_secure (pp_metrics p)) \<union> set_option (pt_secret_ref (pm_tls (pp_metrics p))) \<union>
     set_option (pt_secret_ref (pw_tls (pp_webhook p))) \<union> set_option (pd_selector (pp_discovery p)) \<union>
     set_option (pn_labels (pp_downstream p)) \<union> set_option (pp_images p) \<union> set_option (pp_machine_types p)"

definition sane :: "heap \<Rightarrow> bool" where
  "sane h \<longleftrightarrow> (\<forall>a. hp_cell h a \<noteq> None \<longrightarrow> a < hp_next h)"

definition grows :: "heap \<Rightarrow> heap \<Rightarrow> bool" where
  "grows h h' \<longleftrightarrow> sane h' \<and> hp_next h \<le> hp_next h' \<and> (\<forall>a < hp_next h. hp_cell h' a = hp_cell h a)"

definition fresh :: "heap \<Rightarrow> heap \<Rightarrow> nat set \<Rightarrow> bool" where
  "fresh h h' A \<longleftrightarrow> (\<forall>a \<in> A. hp_next h \<le> a \<and> a < hp_next h')"

lemma grows_refl: "sane h \<Longrightarrow> grows h h"
  by (simp add: grows_def)

lemma grows_trans [trans]: "grows h h' \<Longrightarrow> grows h' h'' \<Longrightarrow> grows h h''"
  unfolding grows_def by (metis le_trans less_le_trans)

lemma grows_sane: "grows h h' \<Longrightarrow> sane h'"
  by (simp add: grows_def)

lemma fresh_wider: "fresh h1 h2 A \<Longrightarrow> grows h h1 \<Longrightarrow> grows h2 h3 \<Longrightarrow> fresh h h3 A"
  unfolding fresh_def grows_def by (meson le_trans less_le_trans)

lemma holds_below: "sane h \<Longrightarrow> holds dec h p v \<Longrightarrow> a \<in> set_option p \<Longrightarrow> a < hp_next h"
  unfolding sane_def holds_def by (cases p) (auto simp: bind_eq_Some_conv)

lemma holds_same: "holds dec h p v \<Longrightarrow> \<forall>a \<in> set_option p. hp_cell h' a = hp_cell h a \<Longrightarrow> holds dec h' p v"
  unfolding holds_def by (cases p) auto

lemma holds_grows: "sane h \<Longrightarrow> grows h h' \<Longrightarrow> holds dec h p v \<Longrightarrow> holds dec h' p v"
  by (rule holds_same) (auto simp: grows_def dest: holds_below)

lemma stands_grows:
  assumes "sane h" and "grows h h'"
  shows "stands_tls h t tv \<Longrightarrow> stands_tls h' t tv" "stands_metrics h m mv \<Longrightarrow> stands_metrics h' m mv"
    "stands_webhook h w wv \<Longrightarrow> stands_webhook h' w wv" "stands_discovery h c cv \<Longrightarrow> stands_discovery h' c cv"
    "stands_downstream h n nv \<Longrightarrow> stands_downstream h' n nv"
  unfolding stands_defs by (auto intro: holds_grows [OF assms])

lemma stands_for_same:
  "stands_for h p v \<Longrightarrow> \<forall>a \<in> points_to p. hp_cell h' a = hp_cell h a \<Longrightarrow> stands_for h' p v"
  unfolding stands_defs points_to_def by (auto intro: holds_same)

section \<open>The copies\<close>

lemma new_cell_run:
  assumes "sane h" obtains h' where "new_cell c h = (Ok (hp_next h), h')" "grows h h'" "hp_cell h' (hp_next h) = Some c"
    "fresh h h' {hp_next h}"
  using assms by (intro that [of "snd (new_cell c h)"]) (auto simp: new_cell_def grows_def sane_def fresh_def less_Suc_eq)

lemma store_new: "grows h h' \<Longrightarrow> hp_next h \<le> a \<Longrightarrow> a < hp_next h' \<Longrightarrow> grows h (store_cell a c h')"
  by (auto simp: store_cell_def grows_def sane_def)

lemma load_run: "holds dec h (Some a) (Some x) \<Longrightarrow> load dec a h = (Ok x, h)"
  by (simp add: holds_def load_def)

lemma copy_cell_copies:
  assumes "sane h" and "holds dec h p v" and "\<And>x. dec (enc x) = Some x"
  obtains q h' where "copy_cell dec enc zero p h = (Ok q, h')" "grows h h'" "holds dec h' q v" "fresh h h' (set_option q)"
proof (cases p)
  case None
  with assms show ?thesis
    by (intro that [of None h]) (auto simp: copy_cell_def ret_apply grows_refl holds_def fresh_def)
next
  case (Some a)
  with assms(2) obtain x where x: "v = Some x" "holds dec h (Some a) (Some x)" by (auto simp: holds_def)
  obtain h1 where h1: "new_cell (enc zero) h = (Ok (hp_next h), h1)" "grows h h1" "fresh h h1 {hp_next h}"
    using assms(1) by (rule new_cell_run)
  let ?h' = "store_cell (hp_next h) (enc x) h1"
  have "load dec a h1 = (Ok x, h1)" by (rule load_run [OF holds_grows [OF assms(1) h1(2) x(2)]])
  then have "copy_cell dec enc zero p h = (Ok (Some (hp_next h)), ?h')"
    using Some h1(1) by (simp add: copy_cell_def bindA_run store_def ret_apply)
  moreover have "grows h ?h'" using h1 by (auto intro: store_new simp: fresh_def)
  moreover have "holds dec ?h' (Some (hp_next h)) v" using x(1) assms(3) by (simp add: holds_def store_cell_def)
  ultimately show ?thesis using h1(3) by (intro that) (auto simp: fresh_def store_cell_def)
qed

text \<open>The loop that fills the new map, for any order of the entries.\<close>

lemma set_entries:
  "hp_cell h out = Some (CEntries m) \<Longrightarrow> finite (dom m) \<Longrightarrow>
   eachA (set_entry out) es h = (Ok (), store_cell out (CEntries (m ++ map_of (rev es))) h)"
proof (induction es arbitrary: h m)
  case Nil
  then show ?case by (simp add: ret_apply store_cell_def fun_upd_idem)
next
  case (Cons e es)
  let ?h = "store_cell out (CEntries (m(fst e \<mapsto> snd e))) h"
  have "set_entry out e h = (Ok (), ?h)"
    using Cons.prems by (simp add: set_entry_def load_def store_def bindA_run)
  moreover have fin: "finite (dom (m(fst e \<mapsto> snd e)))"
    by (rule finite_subset [of _ "insert (fst e) (dom m)"]) (use Cons.prems(2) in \<open>auto split: if_splits\<close>)
  moreover have "eachA (set_entry out) es ?h = (Ok (), store_cell out (CEntries (m(fst e \<mapsto> snd e) ++ map_of (rev es))) ?h)"
    by (rule Cons.IH [OF _ fin]) (simp add: store_cell_def fun_upd_def)
  ultimately show ?case by (cases e) (simp add: bindA_run store_cell_def map_add_upd_left)
qed

lemma map_of_rev: "distinct (map fst es) \<Longrightarrow> map_of (rev es) = map_of es"
  by (induction es) (auto simp: map_add_upd_left dom_map_of_conv_image_fst)

lemma copy_map_copies:
  assumes "range_law lib" and "sane h" and "holds map_cell h p v"
  obtains q h' where "copy_map lib p h = (Ok q, h')" "grows h h'" "holds map_cell h' q v" "fresh h h' (set_option q)"
proof (cases p)
  case None
  with assms show ?thesis
    by (intro that [of None h]) (auto simp: copy_map_def ret_apply grows_refl holds_def fresh_def)
next
  case (Some a)
  with assms(3) obtain m where m: "v = Some m" "holds map_cell h (Some a) (Some m)" by (auto simp: holds_def)
  then have fin: "finite (dom m)" by (auto simp: holds_def bind_eq_Some_conv split: if_splits elim!: map_cell.elims)
  with assms(1) have order: "map_of (rev (cp_range lib m)) = m"
    by (simp add: range_law_def map_of_rev)
  obtain h1 where h1: "new_cell (CEntries Map.empty) h = (Ok (hp_next h), h1)" "grows h h1"
    "hp_cell h1 (hp_next h) = Some (CEntries Map.empty)" "fresh h h1 {hp_next h}"
    using assms(2) by (rule new_cell_run)
  let ?h' = "store_cell (hp_next h) (CEntries m) h1"
  have "eachA (set_entry (hp_next h)) (cp_range lib m) h1 = (Ok (), ?h')"
    using set_entries [OF h1(3), of "cp_range lib m"] order by simp
  then have "copy_map lib p h = (Ok (Some (hp_next h)), ?h')"
    using Some h1(1) load_run [OF m(2)] by (simp add: copy_map_def bindA_run ret_apply)
  moreover have "grows h ?h'" using h1 by (auto intro: store_new simp: fresh_def)
  moreover have "holds map_cell ?h' (Some (hp_next h)) v" using m(1) fin by (simp add: holds_def store_cell_def)
  ultimately show ?thesis using h1(4) by (intro that) (auto simp: fresh_def store_cell_def)
qed

lemma copy_selector_copies:
  assumes "selector_law lib" and "sane h" and "holds selector_cell h p v"
  obtains q h' where "copy_selector lib p h = (Ok q, h')" "grows h h'" "holds selector_cell h' q v" "fresh h h' (set_option q)"
proof (cases p)
  case None
  with assms show ?thesis
    by (intro that [of None h]) (auto simp: copy_selector_def ret_apply grows_refl holds_def fresh_def)
next
  case (Some a)
  obtain h1 where h1: "new_cell (CSelector []) h = (Ok (hp_next h), h1)" "grows h h1" "fresh h h1 {hp_next h}"
    using assms(2) by (rule new_cell_run)
  from Some holds_grows [OF assms(2) h1(2) assms(3)] obtain s where s: "v = Some s" "hp_cell h1 a = Some (CSelector s)"
    by (auto simp: holds_def bind_eq_Some_conv elim!: selector_cell.elims)
  let ?h' = "store_cell (hp_next h) (CSelector s) h1"
  have "copy_selector lib p h = (Ok (Some (hp_next h)), ?h')"
    using Some h1(1) assms(1) s(2) by (simp add: copy_selector_def bindA_run ret_apply selector_law_def)
  moreover have "grows h ?h'" using h1 by (auto intro: store_new simp: fresh_def)
  moreover have "holds selector_cell ?h' (Some (hp_next h)) v" using s(1) by (simp add: holds_def store_cell_def)
  ultimately show ?thesis using h1(3) by (intro that) (auto simp: fresh_def store_cell_def)
qed

lemmas copy_key = copy_cell_copies [where dec = key_cell and enc = CKey, OF _ _ key_cell.simps(1)]

lemmas copy_bool = copy_cell_copies [where dec = bool_cell and enc = CBool, OF _ _ bool_cell.simps(1)]

lemma tls_copies:
  assumes "sane h" and "stands_tls h t v"
  obtains t' h' where "tls_into t h = (Ok t', h')" "grows h h'" "stands_tls h' t' v" "fresh h h' (set_option (pt_secret_ref t'))"
proof -
  have "holds key_cell h (pt_secret_ref t) (tls_secret_ref v)" using assms(2) by (simp add: stands_tls_def)
  with assms(1) obtain q h' where "copy_cell key_cell CKey (key_of [] []) (pt_secret_ref t) h = (Ok q, h')" "grows h h'"
    "holds key_cell h' q (tls_secret_ref v)" "fresh h h' (set_option q)"
    by (rule copy_key)
  with assms(2) show ?thesis
    by (intro that [of "t\<lparr>pt_secret_ref := q\<rparr>" h']) (auto simp: tls_into_def bindA_run ret_apply stands_tls_def)
qed

lemma metrics_copies:
  assumes "sane h" and "stands_metrics h m v"
  obtains m' h' where "metrics_into m h = (Ok m', h')" "grows h h'" "stands_metrics h' m' v"
    "fresh h h' (set_option (pm_secure m') \<union> set_option (pt_secret_ref (pm_tls m')))"
proof -
  have parts: "holds bool_cell h (pm_secure m) (mc_secure v)" "stands_tls h (pm_tls m) (mc_tls v)"
    using assms(2) by (simp_all add: stands_metrics_def)
  from assms(1) parts(1) obtain q h1 where q: "copy_cell bool_cell CBool False (pm_secure m) h = (Ok q, h1)" "grows h h1"
    "holds bool_cell h1 q (mc_secure v)" "fresh h h1 (set_option q)"
    by (rule copy_bool)
  from grows_sane [OF q(2)] stands_grows(1) [OF assms(1) q(2) parts(2)] obtain t h2 where
    t: "tls_into (pm_tls m) h1 = (Ok t, h2)" "grows h1 h2" "stands_tls h2 t (mc_tls v)"
      "fresh h1 h2 (set_option (pt_secret_ref t))"
    by (rule tls_copies)
  have "fresh h h2 (set_option q \<union> set_option (pt_secret_ref t))"
    using fresh_wider [OF q(4) grows_refl [OF assms(1)] t(2)] fresh_wider [OF t(4) q(2) grows_refl [OF grows_sane [OF t(2)]]]
    by (auto simp: fresh_def)
  with q t holds_grows [OF grows_sane [OF q(2)] t(2) q(3)] assms(2) show ?thesis
    by (intro that [of "m\<lparr>pm_secure := q, pm_tls := t\<rparr>" h2])
      (auto simp: metrics_into_def bindA_run ret_apply stands_metrics_def intro: grows_trans)
qed

lemma webhook_copies:
  assumes "sane h" and "stands_webhook h w v"
  obtains w' h' where "webhook_into w h = (Ok w', h')" "grows h h'" "stands_webhook h' w' v"
    "fresh h h' (set_option (pt_secret_ref (pw_tls w')))"
proof -
  have "stands_tls h (pw_tls w) (wc_tls v)" using assms(2) by (simp add: stands_webhook_def)
  with assms(1) obtain t h' where "tls_into (pw_tls w) h = (Ok t, h')" "grows h h'" "stands_tls h' t (wc_tls v)"
    "fresh h h' (set_option (pt_secret_ref t))"
    by (rule tls_copies)
  with assms(2) show ?thesis
    by (intro that [of "w\<lparr>pw_tls := t\<rparr>" h']) (auto simp: webhook_into_def bindA_run ret_apply stands_webhook_def)
qed

lemma discovery_copies:
  assumes "selector_law lib" and "sane h" and "stands_discovery h c v"
  obtains c' h' where "discovery_into lib c h = (Ok c', h')" "grows h h'" "stands_discovery h' c' v"
    "fresh h h' (set_option (pd_selector c'))"
proof -
  have "holds selector_cell h (pd_selector c) (dc_selector v)" using assms(3) by (simp add: stands_discovery_def)
  with assms(1,2) obtain q h' where "copy_selector lib (pd_selector c) h = (Ok q, h')" "grows h h'"
    "holds selector_cell h' q (dc_selector v)" "fresh h h' (set_option q)"
    by (rule copy_selector_copies)
  with assms(3) show ?thesis
    by (intro that [of "c\<lparr>pd_selector := q\<rparr>" h']) (auto simp: discovery_into_def bindA_run ret_apply stands_discovery_def)
qed

lemma downstream_copies:
  assumes "range_law lib" and "sane h" and "stands_downstream h n v"
  obtains n' h' where "downstream_into lib n h = (Ok n', h')" "grows h h'" "stands_downstream h' n' v"
    "fresh h h' (set_option (pn_labels n'))"
proof -
  from assms(3) obtain m where m: "holds map_cell h (pn_labels n) m" "dm_labels v = nil_map m"
    by (auto simp: stands_downstream_def)
  from assms(1,2) m(1) obtain q h' where "copy_map lib (pn_labels n) h = (Ok q, h')" "grows h h'"
    "holds map_cell h' q m" "fresh h h' (set_option q)"
    by (rule copy_map_copies)
  with assms(3) m(2) show ?thesis
    by (intro that [of "n\<lparr>pn_labels := q\<rparr>" h']) (auto simp: downstream_into_def bindA_run ret_apply stands_downstream_def)
qed

lemma provider_copies:
  assumes "range_law lib" and "selector_law lib" and "sane h" and "stands_for h p v"
  obtains q h' where "provider_into lib p h = (Ok q, h')" "grows h h'" "stands_for h' q v" "fresh h h' (points_to q)"
proof -
  note stands = assms(4) [unfolded stands_for_def]
  from assms(3) stands obtain m h1 where m: "metrics_into (pp_metrics p) h = (Ok m, h1)" "grows h h1"
    "stands_metrics h1 m (gp_metrics v)" "fresh h h1 (set_option (pm_secure m) \<union> set_option (pt_secret_ref (pm_tls m)))"
    by (metis metrics_copies)
  note g1 = m(2)
  from grows_sane [OF g1] stands_grows [OF assms(3) g1] stands obtain w h2 where
    w: "webhook_into (pp_webhook p) h1 = (Ok w, h2)" "grows h1 h2" "stands_webhook h2 w (gp_webhook v)"
      "fresh h1 h2 (set_option (pt_secret_ref (pw_tls w)))"
    by (metis webhook_copies)
  note g2 = grows_trans [OF g1 w(2)]
  from grows_sane [OF g2] stands_grows [OF assms(3) g2] stands obtain c h3 where
    c: "discovery_into lib (pp_discovery p) h2 = (Ok c, h3)" "grows h2 h3" "stands_discovery h3 c (gp_discovery v)"
      "fresh h2 h3 (set_option (pd_selector c))"
    by (metis discovery_copies [OF assms(2)])
  note g3 = grows_trans [OF g2 c(2)]
  from grows_sane [OF g3] stands_grows [OF assms(3) g3] stands obtain n h4 where
    n: "downstream_into lib (pp_downstream p) h3 = (Ok n, h4)" "grows h3 h4" "stands_downstream h4 n (gp_downstream v)"
      "fresh h3 h4 (set_option (pn_labels n))"
    by (metis downstream_copies [OF assms(1)])
  note g4 = grows_trans [OF g3 n(2)]
  from grows_sane [OF g4] holds_grows [OF assms(3) g4, of map_cell] stands obtain im h5 where
    im: "copy_map lib (pp_images p) h4 = (Ok im, h5)" "grows h4 h5" "holds map_cell h5 im (gp_images v)"
      "fresh h4 h5 (set_option im)"
    by (metis copy_map_copies [OF assms(1)])
  note g5 = grows_trans [OF g4 im(2)]
  from grows_sane [OF g5] holds_grows [OF assms(3) g5, of map_cell] stands obtain ms h6 where
    ms: "copy_map lib (pp_machine_types p) h5 = (Ok ms, h6)" "grows h5 h6" "holds map_cell h6 ms (gp_machine_types v)"
      "fresh h5 h6 (set_option ms)"
    by (metis copy_map_copies [OF assms(1)])
  note to6 = ms(2) grows_trans [OF im(2) ms(2)] grows_trans [OF n(2) grows_trans [OF im(2) ms(2)]]
    grows_trans [OF c(2) grows_trans [OF n(2) grows_trans [OF im(2) ms(2)]]]
    grows_trans [OF w(2) grows_trans [OF c(2) grows_trans [OF n(2) grows_trans [OF im(2) ms(2)]]]]
  let ?q = "p\<lparr>pp_metrics := m, pp_webhook := w, pp_discovery := c, pp_downstream := n, pp_images := im, pp_machine_types := ms\<rparr>"
  have "provider_into lib p h = (Ok ?q, h6)"
    using m(1) w(1) c(1) n(1) im(1) ms(1) by (simp add: provider_into_def bindA_run ret_apply)
  moreover have "stands_for h6 ?q v"
    using stands stands_grows(2) [OF grows_sane [OF g1] to6(5) m(3)] stands_grows(3) [OF grows_sane [OF g2] to6(4) w(3)]
      stands_grows(4) [OF grows_sane [OF g3] to6(3) c(3)] stands_grows(5) [OF grows_sane [OF g4] to6(2) n(3)]
      holds_grows [OF grows_sane [OF g5] to6(1) im(3)] ms(3)
    by (simp add: stands_for_def)
  moreover have "fresh h h6 (points_to ?q)"
    using fresh_wider [OF m(4) grows_refl [OF assms(3)] to6(5)] fresh_wider [OF w(4) g1 to6(4)] fresh_wider [OF c(4) g2 to6(3)]
      fresh_wider [OF n(4) g3 to6(2)] fresh_wider [OF im(4) g4 to6(1)]
      fresh_wider [OF ms(4) g5 grows_refl [OF grows_sane [OF ms(2)]]]
    by (auto simp: fresh_def points_to_def)
  ultimately show ?thesis using grows_trans [OF g5 ms(2)] by (intro that)
qed

lemma points_below:
  assumes "sane h" and "stands_for h p v" and "a \<in> points_to p" shows "a < hp_next h"
  using assms unfolding points_to_def stands_defs by (auto dest: holds_below)

text \<open>
  C36: \<open>DeepCopyObject\<close> copies deeply: a nil configuration gives nil and leaves the heap as it is; any other gives
  a configuration that stands for the same value as the original does, every pointer of which is to memory
  that was not in use before; the original still stands for its value, and does so whatever is written through
  the pointers of the copy, as does the copy whatever is written through those of the original.
\<close>

theorem deep_copy_separates:
  assumes "range_law lib" and "selector_law lib" and "sane h" and "stands_for h p v"
  shows "copy_object lib None h = (Ok None, h) \<and>
    (\<exists>q h'. copy_object lib (Some p) h = (Ok (Some q), h') \<and> stands_for h' q v \<and> stands_for h' p v \<and>
       (\<forall>a. a \<in> points_to q \<longrightarrow> hp_cell h a = None) \<and>
       (\<forall>a c. a \<in> points_to q \<longrightarrow> stands_for (store_cell a c h') p v) \<and>
       (\<forall>a c. a \<in> points_to p \<longrightarrow> stands_for (store_cell a c h') q v))"
proof -
  from assms obtain q h' where copy: "provider_into lib p h = (Ok q, h')" "grows h h'" "stands_for h' q v" "fresh h h' (points_to q)"
    by (rule provider_copies)
  have below: "a < hp_next h" if "a \<in> points_to p" for a by (rule points_below [OF assms(3,4) that])
  then have p: "stands_for h' p v"
    by (intro stands_for_same [OF assms(4)]) (use copy(2) in \<open>auto simp: grows_def\<close>)
  have apart: "a \<noteq> b" if "a \<in> points_to q" "b \<in> points_to p" for a b
    using copy(4) below that by (fastforce simp: fresh_def)
  have "copy_object lib (Some p) h = (Ok (Some q), h')"
    using copy(1) by (simp add: copy_object_def copy_provider_def deep_copy_def bindA_run ret_apply)
  moreover have "\<forall>a. a \<in> points_to q \<longrightarrow> hp_cell h a = None"
    using copy(4) assms(3) unfolding fresh_def sane_def by (meson linorder_not_less)
  moreover have "\<forall>a c. a \<in> points_to q \<longrightarrow> stands_for (store_cell a c h') p v"
    by (auto intro!: stands_for_same [OF p] simp: store_cell_def dest: apart)
  moreover have "\<forall>a c. a \<in> points_to p \<longrightarrow> stands_for (store_cell a c h') q v"
    by (auto intro!: stands_for_same [OF copy(3)] simp: store_cell_def dest: apart)
  moreover have "copy_object lib None h = (Ok None, h)"
    by (simp add: copy_object_def copy_provider_def deep_copy_def bindA_run ret_apply)
  ultimately show ?thesis using copy(3) p by blast
qed

text \<open>A library that visits the entries of a map in the order of the keys, and a configuration with three pointers.\<close>

definition sorted_lib :: copy_lib where
  "sorted_lib = \<lparr>cp_range = (\<lambda>m. map (\<lambda>k. (k, the (m k))) (sorted_list_of_set (dom m))),
     cp_selector = (\<lambda>i out h. case Option.bind (hp_cell h i) selector_cell of
       Some s \<Rightarrow> (Ok (), store_cell out (CSelector s) h) | None \<Rightarrow> (Panic ''invalid memory address'', h))\<rparr>"

lemma sorted_lib_laws: "range_law sorted_lib" "selector_law sorted_lib"
proof -
  have "map_of (map (\<lambda>k. (k, the (m k))) (sorted_list_of_set (dom m))) = m" if "finite (dom m)" for m :: "string \<rightharpoonup> string"
  proof
    fix k
    show "map_of (map (\<lambda>k. (k, the (m k))) (sorted_list_of_set (dom m))) k = m k"
      using that by (cases "m k") (auto simp: map_of_map_restrict restrict_map_def domIff)
  qed
  then show "range_law sorted_lib" by (simp add: range_law_def sorted_lib_def comp_def)
  show "selector_law sorted_lib" by (simp add: selector_law_def sorted_lib_def)
qed

definition some_heap :: heap where
  "some_heap = \<lparr>hp_next = 3, hp_cell = [0 \<mapsto> CBool True, 1 \<mapsto> CSelector ''all'', 2 \<mapsto> CEntries [''managed-by'' \<mapsto> ''datum'']]\<rparr>"

definition some_provider :: p_provider where
  "some_provider = (let t = \<lparr>pt_secret_ref = None, pt_cert_dir = [], pt_cert_name = [], pt_key_name = []\<rparr> in
     \<lparr>pp_metrics = \<lparr>pm_secure = Some 0, pm_bind = ''0'', pm_tls = t\<rparr>,
      pp_webhook = \<lparr>pw_host = [], pw_port = 9443, pw_tls = t, pw_client_ca = []\<rparr>,
      pp_discovery = \<lparr>pd_mode = ''milo'', pd_internal = False, pd_discovery_kubeconfig = [], pd_context = [],
        pd_project_kubeconfig = [], pd_selector = Some 1\<rparr>,
      pp_downstream = \<lparr>pn_kubeconfig = [], pn_strategy = \<lparr>py_single = \<lparr>ps_name = ''gcp''\<rparr>, py_discovery = \<lparr>pf_prefix = []\<rparr>\<rparr>,
        pn_labels = Some 2\<rparr>,
      pp_location_class = [], pp_images = None, pp_machine_types = None\<rparr>)"

definition some_value :: gcp_provider where
  "some_value = (let t = \<lparr>tls_secret_ref = None, tls_cert_dir = [], tls_cert_name = [], tls_key_name = []\<rparr> in
     \<lparr>gp_metrics = \<lparr>mc_secure = Some True, mc_bind = ''0'', mc_tls = t\<rparr>,
      gp_webhook = \<lparr>wc_host = [], wc_port = 9443, wc_tls = t, wc_client_ca = []\<rparr>,
      gp_discovery = \<lparr>dc_mode = ''milo'', dc_internal = False, dc_discovery_kubeconfig = [], dc_context = [],
        dc_project_kubeconfig = [], dc_selector = Some ''all''\<rparr>,
      gp_downstream = \<lparr>dm_kubeconfig = [], dm_single_name = ''gcp'', dm_discovery_prefix = [],
        dm_labels = [''managed-by'' \<mapsto> ''datum'']\<rparr>,
      gp_location_class = [], gp_images = None, gp_machine_types = None\<rparr>)"

lemma some_stands: "stands_for some_heap some_provider some_value" "sane some_heap"
  by (auto simp: stands_defs some_provider_def some_value_def some_heap_def holds_def nil_map_def Let_def sane_def
      split: if_splits)

theorem deep_copy_separates_witness:
  "\<exists>q h'. copy_object sorted_lib (Some some_provider) some_heap = (Ok (Some q), h') \<and> stands_for h' q some_value \<and>
     stands_for (store_cell 2 (CEntries Map.empty) h') q some_value"
proof -
  have "2 \<in> points_to some_provider" by (simp add: points_to_def some_provider_def Let_def)
  with deep_copy_separates [OF sorted_lib_laws some_stands(2,1)] show ?thesis by blast
qed

end
