(* ===== verification/Access_Rules.thy ===== *)
theory Access_Rules
  imports Footprint Scenarios
begin

text \<open>
  The access rules the operator is deployed with, \<open>internal/controller/rbac/upstream/upstream_rbac.go\<close> and
  \<open>internal/controller/rbac/downstream/downstream_rbac.go\<close>, from which the roles under \<open>config\<close> are generated,
  against the calls the operator makes. The names under which the API servers know the kinds are a
  parameter; its law states their documented values.
\<close>

section \<open>The rules\<close>

record access_rule =
  ar_group :: string
  ar_resource :: string
  ar_verbs :: "string list"

definition read_verbs :: "string list" where
  "read_verbs = [''get'', ''list'', ''watch'']"

definition all_verbs :: "string list" where
  "all_verbs = read_verbs @ [''create'', ''update'', ''patch'', ''delete'']"

definition upstream_rules :: "access_rule list" where
  "upstream_rules = [
     \<lparr>ar_group = [], ar_resource = ''configmaps'', ar_verbs = read_verbs\<rparr>,
     \<lparr>ar_group = [], ar_resource = ''secrets'', ar_verbs = read_verbs\<rparr>,
     \<lparr>ar_group = ''compute.datumapis.com'', ar_resource = ''instances'', ar_verbs = read_verbs\<rparr>,
     \<lparr>ar_group = ''compute.datumapis.com'', ar_resource = ''instances/status'', ar_verbs = [''get'', ''update'', ''patch'']\<rparr>,
     \<lparr>ar_group = ''compute.datumapis.com'', ar_resource = ''instances/finalizers'', ar_verbs = [''update'']\<rparr>,
     \<lparr>ar_group = ''networking.datumapis.com'', ar_resource = ''networks'', ar_verbs = read_verbs\<rparr>,
     \<lparr>ar_group = ''networking.datumapis.com'', ar_resource = ''networks/finalizers'', ar_verbs = [''update'']\<rparr>,
     \<lparr>ar_group = ''networking.datumapis.com'', ar_resource = ''networkcontexts'', ar_verbs = read_verbs\<rparr>,
     \<lparr>ar_group = ''networking.datumapis.com'', ar_resource = ''networkcontexts/status'', ar_verbs = [''get'', ''update'', ''patch'']\<rparr>,
     \<lparr>ar_group = ''networking.datumapis.com'', ar_resource = ''networkcontexts/finalizers'', ar_verbs = [''update'']\<rparr>,
     \<lparr>ar_group = ''networking.datumapis.com'', ar_resource = ''subnets'', ar_verbs = read_verbs\<rparr>,
     \<lparr>ar_group = ''networking.datumapis.com'', ar_resource = ''subnets/status'', ar_verbs = [''get'', ''update'', ''patch'']\<rparr>,
     \<lparr>ar_group = ''networking.datumapis.com'', ar_resource = ''subnets/finalizers'', ar_verbs = [''update'']\<rparr>,
     \<lparr>ar_group = ''workload.datumapis.com'', ar_resource = ''workloads'', ar_verbs = read_verbs\<rparr>,
     \<lparr>ar_group = ''workload.datumapis.com'', ar_resource = ''workloads/finalizers'', ar_verbs = [''update'']\<rparr>]"

definition downstream_rules :: "access_rule list" where
  "downstream_rules = [
     \<lparr>ar_group = [], ar_resource = ''configmaps'', ar_verbs = all_verbs\<rparr>,
     \<lparr>ar_group = [], ar_resource = ''namespaces'', ar_verbs = all_verbs\<rparr>,
     \<lparr>ar_group = [], ar_resource = ''secrets'', ar_verbs = all_verbs\<rparr>,
     \<lparr>ar_group = ''cloudplatform.gcp.upbound.io'', ar_resource = ''serviceaccounts'', ar_verbs = all_verbs\<rparr>,
     \<lparr>ar_group = ''cloudplatform.gcp.upbound.io'', ar_resource = ''serviceaccounts/status'', ar_verbs = [''get'']\<rparr>,
     \<lparr>ar_group = ''compute.gcp.upbound.io'', ar_resource = ''firewalls'', ar_verbs = all_verbs\<rparr>,
     \<lparr>ar_group = ''compute.gcp.upbound.io'', ar_resource = ''firewalls/status'', ar_verbs = [''get'']\<rparr>,
     \<lparr>ar_group = ''compute.gcp.upbound.io'', ar_resource = ''instances'', ar_verbs = all_verbs\<rparr>,
     \<lparr>ar_group = ''compute.gcp.upbound.io'', ar_resource = ''instances/status'', ar_verbs = [''get'']\<rparr>,
     \<lparr>ar_group = ''compute.gcp.upbound.io'', ar_resource = ''networks'', ar_verbs = all_verbs\<rparr>,
     \<lparr>ar_group = ''compute.gcp.upbound.io'', ar_resource = ''networks/status'', ar_verbs = [''get'']\<rparr>,
     \<lparr>ar_group = ''compute.gcp.upbound.io'', ar_resource = ''subnetworks'', ar_verbs = all_verbs\<rparr>,
     \<lparr>ar_group = ''compute.gcp.upbound.io'', ar_resource = ''subnetworks/status'', ar_verbs = [''get'']\<rparr>,
     \<lparr>ar_group = ''gcp.upbound.io'', ar_resource = ''providerconfigs'', ar_verbs = read_verbs\<rparr>,
     \<lparr>ar_group = ''secretmanager.gcp.upbound.io'', ar_resource = ''secretiammembers'', ar_verbs = all_verbs\<rparr>,
     \<lparr>ar_group = ''secretmanager.gcp.upbound.io'', ar_resource = ''secretiammembers/status'', ar_verbs = [''get'']\<rparr>,
     \<lparr>ar_group = ''secretmanager.gcp.upbound.io'', ar_resource = ''secrets'', ar_verbs = all_verbs\<rparr>,
     \<lparr>ar_group = ''secretmanager.gcp.upbound.io'', ar_resource = ''secrets/status'', ar_verbs = [''get'']\<rparr>,
     \<lparr>ar_group = ''secretmanager.gcp.upbound.io'', ar_resource = ''secretversions'', ar_verbs = all_verbs\<rparr>,
     \<lparr>ar_group = ''secretmanager.gcp.upbound.io'', ar_resource = ''secretversions/status'', ar_verbs = [''get'']\<rparr>]"

section \<open>What a call asks for\<close>

text \<open>Group, resource and verb.\<close>

type_synonym attempt = "string \<times> string \<times> string"

type_synonym api_names = "kind \<Rightarrow> string \<times> string"

definition attempt_on :: "api_names \<Rightarrow> kind \<Rightarrow> string \<Rightarrow> string \<Rightarrow> attempt" where
  "attempt_on api k sub verb = (fst (api k), snd (api k) @ sub, verb)"

text \<open>A read is served by the cache of the cluster, which lists the kind and watches it.\<close>

fun attempts :: "api_names \<Rightarrow> event \<Rightarrow> attempt list" where
  "attempts api (EGet s k key r) = map (attempt_on api k []) read_verbs"
| "attempts api (EList s k opts r) = map (attempt_on api k []) read_verbs"
| "attempts api (ECreate s x r) = [attempt_on api (obj_kind x) [] ''create'']"
| "attempts api (EUpdate s x r) = [attempt_on api (obj_kind x) [] ''update'']"
| "attempts api (EStatusUpdate s x r) = [attempt_on api (obj_kind x) ''/status'' ''update'']"
| "attempts api (EPatch s x y r) = [attempt_on api (obj_kind y) [] ''patch'']"
| "attempts api (EDelete s k key r) = [attempt_on api k [] ''delete'']"

definition granted :: "access_rule list \<Rightarrow> attempt \<Rightarrow> bool" where
  "granted rules a \<longleftrightarrow> (case a of (g, res, verb) \<Rightarrow>
     list_ex (\<lambda>r. ar_group r = g \<and> ar_resource r = res \<and> verb \<in> set (ar_verbs r)) rules)"

definition permitted :: "access_rule list \<Rightarrow> api_names \<Rightarrow> event \<Rightarrow> bool" where
  "permitted rules api e \<longleftrightarrow> list_all (granted rules) (attempts api e)"

text \<open>
  The documented names of the kinds: Kubernetes', Crossplane's, and those of the two operators the reconcilers
  work with, one group for each of their Go packages. Instances, deployments and workloads come from one package.
\<close>

definition documented_names :: "(kind \<times> string \<times> string) list" where
  "documented_names = [
     (KNamespace, [], ''namespaces''), (KConfigMap, [], ''configmaps''), (KSecret, [], ''secrets''),
     (KInstance, ''compute.datumapis.com'', ''instances''),
     (KDeployment, ''compute.datumapis.com'', ''workloaddeployments''),
     (KWorkload, ''compute.datumapis.com'', ''workloads''),
     (KLocation, ''networking.datumapis.com'', ''locations''),
     (KNetwork, ''networking.datumapis.com'', ''networks''),
     (KContext, ''networking.datumapis.com'', ''networkcontexts''),
     (KBinding, ''networking.datumapis.com'', ''networkbindings''),
     (KSubnet, ''networking.datumapis.com'', ''subnets''),
     (KServiceAccount, ''cloudplatform.gcp.upbound.io'', ''serviceaccounts''),
     (KGcpInstance, ''compute.gcp.upbound.io'', ''instances''),
     (KFirewall, ''compute.gcp.upbound.io'', ''firewalls''),
     (KGcpNetwork, ''compute.gcp.upbound.io'', ''networks''),
     (KSubnetwork, ''compute.gcp.upbound.io'', ''subnetworks''),
     (KGcpSecret, ''secretmanager.gcp.upbound.io'', ''secrets''),
     (KSecretVersion, ''secretmanager.gcp.upbound.io'', ''secretversions''),
     (KIamMember, ''secretmanager.gcp.upbound.io'', ''secretiammembers'')]"

definition api_law :: "api_names \<Rightarrow> bool" where
  "api_law api \<longleftrightarrow> (\<forall>(k, n) \<in> set documented_names. api k = n)"

text \<open>The role of a cluster, and the cluster of a call.\<close>

definition rules_at :: "side \<Rightarrow> access_rule list" where
  "rules_at s = (case s of Upstream c \<Rightarrow> upstream_rules | Downstream \<Rightarrow> downstream_rules)"

fun event_side :: "event \<Rightarrow> side" where
  "event_side (EGet s k key r) = s"
| "event_side (EList s k opts r) = s"
| "event_side (ECreate s x r) = s"
| "event_side (EUpdate s x r) = s"
| "event_side (EStatusUpdate s x r) = s"
| "event_side (EPatch s x y r) = s"
| "event_side (EDelete s k key r) = s"

section \<open>What the roles grant\<close>

definition grants :: "access_rule list \<Rightarrow> string \<Rightarrow> string list \<Rightarrow> kind \<Rightarrow> bool" where
  "grants rules sub verbs k \<longleftrightarrow> (case map_of documented_names k of
     None \<Rightarrow> False | Some (g, res) \<Rightarrow> list_all (\<lambda>v. granted rules (g, res @ sub, v)) verbs)"

lemma granted_iff:
  assumes "api_law api"
  shows "list_all (\<lambda>v. granted rules (attempt_on api k sub v)) verbs \<longleftrightarrow> grants rules sub verbs k"
proof -
  have "map_of documented_names k \<noteq> None" by (cases k) (simp_all add: documented_names_def)
  then obtain n where "map_of documented_names k = Some n" by blast
  moreover from map_of_SomeD [OF this] have "api k = n" using assms by (auto simp: api_law_def)
  ultimately show ?thesis by (simp add: grants_def attempt_on_def case_prod_beta)
qed

definition readable_upstream :: "kind list" where
  "readable_upstream = [KConfigMap, KSecret, KInstance, KNetwork, KContext, KSubnet]"

lemma role_tables:
  "list_all (grants downstream_rules [] all_verbs) downstream_kinds"
  "list_all (\<lambda>k. grants upstream_rules [] read_verbs k \<longleftrightarrow> List.member readable_upstream k) upstream_kinds"
  "list_all (\<lambda>k. \<not> grants upstream_rules [] [''update''] k) upstream_kinds"
  "list_all (grants upstream_rules ''/status'' [''update'']) published_kinds"
  by code_simp+

lemma permitted_reads:
  assumes "api_law api"
  shows "permitted rules api (EGet s k key g) \<longleftrightarrow> grants rules [] read_verbs k"
    "permitted rules api (EList s k opts l) \<longleftrightarrow> grants rules [] read_verbs k"
  using granted_iff [OF assms] by (simp_all add: permitted_def list.pred_map comp_def)

lemma permitted_writes:
  assumes "api_law api"
  shows "permitted rules api (ECreate s x u) \<longleftrightarrow> grants rules [] [''create''] (obj_kind x)"
    "permitted rules api (EUpdate s x u) \<longleftrightarrow> grants rules [] [''update''] (obj_kind x)"
    "permitted rules api (EStatusUpdate s x u) \<longleftrightarrow> grants rules ''/status'' [''update''] (obj_kind x)"
    "permitted rules api (EPatch s x y u) \<longleftrightarrow> grants rules [] [''patch''] (obj_kind y)"
    "permitted rules api (EDelete s k key e) \<longleftrightarrow> grants rules [] [''delete''] k"
  by (simp_all add: permitted_def granted_iff [OF assms, symmetric])

lemma downstream_grants: "k \<in> set downstream_kinds \<Longrightarrow> set vs \<subseteq> set all_verbs \<Longrightarrow> grants downstream_rules [] vs k"
  using role_tables(1) by (fastforce simp: grants_def list_all_iff split: option.splits)

lemma downstream_reads: "k \<in> set downstream_kinds \<Longrightarrow> grants downstream_rules [] read_verbs k"
  by (rule downstream_grants) (auto simp: all_verbs_def)

lemma upstream_grants:
  "k \<in> set upstream_kinds \<Longrightarrow> grants upstream_rules [] read_verbs k \<longleftrightarrow> k \<in> set readable_upstream"
  "k \<in> set upstream_kinds \<Longrightarrow> \<not> grants upstream_rules [] [''update''] k"
  "k \<in> set published_kinds \<Longrightarrow> grants upstream_rules ''/status'' [''update''] k"
  using role_tables(2-4) by (auto simp: list_all_iff)

section \<open>The operator against its roles\<close>

text \<open>
  C4: Every call the operator makes on the downstream cluster, in any interleaving of any reconciliations, is
  one its role there allows, and for a read also the list and the watch of the cache that serves it.
\<close>

theorem downstream_permitted:
  assumes "library_laws d" and "external_name_law d" and "api_law api"
    and "system_log d cfg cls h" and "x \<in> set h" and "event_side (en_event x) = Downstream"
  shows "permitted (rules_at Downstream) api (en_event x)"
proof -
  from system_log_fits [OF assms(1,2,4)] assms(5) have "fits (en_request x) (en_event x)" by blast
  with assms(6) show ?thesis
    by (cases "en_event x")
      (simp_all add: fits_def kinds_at_def rules_at_def permitted_reads [OF assms(3)] permitted_writes [OF assms(3)]
        downstream_grants downstream_reads all_verbs_def)
qed

definition ref_api :: api_names where
  "ref_api k = the (map_of documented_names k)"

lemma ref_api: "api_law ref_api"
  by (simp add: api_law_def documented_names_def ref_api_def)

theorem downstream_permitted_witness:
  "\<exists>s y r. permitted downstream_rules ref_api (ECreate s y r) \<and> obj_kind y = KSubnetwork"
proof -
  obtain x y r where x: "x \<in> set subnet_log" "en_event x = ECreate Downstream y r" "obj_kind y = KSubnetwork"
    by (rule subnet_log)
  have "permitted (rules_at Downstream) ref_api (en_event x)"
    by (rule downstream_permitted [OF ref_laws ref_external_name ref_api log_of x(1) [unfolded subnet_log_def]])
      (simp add: x(2))
  with x show ?thesis by (auto simp: rules_at_def)
qed

text \<open>
  C5: Of the calls the operator makes on the tenants' clusters, the upstream role allows exactly the status
  updates and the reads of config maps, secrets, instances, networks, network contexts and subnets. It denies
  every claim and every release of a finalizer, which update the object and not its \<open>finalizers\<close> subresource,
  and the reads of locations, deployments, workloads, bindings and namespaces.
\<close>

theorem upstream_permitted:
  assumes "library_laws d" and "external_name_law d" and "api_law api"
    and "system_log d cfg cls h" and "x \<in> set h" and "event_side (en_event x) = Upstream c"
  shows "permitted (rules_at (Upstream c)) api (en_event x) = (case en_event x of
      EGet s k key r \<Rightarrow> List.member readable_upstream k
    | EList s k opts r \<Rightarrow> List.member readable_upstream k
    | EStatusUpdate s y r \<Rightarrow> True
    | _ \<Rightarrow> False)"
proof -
  from system_log_fits [OF assms(1,2,4)] system_log_scoped [OF assms(1,4)] assms(5)
  have "fits (en_request x) (en_event x)"
    "in_scope (managed_labels cfg) (controller_kind (en_controller x)) (en_request x) (en_event x)" by blast+
  with assms(6) show ?thesis
    by (cases "en_event x")
      (simp_all add: fits_def kinds_at_def rules_at_def permitted_reads [OF assms(3)] permitted_writes [OF assms(3)]
        upstream_grants)
qed

text \<open>The claim of a network.\<close>

definition claim_log :: "entry list" where
  "claim_log = log_of NetworkCtl ref_rq [(tenant, to_obj network_c (as_kobj (live ''ns'' ''x'' ''n7'' BWorkload) \<lparr>n_mtu = 1460\<rparr>))]"

lemma claim_log:
  obtains x y r where "x \<in> set claim_log" "en_event x = EUpdate tenant y r"
proof -
  have "case en_event (last claim_log) of EUpdate s y r \<Rightarrow> s = tenant | _ \<Rightarrow> False" by code_simp
  then obtain y r where "en_event (last claim_log) = EUpdate tenant y r"
    by (cases "en_event (last claim_log)") auto
  moreover have "last claim_log \<in> set claim_log"
    by (rule last_in_set) code_simp
  ultimately show thesis by (rule that [rotated])
qed

theorem upstream_permitted_witness:
  "\<exists>y r. \<not> permitted upstream_rules ref_api (EUpdate tenant y r)"
proof -
  obtain x y r where x: "x \<in> set claim_log" "en_event x = EUpdate tenant y r" by (rule claim_log)
  have "permitted (rules_at tenant) ref_api (en_event x) = (case en_event x of
      EGet s k key r \<Rightarrow> List.member readable_upstream k
    | EList s k opts r \<Rightarrow> List.member readable_upstream k
    | EStatusUpdate s y r \<Rightarrow> True
    | _ \<Rightarrow> False)"
    by (rule upstream_permitted [OF ref_laws ref_external_name ref_api log_of x(1) [unfolded claim_log_def]])
      (simp add: x(2))
  with x show ?thesis by (auto simp: rules_at_def)
qed

end
