(* ===== verification/Python_Json.thy ===== *)
theory Python_Json
  imports Go_Json "HOL-Library.AList"
begin

text \<open>
  \<open>json.loads\<close> of Python's standard library on the JSON the operator writes: objects, strings and null, without
  white space. Together with \<open>Go_Json\<close> it gives the round trip: what Go marshals, Python reads back.
\<close>

section \<open>Values\<close>

datatype json = JNull | JString string | JObject "(string \<times> json) list"

text \<open>The text Go writes for a value; the members are in the order given.\<close>

primrec json_text :: "json \<Rightarrow> string" where
  "json_text JNull = ''null''"
| "json_text (JString s) = json_string s"
| "json_text (JObject kvs) = ''{'' @ json_members (map (map_prod id json_text) kvs) @ ''}''"

text \<open>A Python dictionary made from the members: a key keeps its first place and its last value.\<close>

definition dict :: "(string \<times> 'v) list \<Rightarrow> (string \<times> 'v) list" where
  "dict kvs = fold (\<lambda>(k, v). AList.update k v) kvs []"

section \<open>Reading\<close>

definition unhex :: "char \<Rightarrow> nat option" where
  "unhex c = (let n = byte c in
     if 48 \<le> n \<and> n \<le> 57 then Some (n - 48)
     else if 97 \<le> n \<and> n \<le> 102 then Some (n - 87)
     else if 65 \<le> n \<and> n \<le> 70 then Some (n - 55) else None)"

text \<open>An escape of one character, and of a code point given by four digits, here of ASCII only.\<close>

definition unescape :: "char \<Rightarrow> char option" where
  "unescape c = map_of [(CHR 34, CHR 34), (CHR 92, CHR 92), (CHR ''/'', CHR ''/''), (CHR ''n'', CHR 10),
     (CHR ''r'', CHR 13), (CHR ''t'', CHR 9), (CHR ''b'', CHR 8), (CHR ''f'', CHR 12)] c"

definition code_point :: "char \<Rightarrow> char \<Rightarrow> char \<Rightarrow> char \<Rightarrow> char option" where
  "code_point a b c d = (case (unhex a, unhex b, unhex c, unhex d) of
     (Some i, Some j, Some k, Some l) \<Rightarrow>
       (let n = ((i * 16 + j) * 16 + k) * 16 + l in if n < 128 then Some (char_of n) else None)
   | _ \<Rightarrow> None)"

text \<open>The rest of a string after its opening quote.\<close>

fun read_chars :: "string \<Rightarrow> (string \<times> string) option" where
  "read_chars [] = None"
| "read_chars (c # cs) =
     (if c = CHR 34 then Some ([], cs)
      else if c = CHR 92 then
        (case cs of
           [] \<Rightarrow> None
         | e # r \<Rightarrow>
             if e = CHR ''u'' then
               (case r of
                  h1 # h2 # h3 # h4 # r' \<Rightarrow> (case code_point h1 h2 h3 h4 of
                      None \<Rightarrow> None | Some x \<Rightarrow> map_option (apfst ((#) x)) (read_chars r'))
                | _ \<Rightarrow> None)
             else (case unescape e of
                None \<Rightarrow> None | Some x \<Rightarrow> map_option (apfst ((#) x)) (read_chars r)))
      else if byte c < 32 then None
      else map_option (apfst ((#) c)) (read_chars cs))"

fun read_string :: "string \<Rightarrow> (string \<times> string) option" where
  "read_string (c # cs) = (if c = CHR 34 then read_chars cs else None)"
| "read_string [] = None"

text \<open>Fuel: every call gets past at least one character, so one more than the length of the text is enough.\<close>

fun read_value :: "nat \<Rightarrow> string \<Rightarrow> (json \<times> string) option"
and read_members :: "nat \<Rightarrow> string \<Rightarrow> ((string \<times> json) list \<times> string) option" where
  "read_value 0 s = None"
| "read_value (Suc n) s =
     (if take 4 s = ''null'' then Some (JNull, drop 4 s)
      else if take 2 s = ''{}'' then Some (JObject [], drop 2 s)
      else if take 1 s = ''{'' then map_option (apfst (\<lambda>kvs. JObject (dict kvs))) (read_members n (drop 1 s))
      else map_option (apfst JString) (read_string s))"
| "read_members 0 s = None"
| "read_members (Suc n) s = (case read_string s of
     None \<Rightarrow> None
   | Some (k, s1) \<Rightarrow>
       if take 1 s1 \<noteq> '':'' then None
       else (case read_value n (drop 1 s1) of
         None \<Rightarrow> None
       | Some (v, s2) \<Rightarrow>
           if take 1 s2 = ''}'' then Some ([(k, v)], drop 1 s2)
           else if take 1 s2 = '','' then map_option (apfst ((#) (k, v))) (read_members n (drop 1 s2))
           else None))"

definition json_loads :: "string \<Rightarrow> json option" where
  "json_loads s = (case read_value (Suc (length s)) s of
     None \<Rightarrow> None | Some (v, rest) \<Rightarrow> if rest = [] then Some v else None)"

section \<open>The round trip\<close>

lemma unhex_hex_digit: "n < 16 \<Longrightarrow> unhex (hex_digit n) = Some n"
  by (auto simp: unhex_def hex_digit_def Let_def)

lemma code_point_hex: "code_point (CHR ''0'') (CHR ''0'') (hex_digit (byte c div 16)) (hex_digit (byte c mod 16)) =
    (if byte c < 128 then Some c else None)"
proof -
  have digits: "byte c div 16 < 16" "byte c mod 16 < 16"
    using nat_of_char_less_256 [of c] by (simp_all add: less_mult_imp_div_less)
  moreover have "unhex (CHR ''0'') = Some 0" by (simp add: unhex_def)
  ultimately show ?thesis
    by (simp add: code_point_def unhex_hex_digit Let_def)
qed

lemma read_char: "read_chars (json_char c @ rest) = map_option (apfst ((#) c)) (read_chars rest)"
proof -
  have "byte c < 128" if "byte c < 32 \<or> c \<in> set ''<>&''" using that by auto
  then have escaped: "code_point (CHR ''0'') (CHR ''0'') (hex_digit (byte c div 16)) (hex_digit (byte c mod 16)) = Some c"
    if "byte c < 32 \<or> c \<in> set ''<>&''" using that by (simp only: code_point_hex if_True)
  have "c \<in> {CHR 34, CHR 92, CHR 10, CHR 13, CHR 9, CHR 8, CHR 12} \<or>
     (c \<notin> {CHR 34, CHR 92, CHR 10, CHR 13, CHR 9, CHR 8, CHR 12} \<and> (byte c < 32 \<or> c \<in> set ''<>&'')) \<or>
     (c \<notin> {CHR 34, CHR 92, CHR 10, CHR 13, CHR 9, CHR 8, CHR 12} \<and> \<not> (byte c < 32 \<or> c \<in> set ''<>&''))" by blast
  then show ?thesis
  proof (elim disjE)
    assume "c \<in> {CHR 34, CHR 92, CHR 10, CHR 13, CHR 9, CHR 8, CHR 12}"
    then show ?thesis by (auto simp: unescape_def)
  next
    assume "c \<notin> {CHR 34, CHR 92, CHR 10, CHR 13, CHR 9, CHR 8, CHR 12} \<and> (byte c < 32 \<or> c \<in> set ''<>&'')"
    then show ?thesis by (simp add: escaped del: set_simps)
  qed simp
qed

lemma read_string: "read_string (json_string s @ rest) = Some (s, rest)"
proof -
  have "read_chars (concat (map json_char s) @ CHR 34 # rest) = Some (s, rest)"
    by (induction s) (simp_all add: read_char del: json_char.simps)
  then show ?thesis by (simp add: json_string_def)
qed

text \<open>A text that starts with a quote is not one of the others.\<close>

lemma starts [simp]:
  "take 4 (json_string s @ rest) \<noteq> ''null''" "take 2 (json_string s @ rest) \<noteq> ''{}''"
  "take 1 (json_string s @ rest) \<noteq> ''{''" "json_string s \<noteq> []"
  by (simp_all add: json_string_def)

lemma members_start:
  "kvs \<noteq> [] \<Longrightarrow> \<exists>t. json_members kvs = CHR 34 # t"
  by (cases kvs rule: json_members.cases) (auto simp: json_string_def)

text \<open>Every object of a value has distinct keys, as Go's maps have.\<close>

primrec json_distinct :: "json \<Rightarrow> bool" where
  "json_distinct JNull = True"
| "json_distinct (JString s) = True"
| "json_distinct (JObject kvs) = (distinct (map fst kvs) \<and> list_all snd (map (map_prod id json_distinct) kvs))"

lemma dict_distinct: "distinct (map fst kvs) \<Longrightarrow> dict kvs = kvs"
proof -
  have "distinct (map fst (acc @ kvs)) \<Longrightarrow> fold (\<lambda>(k, v). AList.update k v) kvs acc = acc @ kvs" for acc
  proof (induction kvs arbitrary: acc)
    case (Cons p kvs)
    obtain k v where p: "p = (k, v)" by (cases p)
    with Cons.prems have "k \<notin> fst ` set acc" by auto
    then have "AList.update k v acc = acc @ [p]"
      unfolding p by (induction acc) auto
    with Cons show ?case by (simp add: p)
  qed simp
  then show "distinct (map fst kvs) \<Longrightarrow> dict kvs = kvs" by (simp add: dict_def)
qed

lemma read_text:
  "json_distinct v \<Longrightarrow> length (json_text v) < n \<Longrightarrow> read_value n (json_text v @ rest) = Some (v, rest)"
  "\<forall>p \<in> set kvs. json_distinct (snd p) \<Longrightarrow> kvs \<noteq> [] \<Longrightarrow>
     length (json_members (map (map_prod id json_text) kvs)) < n \<Longrightarrow>
     read_members n (json_members (map (map_prod id json_text) kvs) @ ''}'' @ rest) = Some (kvs, rest)"
proof (induction n arbitrary: v kvs rest)
  case (Suc n)
  {
    case 1
    show ?case
    proof (cases v)
      case (JObject kvs)
      show ?thesis
      proof (cases "kvs = []")
        case False
        with members_start [of "map (map_prod id json_text) kvs"]
        have "take 4 (json_text v @ rest) \<noteq> ''null''" "take 2 (json_text v @ rest) \<noteq> ''{}''" by (auto simp: JObject)
        moreover have "read_members n (json_members (map (map_prod id json_text) kvs) @ ''}'' @ rest) = Some (kvs, rest)"
          by (rule Suc.IH(2)) (use 1 False in \<open>auto simp: JObject list_all_iff id_def\<close>)
        moreover have "dict kvs = kvs" using 1 by (simp add: JObject dict_distinct)
        ultimately show ?thesis by (simp add: JObject)
      qed (simp add: JObject dict_def)
    next
      case (JString t)
      with read_string [of t rest] show ?thesis by (simp add: json_string_def)
    qed simp
  next
    case 2
    then show ?case
    proof (cases kvs)
      case (Cons p ps)
      obtain k v where p: "p = (k, v)" by (cases p)
      show ?thesis
      proof (cases ps)
        case Nil
        then show ?thesis
          using 2 Suc.IH(1) [of v "''}'' @ rest"]
          by (simp add: Cons p read_string)
      next
        case (Cons q qs)
        have "json_members (map (map_prod id json_text) kvs) =
            json_string k @ '':'' @ json_text v @ '','' @ json_members (map (map_prod id json_text) ps)"
          by (simp add: \<open>kvs = p # ps\<close> Cons p)
        moreover from this 2 have "read_value n (json_text v @ '','' @ json_members (map (map_prod id json_text) ps) @ ''}'' @ rest) =
            Some (v, '','' @ json_members (map (map_prod id json_text) ps) @ ''}'' @ rest)"
          by (intro Suc.IH(1)) (auto simp: \<open>kvs = p # ps\<close> p id_def)
        moreover from calculation(1) 2 have "read_members n (json_members (map (map_prod id json_text) ps) @ ''}'' @ rest) = Some (ps, rest)"
          by (intro Suc.IH(2)) (auto simp: \<open>kvs = p # ps\<close> Cons id_def)
        ultimately show ?thesis by (simp add: read_string \<open>kvs = p # ps\<close> p id_def)
      qed
    qed simp
  }
qed simp_all

lemma json_loads_text: "json_distinct v \<Longrightarrow> json_loads (json_text v) = Some v"
  using read_text(1) [of v "Suc (length (json_text v))" "[]"] by (simp add: json_loads_def)

end
