(* ===== verification/Populate_Secrets.thy ===== *)
theory Populate_Secrets
  imports Python_Json Instance_Secrets
begin

text \<open>
  \<open>internal/controller/cloudinit/populate_secrets.py\<close>, the script the cloud-init document carries to the
  instance: it reads what the operator stored in Secret Manager and writes a file for each key of each
  secret. The answer of Secret Manager is an argument; a Python exception ends the script, and the
  files written before it stay. Files opened as text are taken to be written as UTF-8, and opening a file to
  succeed for every key, which leaves out keys such as the empty one that the API server does not admit.
\<close>

section \<open>Python's str: UTF-8\<close>

abbreviation continuation :: "char \<Rightarrow> bool" where
  "continuation c \<equiv> 128 \<le> byte c \<and> byte c < 192"

text \<open>Whether \<open>bytes.decode()\<close> accepts the bytes; written back, the text has the same bytes.\<close>

fun utf8 :: "string \<Rightarrow> bool" where
  "utf8 [] = True"
| "utf8 (a # cs) =
     (if byte a < 128 then utf8 cs
      else if 194 \<le> byte a \<and> byte a < 224 then
        (case cs of b # r \<Rightarrow> continuation b \<and> utf8 r | _ \<Rightarrow> False)
      else if 224 \<le> byte a \<and> byte a < 240 then
        (case cs of b # c # r \<Rightarrow> continuation b \<and> continuation c \<and> (byte a = 224 \<longrightarrow> 160 \<le> byte b) \<and>
           (byte a = 237 \<longrightarrow> byte b < 160) \<and> utf8 r | _ \<Rightarrow> False)
      else if 240 \<le> byte a \<and> byte a < 245 then
        (case cs of b # c # e # r \<Rightarrow> continuation b \<and> continuation c \<and> continuation e \<and>
           (byte a = 240 \<longrightarrow> 144 \<le> byte b) \<and> (byte a = 244 \<longrightarrow> byte b < 144) \<and> utf8 r | _ \<Rightarrow> False)
      else False)"

definition ascii :: "string \<Rightarrow> bool" where
  "ascii s \<longleftrightarrow> (\<forall>c \<in> set s. byte c < 128)"

lemma ascii_utf8: "ascii s \<Longrightarrow> utf8 s"
  unfolding ascii_def by (induction s) auto

section \<open>The script\<close>

datatype py_error = BinasciiError | UnicodeDecodeError | JSONDecodeError | AttributeError | TypeError | FileNotFoundError

text \<open>The file system below \<open>/etc/secrets/content\<close>.\<close>

record files =
  fs_dirs :: "string set"
  fs_files :: "string \<rightharpoonup> string"

definition secret_dir :: "string \<Rightarrow> string" where
  "secret_dir n = ''/etc/secrets/content/'' @ n"

definition secret_file :: "string \<Rightarrow> string \<Rightarrow> string" where
  "secret_file n k = secret_dir n @ ''/'' @ k"

text \<open>\<open>base64.b64decode(child_value).decode()\<close>, on text of the alphabet Go writes.\<close>

definition decode_text :: "string \<Rightarrow> py_error + string" where
  "decode_text s = (case base64_decode s of
     None \<Rightarrow> Inl BinasciiError
   | Some b \<Rightarrow> if utf8 b then Inr b else Inl UnicodeDecodeError)"

definition decode_value :: "json \<Rightarrow> py_error + string" where
  "decode_value v = (case v of JString s \<Rightarrow> decode_text s | _ \<Rightarrow> Inl TypeError)"

text \<open>\<open>open\<close> and \<open>write\<close>: the directory must be there.\<close>

definition write_file :: "string \<Rightarrow> string \<Rightarrow> string \<Rightarrow> files \<Rightarrow> py_error option \<times> files" where
  "write_file n k b f =
     (if secret_dir n \<in> fs_dirs f then (None, f\<lparr>fs_files := (fs_files f)(secret_file n k \<mapsto> b)\<rparr>)
      else (Some FileNotFoundError, f))"

text \<open>The inner loop, over the keys of one secret.\<close>

fun write_keys :: "string \<Rightarrow> (string \<times> json) list \<Rightarrow> files \<Rightarrow> py_error option \<times> files" where
  "write_keys n [] f = (None, f)"
| "write_keys n ((k, v) # kvs) f = (case decode_value v of
     Inl e \<Rightarrow> (Some e, f)
   | Inr b \<Rightarrow> (case write_file n k b f of
       (Some e, f') \<Rightarrow> (Some e, f') | (None, f') \<Rightarrow> write_keys n kvs f'))"

text \<open>The outer loop: \<open>os.makedirs\<close>, and \<open>items()\<close> of the nested value, which is an error on a value that is not a dictionary.\<close>

fun write_secrets :: "(string \<times> json) list \<Rightarrow> files \<Rightarrow> py_error option \<times> files" where
  "write_secrets [] f = (None, f)"
| "write_secrets ((n, v) # rest) f =
     (let f1 = f\<lparr>fs_dirs := insert (secret_dir n) (fs_dirs f)\<rparr> in
      case v of
        JObject kvs \<Rightarrow> (case write_keys n kvs f1 of
            (Some e, f2) \<Rightarrow> (Some e, f2) | (None, f2) \<Rightarrow> write_secrets rest f2)
      | _ \<Rightarrow> (Some AttributeError, f1))"

text \<open>\<open>main\<close> from the payload on, whose data may be missing: then it only prints a message.\<close>

definition populate_secrets :: "string option \<Rightarrow> files \<Rightarrow> py_error option \<times> files" where
  "populate_secrets payload f = (case payload of
     None \<Rightarrow> (None, f)
   | Some s \<Rightarrow>
       if s = [] then (None, f)
       else (case decode_text s of
         Inl e \<Rightarrow> (Some e, f)
       | Inr t \<Rightarrow> (case json_loads t of
           None \<Rightarrow> (Some JSONDecodeError, f)
         | Some (JObject kvs) \<Rightarrow> write_secrets kvs f
         | Some _ \<Rightarrow> (Some AttributeError, f))))"

section \<open>What it finds\<close>

text \<open>The JSON value of the collected secrets.\<close>

definition data_value :: "(string \<times> string) list option \<Rightarrow> json" where
  "data_value m = (case m of None \<Rightarrow> JNull
     | Some kvs \<Rightarrow> JObject (map (\<lambda>(k, b). (k, JString (base64_encode b))) (sort_key fst kvs)))"

definition secrets_value :: "secret_data \<Rightarrow> json" where
  "secrets_value m = JObject (map (\<lambda>(n, data). (n, data_value data)) (sort_key fst m))"

text \<open>Names as Kubernetes has them: ASCII, without a slash, and keys that are distinct in Go's maps.\<close>

definition names_ok :: "secret_data \<Rightarrow> bool" where
  "names_ok m \<longleftrightarrow> (\<forall>(n, data) \<in> set m. ascii n \<and> CHR ''/'' \<notin> set n \<and>
     (case data of None \<Rightarrow> True | Some kvs \<Rightarrow> distinct (map fst kvs) \<and> (\<forall>(k, b) \<in> set kvs. ascii k)))"

lemma sort_key_map: "sort_key fst (map (\<lambda>(k, b). (k, g k b)) xs) = map (\<lambda>(k, b). (k, g k b)) (sort_key fst xs)"
proof -
  have "map fst (insort_key fst (k, g k b) (map (\<lambda>(k, b). (k, g k b)) ys)) = map fst (insort_key fst (k, b) ys)"
    "insort_key fst (k, g k b) (map (\<lambda>(k, b). (k, g k b)) ys) = map (\<lambda>(k, b). (k, g k b)) (insort_key fst (k, b) ys)" for k b ys
    by (induction ys) auto
  then show ?thesis by (induction xs) auto
qed

lemma json_data_text: "json_data m = json_text (data_value m)"
  by (cases m) (simp_all add: json_data_def data_value_def json_object_def json_bytes_def sort_key_map,
    simp add: comp_def split_def)

lemma json_secrets_text: "json_secrets m = json_text (secrets_value m)"
  by (simp add: json_secrets_def secrets_value_def json_object_def sort_key_map json_data_text)
    (simp add: comp_def split_def)

lemma distinct_sort_key [simp]: "distinct (map fst (sort_key fst xs)) \<longleftrightarrow> distinct (map fst xs)"
  by (simp add: distinct_map)

lemma names_ok_sort [simp]: "names_ok (sort_key fst m) = names_ok m"
  by (simp add: names_ok_def)

lemma distinct_secrets_value:
  assumes "distinct (map fst m)" and "names_ok m" shows "json_distinct (secrets_value m)"
proof -
  have "json_distinct (data_value data)" if "(n, data) \<in> set m" for n data
  proof (cases data)
    case (Some kvs)
    with assms(2) that have "distinct (map fst (sort_key fst kvs))" by (auto simp: names_ok_def)
    then show ?thesis by (auto simp: data_value_def Some list_all_iff comp_def split_def)
  qed (simp add: data_value_def)
  moreover have "distinct (map fst (sort_key fst m))" using assms(1) by simp
  ultimately show ?thesis by (auto simp: secrets_value_def list_all_iff comp_def split_def)
qed

text \<open>The text of the collected secrets is ASCII.\<close>

lemma ascii_simps [simp]: "ascii []" "ascii (c # s) \<longleftrightarrow> byte c < 128 \<and> ascii s" "ascii (s @ t) \<longleftrightarrow> ascii s \<and> ascii t"
  by (auto simp: ascii_def)

lemma ascii_hex: "n < 16 \<Longrightarrow> byte (hex_digit n) < 128"
  by (auto simp: hex_digit_def)

lemma ascii_json_char: "byte c < 128 \<Longrightarrow> ascii (json_char c)"
  by (simp add: ascii_hex)

lemma ascii_json_string: "ascii s \<Longrightarrow> ascii (json_string s)"
  unfolding json_string_def by (induction s) (simp_all add: ascii_json_char del: json_char.simps)

lemma ascii_sextet: "n < 64 \<Longrightarrow> byte (sextet n) < 128"
  by (auto simp: sextet_def)

lemma ascii_base64: "ascii (base64_encode s)"
  by (induction s rule: base64_encode.induct) (simp_all add: ascii_sextet)

lemma ascii_members: "\<forall>(k, v) \<in> set kvs. ascii k \<and> ascii v \<Longrightarrow> ascii (json_members kvs)"
  by (induction kvs rule: json_members.induct) (simp_all add: ascii_json_string)

lemma ascii_secrets:
  assumes "names_ok m" shows "ascii (json_secrets m)"
proof -
  have "ascii (json_data data)" if "(n, data) \<in> set m" for n data
  proof (cases data)
    case (Some kvs)
    with assms that have "\<forall>(k, b) \<in> set kvs. ascii k" by (fastforce simp: names_ok_def)
    then show ?thesis
      by (auto simp: Some json_data_def json_object_def json_bytes_def ascii_base64 ascii_json_string intro!: ascii_members)
  qed (simp add: json_data_def)
  with assms show ?thesis
    by (auto simp: json_secrets_def json_object_def names_ok_def intro!: ascii_members)
qed

lemma populate_secrets_run:
  assumes "distinct (map fst m)" and "names_ok m"
  shows "populate_secrets (Some (base64_encode (json_secrets m))) f =
    write_secrets (map (\<lambda>(n, data). (n, data_value data)) (sort_key fst m)) f"
proof -
  have "json_secrets m \<noteq> []" by (simp add: json_secrets_def json_object_def)
  then have "base64_encode (json_secrets m) \<noteq> []" by (metis base64_encode.simps(1) base64_encode_inject)
  moreover have "json_loads (json_secrets m) = Some (secrets_value m)"
    unfolding json_secrets_text by (rule json_loads_text) (rule distinct_secrets_value [OF assms])
  moreover have "utf8 (json_secrets m)" by (rule ascii_utf8) (rule ascii_secrets [OF assms(2)])
  ultimately show ?thesis
    by (simp add: populate_secrets_def decode_text_def base64_decode_encode secrets_value_def)
qed

section \<open>What it writes\<close>

text \<open>The files of one secret and of all, in the order they are written.\<close>

definition files_of :: "string \<Rightarrow> (string \<times> string) list \<Rightarrow> (string \<times> string) list" where
  "files_of n kvs = map (\<lambda>(k, b). (secret_file n k, b)) (sort_key fst kvs)"

definition all_files :: "secret_data \<Rightarrow> (string \<times> string) list" where
  "all_files m = concat (map (\<lambda>(n, data). files_of n (case data of None \<Rightarrow> [] | Some kvs \<Rightarrow> kvs)) m)"

definition put_files :: "(string \<times> string) list \<Rightarrow> (string \<rightharpoonup> string) \<Rightarrow> (string \<rightharpoonup> string)" where
  "put_files = fold (\<lambda>(p, b) m. m(p \<mapsto> b))"

lemma put_files_append [simp]: "put_files (xs @ ys) m = put_files ys (put_files xs m)"
  by (simp add: put_files_def)

lemma put_files_other: "p \<notin> fst ` set xs \<Longrightarrow> put_files xs m p = m p"
  unfolding put_files_def by (induction xs arbitrary: m) (auto simp: split_def)

lemma put_files_in: "distinct (map fst xs) \<Longrightarrow> (p, b) \<in> set xs \<Longrightarrow> put_files xs m p = Some b"
proof (induction xs arbitrary: m)
  case (Cons x xs)
  then show ?case
    using put_files_other [of p xs] by (cases x) (force simp: put_files_def)
qed simp

lemma secret_file_inject:
  assumes "secret_file n k = secret_file n' k'" and "CHR ''/'' \<notin> set n" and "CHR ''/'' \<notin> set n'"
  shows "n = n' \<and> k = k'"
proof -
  have first: "takeWhile (\<lambda>c. c \<noteq> CHR ''/'') (n @ CHR ''/'' # k) = n" if "CHR ''/'' \<notin> set n" for n k :: string
    using that by (subst takeWhile_append2) auto
  have "n @ CHR ''/'' # k = n' @ CHR ''/'' # k'" using assms(1) by (simp add: secret_file_def secret_dir_def)
  then show ?thesis using first [OF assms(2)] first [OF assms(3)] by (metis append_eq_append_conv list.inject)
qed

text \<open>A secret the script can write: it has data, and all of it is text.\<close>

definition readable :: "(string \<times> string) list option \<Rightarrow> bool" where
  "readable data \<longleftrightarrow> (case data of None \<Rightarrow> False | Some kvs \<Rightarrow> \<forall>(k, b) \<in> set kvs. utf8 b)"

lemma write_keys_text:
  assumes "secret_dir n \<in> fs_dirs f" and "\<forall>(k, b) \<in> set kvs. utf8 b"
  shows "write_keys n (map (\<lambda>(k, b). (k, JString (base64_encode b))) kvs) f =
    (None, f\<lparr>fs_files := put_files (map (\<lambda>(k, b). (secret_file n k, b)) kvs) (fs_files f)\<rparr>)"
  using assms
proof (induction kvs arbitrary: f)
  case (Cons p kvs)
  then show ?case
    by (cases p) (simp add: decode_value_def decode_text_def base64_decode_encode write_file_def put_files_def)
qed (simp add: put_files_def)

lemma write_secrets_readable:
  assumes "\<forall>(n, data) \<in> set ms. readable data"
  shows "\<exists>D. write_secrets (map (\<lambda>(n, data). (n, data_value data)) ms @ rest) f =
    write_secrets rest \<lparr>fs_dirs = D, fs_files = put_files (all_files ms) (fs_files f)\<rparr>"
  using assms
proof (induction ms arbitrary: f)
  case Nil
  show ?case by (intro exI [of _ "fs_dirs f"]) (cases f, simp add: all_files_def put_files_def)
next
  case (Cons p ms)
  obtain n data where p: "p = (n, data)" by (cases p)
  with Cons.prems obtain kvs where data: "data = Some kvs" "\<forall>(k, b) \<in> set kvs. utf8 b"
    by (auto simp: readable_def split: option.splits)
  let ?f = "\<lparr>fs_dirs = insert (secret_dir n) (fs_dirs f), fs_files = put_files (files_of n kvs) (fs_files f)\<rparr>"
  have "write_secrets (map (\<lambda>(n, data). (n, data_value data)) (p # ms) @ rest) f =
      write_secrets (map (\<lambda>(n, data). (n, data_value data)) ms @ rest) ?f"
    using write_keys_text [of n "f\<lparr>fs_dirs := insert (secret_dir n) (fs_dirs f)\<rparr>" "sort_key fst kvs"] data(2)
    by (cases f) (simp add: p data(1) data_value_def files_of_def Let_def)
  with Cons.IH [of ?f] Cons.prems show ?case by (auto simp: p data(1) all_files_def)
qed

lemma write_keys_stops:
  assumes "secret_dir n \<in> fs_dirs f" and "\<not> (\<forall>(k, b) \<in> set kvs. utf8 b)"
  shows "\<exists>fs. write_keys n (map (\<lambda>(k, b). (k, JString (base64_encode b))) kvs) f =
    (Some UnicodeDecodeError, f\<lparr>fs_files := fs\<rparr>) \<and> (\<forall>p. p \<notin> range (secret_file n) \<longrightarrow> fs p = fs_files f p)"
  using assms
proof (induction kvs arbitrary: f)
  case (Cons p kvs)
  obtain k b where p: "p = (k, b)" by (cases p)
  show ?case
  proof (cases "utf8 b")
    case True
    let ?f = "f\<lparr>fs_files := (fs_files f)(secret_file n k \<mapsto> b)\<rparr>"
    from Cons.prems True have "secret_dir n \<in> fs_dirs ?f" "\<not> (\<forall>(k, b) \<in> set kvs. utf8 b)" by (auto simp: p)
    from Cons.IH [OF this] obtain fs where
      fs: "write_keys n (map (\<lambda>(k, b). (k, JString (base64_encode b))) kvs) ?f =
        (Some UnicodeDecodeError, f\<lparr>fs_files := fs\<rparr>)" "\<forall>p. p \<notin> range (secret_file n) \<longrightarrow> fs p = fs_files ?f p"
      by auto
    have "write_keys n (map (\<lambda>(k, b). (k, JString (base64_encode b))) (p # kvs)) f = (Some UnicodeDecodeError, f\<lparr>fs_files := fs\<rparr>)"
      using Cons.prems(1) True fs(1) by (simp add: p decode_value_def decode_text_def base64_decode_encode write_file_def)
    moreover have "\<forall>p. p \<notin> range (secret_file n) \<longrightarrow> fs p = fs_files f p" using fs(2) by auto
    ultimately show ?thesis by blast
  next
    case False
    then show ?thesis
      by (intro exI [of _ "fs_files f"]) (simp add: p decode_value_def decode_text_def base64_decode_encode)
  qed
qed simp

lemma distinct_all_files:
  assumes "distinct (map fst ms)" and "names_ok ms"
  shows "distinct (map fst (all_files ms)) \<and> (\<forall>n. n \<notin> fst ` set ms \<and> CHR ''/'' \<notin> set n \<longrightarrow>
    fst ` set (all_files ms) \<inter> range (secret_file n) = {})"
  using assms
proof (induction ms)
  case (Cons p ms)
  obtain n data where p: "p = (n, data)" by (cases p)
  let ?kvs = "case data of None \<Rightarrow> [] | Some kvs \<Rightarrow> kvs"
  have n: "CHR ''/'' \<notin> set n" and ms: "names_ok ms" and kvs: "distinct (map fst ?kvs)"
    using Cons.prems(2) by (auto simp: p names_ok_def split: option.splits)
  have IH: "distinct (map fst (all_files ms))"
    "\<And>n. n \<notin> fst ` set ms \<Longrightarrow> CHR ''/'' \<notin> set n \<Longrightarrow> fst ` set (all_files ms) \<inter> range (secret_file n) = {}"
    using Cons.IH ms Cons.prems(1) by auto
  have own: "fst ` set (files_of n ?kvs) \<subseteq> range (secret_file n)" by (auto simp: files_of_def)
  have "map fst (files_of n ?kvs) = map (secret_file n) (map fst (sort_key fst ?kvs))"
    by (simp add: files_of_def comp_def split_def)
  moreover have "inj (secret_file n)" by (rule injI) (use secret_file_inject n in blast)
  ultimately have "distinct (map fst (files_of n ?kvs))"
    using kvs by (simp add: distinct_map inj_on_subset [OF _ subset_UNIV] del: map_map)
  moreover have "n \<notin> fst ` set ms" using Cons.prems(1) by (simp add: p)
  ultimately have own_distinct: "distinct (map fst (files_of n ?kvs))" and apart: "fst ` set (all_files ms) \<inter> range (secret_file n) = {}"
    using IH(2) [OF _ n] by blast+
  have split: "all_files (p # ms) = files_of n ?kvs @ all_files ms" by (simp add: all_files_def p)
  have "fst ` set (files_of n ?kvs) \<inter> fst ` set (all_files ms) = {}" using apart own by blast
  then have "distinct (map fst (all_files (p # ms)))"
    unfolding split map_append distinct_append set_map using own_distinct IH(1) by blast
  moreover have "fst ` set (all_files (p # ms)) \<inter> range (secret_file n') = {}"
    if "n' \<notin> fst ` set (p # ms)" "CHR ''/'' \<notin> set n'" for n'
  proof -
    have "range (secret_file n) \<inter> range (secret_file n') = {}"
      using secret_file_inject [OF _ n that(2)] that(1) by (auto simp: p)
    moreover have "fst ` set (all_files ms) \<inter> range (secret_file n') = {}" by (rule IH(2)) (use that in auto)
    ultimately show ?thesis unfolding split set_append image_Un using own by blast
  qed
  ultimately show ?case by blast
qed (simp add: all_files_def)

section \<open>From the tenant's secrets to the files\<close>

text \<open>The secrets are collected in a map: one entry for each name.\<close>

lemma collected_distinct:
  assumes "collect_secrets c keys w = (Ok m, w')" shows "distinct (map fst m)"
  by (rule forA_invariant [where I = "\<lambda>m. distinct (map fst m)", OF assms [unfolded collect_secrets_def]])
    (auto simp: apply_simps distinct_update elim!: bindA_OkE)

text \<open>
  C6: The secrets that an instance mounts reach it unchanged, as the operator collected them. What it collected,
  marshalled to JSON and handed to Secret Manager, the script on the instance writes back: where every secret has data and all of it is
  text, the script ends without an exception, each key of each secret is a file below the secret's directory
  with exactly the bytes collected, and no other file is touched.
\<close>

theorem secrets_arrive:
  assumes "collect_secrets c keys w = (Ok m, w')" and "names_ok m" and "\<forall>(n, data) \<in> set m. readable data"
  shows "\<exists>f'. populate_secrets (Some (base64_encode (json_secrets m))) f = (None, f') \<and>
    (\<forall>n kvs k b. (n, Some kvs) \<in> set m \<and> (k, b) \<in> set kvs \<longrightarrow> fs_files f' (secret_file n k) = Some b) \<and>
    (\<forall>p. (\<forall>n kvs k b. (n, Some kvs) \<in> set m \<and> (k, b) \<in> set kvs \<longrightarrow> p \<noteq> secret_file n k) \<longrightarrow>
      fs_files f' p = fs_files f p)"
proof -
  let ?ms = "sort_key fst m"
  have distinct: "distinct (map fst m)" by (rule collected_distinct [OF assms(1)])
  have "\<forall>(n, data) \<in> set ?ms. readable data" using assms(3) by simp
  from write_secrets_readable [OF this, of "[]" f] obtain D where
    run: "populate_secrets (Some (base64_encode (json_secrets m))) f =
      (None, \<lparr>fs_dirs = D, fs_files = put_files (all_files ?ms) (fs_files f)\<rparr>)"
    unfolding populate_secrets_run [OF distinct assms(2)] by auto
  have files: "(p, b) \<in> set (all_files ?ms) \<longleftrightarrow> (\<exists>n kvs k. (n, Some kvs) \<in> set m \<and> (k, b) \<in> set kvs \<and> p = secret_file n k)" for p b
    by (force simp: all_files_def files_of_def split: option.splits)
  have "distinct (map fst ?ms)" "names_ok ?ms" using distinct assms(2) by simp_all
  then have "distinct (map fst (all_files ?ms))" using distinct_all_files by blast
  then have "put_files (all_files ?ms) (fs_files f) (secret_file n k) = Some b"
    if "(n, Some kvs) \<in> set m" "(k, b) \<in> set kvs" for n kvs k b
    by (rule put_files_in) (use files that in blast)
  moreover have "put_files (all_files ?ms) (fs_files f) p = fs_files f p"
    if "\<forall>n kvs k b. (n, Some kvs) \<in> set m \<and> (k, b) \<in> set kvs \<longrightarrow> p \<noteq> secret_file n k" for p
    by (rule put_files_other) (use files that in fastforce)
  ultimately show ?thesis unfolding run by (intro exI conjI) (rule refl, auto)
qed

definition ref_secret_store :: store where
  "ref_secret_store = [(tenant, live ''ns'' ''db'' ''s1'' (BSecret (Some [(''password'', ''hunter2''), (''user'', ''root'')]))),
     (tenant, live ''ns'' ''api'' ''s2'' (BSecret (Some [(''token'', ''t'')])))]"

definition ref_collected :: "secret_data res \<times> store world" where
  "ref_collected = collect_secrets (upstream ref_deps ''c'') [key_of ''ns'' ''db'', key_of ''ns'' ''api''] (on ref_secret_store)"

definition no_files :: files where
  "no_files = \<lparr>fs_dirs = {}, fs_files = Map.empty\<rparr>"

theorem secrets_arrive_witness:
  "\<exists>m f'. fst ref_collected = Ok m \<and> populate_secrets (Some (base64_encode (json_secrets m))) no_files = (None, f') \<and>
     fs_files f' ''/etc/secrets/content/db/password'' = Some ''hunter2''"
proof -
  let ?m = "[(''db'', Some [(''password'', ''hunter2''), (''user'', ''root'')]), (''api'', Some [(''token'', ''t'')])]"
  have run: "case fst ref_collected of Ok m \<Rightarrow> m = ?m | _ \<Rightarrow> False" by code_simp
  obtain m where m: "fst ref_collected = Ok m" "m = ?m" by (rule res_okE [OF run])
  then have "collect_secrets (upstream ref_deps ''c'') [key_of ''ns'' ''db'', key_of ''ns'' ''api''] (on ref_secret_store) =
      (Ok m, snd ref_collected)"
    by (simp add: ref_collected_def prod_eq_iff)
  from secrets_arrive [OF this, of no_files] m(2) obtain f' where
    f': "populate_secrets (Some (base64_encode (json_secrets m))) no_files = (None, f')"
      "\<forall>n kvs k b. (n, Some kvs) \<in> set m \<and> (k, b) \<in> set kvs \<longrightarrow> fs_files f' (secret_file n k) = Some b"
    by (auto simp: names_ok_def readable_def)
  have "fs_files f' (secret_file ''db'' ''password'') = Some ''hunter2''"
    using f'(2) [rule_format, of "''db''" "[(''password'', ''hunter2''), (''user'', ''root'')]"] by (simp add: m(2))
  with f'(1) m(1) show ?thesis by (auto simp: secret_file_def secret_dir_def)
qed

text \<open>The files of the secrets up to one are none of those of a later one.\<close>

lemma later_untouched:
  assumes "distinct (map fst m)" and "names_ok m" and "sort_key fst m = before @ (n, data) # after"
    and "(n', data') \<in> set after"
  shows "put_files (all_files before) fs (secret_file n' k) = fs (secret_file n' k) \<and>
    secret_file n' k \<notin> range (secret_file n)"
proof
  have sorted: "distinct (map fst (before @ (n, data) # after))" "names_ok (before @ (n, data) # after)"
    using assms(1,2) distinct_sort_key [of m] names_ok_sort [of m] unfolding assms(3) by simp_all
  then have names: "distinct (map fst before)" "names_ok before" "CHR ''/'' \<notin> set n"
    by (auto simp: names_ok_def)
  have "n' \<in> fst ` set after" using assms(4) by (rule rev_image_eqI) simp
  then have n': "n' \<notin> fst ` set before" "n' \<noteq> n" using sorted(1) by auto
  have slash: "CHR ''/'' \<notin> set n'" using assms(4) sorted(2) by (auto simp: names_ok_def)
  from n'(1) have "fst ` set (all_files before) \<inter> range (secret_file n') = {}"
    using distinct_all_files [OF names(1,2)] slash by blast
  then show "put_files (all_files before) fs (secret_file n' k) = fs (secret_file n' k)"
    by (intro put_files_other) blast
  show "secret_file n' k \<notin> range (secret_file n)"
    using secret_file_inject [OF _ slash names(3)] n'(2) by blast
qed

text \<open>
  C34: One secret the script cannot write keeps the later ones from the instance. The script goes through the
  secrets in the order of their names; at the first one without data, or with data that is not UTF-8, it ends
  with an exception, and the files of all the secrets after it are as they were.
\<close>

theorem populate_stops:
  assumes "distinct (map fst m)" and "names_ok m" and "sort_key fst m = before @ (n, data) # after"
    and "\<forall>(n, data) \<in> set before. readable data" and "\<not> readable data"
  shows "\<exists>f'. populate_secrets (Some (base64_encode (json_secrets m))) f =
      (Some (if data = None then AttributeError else UnicodeDecodeError), f') \<and>
    (\<forall>(n', data') \<in> set after. \<forall>k. fs_files f' (secret_file n' k) = fs_files f (secret_file n' k))"
proof -
  let ?v = "\<lambda>(n, data). (n, data_value data)"
  from write_secrets_readable [OF assms(4), of "map ?v ((n, data) # after)" f] obtain D where
    run: "populate_secrets (Some (base64_encode (json_secrets m))) f =
      write_secrets (map ?v ((n, data) # after)) \<lparr>fs_dirs = D, fs_files = put_files (all_files before) (fs_files f)\<rparr>"
    unfolding populate_secrets_run [OF assms(1,2)] assms(3) by auto
  let ?f = "\<lparr>fs_dirs = insert (secret_dir n) D, fs_files = put_files (all_files before) (fs_files f)\<rparr>"
  have later: "fs_files ?f (secret_file n' k) = fs_files f (secret_file n' k) \<and> secret_file n' k \<notin> range (secret_file n)"
    if "(n', data') \<in> set after" for n' data' k
    using later_untouched [OF assms(1-3) that] by simp
  show ?thesis
  proof (cases data)
    case None
    have "populate_secrets (Some (base64_encode (json_secrets m))) f = (Some AttributeError, ?f)"
      unfolding run by (simp add: None data_value_def Let_def)
    with later show ?thesis by (auto simp: None)
  next
    case (Some kvs)
    with assms(5) have "\<not> (\<forall>(k, b) \<in> set (sort_key fst kvs). utf8 b)" by (simp add: readable_def)
    from write_keys_stops [OF _ this, of n ?f] obtain fs where
      fs: "write_keys n (map (\<lambda>(k, b). (k, JString (base64_encode b))) (sort_key fst kvs)) ?f =
        (Some UnicodeDecodeError, ?f\<lparr>fs_files := fs\<rparr>)" "\<forall>p. p \<notin> range (secret_file n) \<longrightarrow> fs p = fs_files ?f p"
      by auto
    have "populate_secrets (Some (base64_encode (json_secrets m))) f = (Some UnicodeDecodeError, ?f\<lparr>fs_files := fs\<rparr>)"
      unfolding run using fs(1) by (simp add: Some data_value_def Let_def)
    with later fs(2) show ?thesis by (auto simp: Some)
  qed
qed

theorem populate_stops_witness:
  "\<exists>f'. populate_secrets (Some (base64_encode (json_secrets
     [(''api'', None), (''db'', Some [(''password'', ''hunter2'')])]))) no_files = (Some AttributeError, f') \<and>
     fs_files f' ''/etc/secrets/content/db/password'' = None"
proof -
  let ?m = "[(''api'', None), (''db'', Some [(''password'', ''hunter2'')])]"
  have "sort_key fst ?m = [] @ (''api'', None) # [(''db'', Some [(''password'', ''hunter2'')])]" by code_simp
  from populate_stops [OF _ _ this, of no_files] obtain f' where
    "populate_secrets (Some (base64_encode (json_secrets ?m))) no_files = (Some AttributeError, f')"
    "fs_files f' (secret_file ''db'' ''password'') = fs_files no_files (secret_file ''db'' ''password'')"
    by (auto simp: names_ok_def readable_def)
  then show ?thesis by (auto simp: no_files_def secret_file_def secret_dir_def)
qed

end
