(* ===== verification/Conversation.thy ===== *)
theory Conversation
  imports Release
begin

text \<open>
  What the reconcilers of workloads and networks ask of the API servers, to the letter: which request comes
  after which, under which name, and which error is returned where an answer stops them. The specification is
  an agenda, a list of requests computed from the object read and the answers received; it uses none of the
  reconcilers' functions.
\<close>

section \<open>Requests and their answers\<close>

datatype ask =
    AskGet side kind objkey
  | AskList side kind list_opts
  | AskCreate side obj
  | AskUpdate side obj
  | AskStatusUpdate side obj
  | AskPatch side obj obj
  | AskDelete side kind objkey

fun asked :: "event \<Rightarrow> ask" where
  "asked (EGet s k key a) = AskGet s k key" | "asked (EList s k opts a) = AskList s k opts"
| "asked (ECreate s x a) = AskCreate s x" | "asked (EUpdate s x a) = AskUpdate s x"
| "asked (EStatusUpdate s x a) = AskStatusUpdate s x" | "asked (EPatch s x y a) = AskPatch s x y"
| "asked (EDelete s k key a) = AskDelete s k key"

text \<open>The namespaces, the anchors and the firewalls that the answers hold.\<close>

fun namespaces_in :: "event \<Rightarrow> obj list" where
  "namespaces_in (EGet s k key (Inr n)) = (if k = KNamespace then [n] else [])" | "namespaces_in e = []"

fun anchors_in :: "event \<Rightarrow> obj list" where
  "anchors_in (EGet s k key (Inr a)) = (if k = KConfigMap then [a] else [])" | "anchors_in e = []"

fun rules_in :: "event \<Rightarrow> obj list" where
  "rules_in (EList s k opts (Inr fs)) = (if k = KFirewall then fs else [])" | "rules_in e = []"

definition all_of :: "(event \<Rightarrow> obj list) \<Rightarrow> event list \<Rightarrow> obj list" where
  "all_of f es = concat (map f es)"

lemma all_of_simps [simp]:
  "all_of f [] = []" "all_of f (e # es) = f e @ all_of f es" "all_of f (es @ es') = all_of f es @ all_of f es'"
  by (simp_all add: all_of_def)

section \<open>The agenda\<close>

definition downstream_namespace :: "event list \<Rightarrow> string" where
  "downstream_namespace es = (case all_of namespaces_in es of n # _ \<Rightarrow> ''ns-'' @ om_uid (md n) | [] \<Rightarrow> [])"

definition anchor_agenda :: "string \<Rightarrow> obj \<Rightarrow> event list \<Rightarrow> ask list" where
  "anchor_agenda c x es =
     (let anchor = key_of (downstream_namespace es) (''anchor-'' @ om_uid (md x)) in
      [AskGet (Upstream c) KNamespace (key_of [] (om_namespace (md x))), AskGet Downstream KConfigMap anchor] @
      (if all_of anchors_in es = [] then [] else [AskDelete Downstream KConfigMap anchor]))"

definition workload_agenda :: "'w deps \<Rightarrow> string \<Rightarrow> obj \<Rightarrow> event list \<Rightarrow> ask list" where
  "workload_agenda d c x es =
     (let uid = om_uid (md x); name = key_of [] (''workload-'' @ uid) in
      anchor_agenda c x es @
      [AskDelete Downstream KServiceAccount name, AskDelete Downstream KGcpSecret name,
       AskList Downstream KFirewall
         \<lparr>lo_namespace = None, lo_labels = [(k_workload_uid_label (d_consts d), uid)], lo_index = None\<rparr>] @
      map (\<lambda>f. AskDelete Downstream KFirewall (obj_key f)) (all_of rules_in es))"

definition network_agenda :: "obj \<Rightarrow> ask list" where
  "network_agenda x = [AskDelete Downstream KGcpNetwork (key_of [] (''network-'' @ om_uid (md x)))]"

definition with_finalizers :: "obj \<Rightarrow> string list \<Rightarrow> obj" where
  "with_finalizers x fs = x\<lparr>md := (md x)\<lparr>om_finalizers := fs\<rparr>\<rparr>"

definition agenda :: "'w deps \<Rightarrow> string \<Rightarrow> obj \<Rightarrow> event list \<Rightarrow> ask list" where
  "agenda d c x es = (let fs = om_finalizers (md x); f = ''compute.datumapis.com/infra-provider-gcp'' in
     case phase_of x of
       Unclaimed \<Rightarrow> [AskUpdate (Upstream c) (with_finalizers x (d_add_finalizer d fs f))]
     | Claimed \<Rightarrow> []
     | Doomed \<Rightarrow> (if obj_kind x = KWorkload then workload_agenda d c x es else network_agenda x) @
         [AskUpdate (Upstream c) (with_finalizers x (filter (\<lambda>g. g \<noteq> f) fs))]
     | Free \<Rightarrow> [])"

section \<open>The errors\<close>

text \<open>The error in an answer; an update whose answer is of another kind is an error of the client.\<close>

fun answer_error :: "event \<Rightarrow> goerr" where
  "answer_error (EGet s k key (Inl e)) = e" | "answer_error (EList s k opts (Inl e)) = e"
| "answer_error (EUpdate s x (Inl e)) = e" | "answer_error (EDelete s k key (Inl e)) = e"
| "answer_error e = DecodeError"

definition anchor_messages :: "ask \<Rightarrow> string list" where
  "anchor_messages q = (case q of
     AskGet s k key \<Rightarrow> if k = KNamespace
       then [''failed to get downstream object metadata'', ''failed to get downstream namespace name'',
             ''failed to get downstream namespace'', ''failed to get upstream namespace'']
       else [''failed listing configmaps'']
   | _ \<Rightarrow> [])"

definition messages :: "ask \<Rightarrow> string list" where
  "messages q = (case q of
     AskGet s k key \<Rightarrow> ''failed to delete anchor for workload'' # anchor_messages q
   | AskList s k opts \<Rightarrow> [''failed to list firewall rules'']
   | AskDelete s k key \<Rightarrow> (case k of
       KConfigMap \<Rightarrow> [''failed to delete anchor for workload'']
     | KServiceAccount \<Rightarrow> [''failed to delete service account'']
     | KGcpSecret \<Rightarrow> [''failed to delete secret'']
     | KFirewall \<Rightarrow> [''failed to delete firewall rule'']
     | KGcpNetwork \<Rightarrow> [''failed to delete downstream network'']
     | _ \<Rightarrow> [])
   | _ \<Rightarrow> [])"

definition complaint :: "event \<Rightarrow> goerr" where
  "complaint e = foldr Wrapped (messages (asked e)) (answer_error e)"

section \<open>Going through an agenda\<close>

text \<open>
  The requests of the agenda are made in order; where all answers are good the action returns, and the first bad
  one is the last request and makes the error.
\<close>

fun proceeds :: "'w deps \<Rightarrow> (event \<Rightarrow> goerr) \<Rightarrow> ask list \<Rightarrow> 'a res \<Rightarrow> event list \<Rightarrow> bool" where
  "proceeds d C ag (Ok x) es \<longleftrightarrow> map asked es = ag \<and> (\<forall>e \<in> set es. \<not> troubled d e)"
| "proceeds d C ag (Fail err) es \<longleftrightarrow> (\<exists>pre e post. es = pre @ [e] \<and> ag = map asked es @ post \<and>
     (\<forall>e \<in> set pre. \<not> troubled d e) \<and> troubled d e \<and> err = C e)"
| "proceeds d C ag (Panic p) es \<longleftrightarrow> False"

lemma proceeds_after:
  assumes "proceeds d C ag (Ok x) es" and "proceeds d C ag' r es'" shows "proceeds d C (ag @ ag') r (es @ es')"
proof (cases r)
  case (Fail err)
  with assms(2) obtain pre e post where "es' = pre @ [e]" "ag' = map asked es' @ post"
    "\<forall>e \<in> set pre. \<not> troubled d e" "troubled d e" "err = C e" by auto
  with assms(1) have "es @ es' = (es @ pre) @ [e] \<and> ag @ ag' = map asked (es @ es') @ post \<and>
      (\<forall>e \<in> set (es @ pre). \<not> troubled d e) \<and> troubled d e \<and> err = C e" by auto
  with Fail show ?thesis unfolding Fail proceeds.simps by blast
qed (use assms in auto)

lemma proceeds_stop: "proceeds d C ag (Fail e) es \<Longrightarrow> proceeds d C (ag @ ag') (Fail e) es"
  by auto

lemma proceeds_mono:
  "proceeds d C ag r es \<Longrightarrow> (\<And>e. asked e \<in> set ag \<Longrightarrow> troubled d e \<Longrightarrow> C e = C' e) \<Longrightarrow> proceeds d C' ag r es"
  by (cases r) auto

lemma proceeds_asked: "proceeds d C ag r es \<Longrightarrow> e \<in> set es \<Longrightarrow> asked e \<in> set ag"
  by (cases r) auto

lemma proceeds_ret: "hist trace (proceeds d C []) (ret x)"
  by (rule hist_ret) simp

lemma proceeds_bind:
  "hist trace (proceeds d C ag) m \<Longrightarrow> (\<And>x. hist trace (proceeds d C ag') (f x)) \<Longrightarrow> hist trace (proceeds d C (ag @ ag')) (bindA m f)"
  by (rule hist_bind [where ?Q1.0 = "proceeds d C ag" and ?Q2.0 = "\<lambda>_. proceeds d C ag'"])
    (auto intro: proceeds_after proceeds_stop simp del: proceeds.simps(1,2))

lemma proceeds_wrapE: "hist trace (proceeds d C ag) m \<Longrightarrow> hist trace (proceeds d (\<lambda>e. Wrapped msg (C e)) ag) (wrapE msg m)"
proof (rule histI)
  fix w r w'
  assume m: "hist trace (proceeds d C ag) m" and run: "wrapE msg m w = (r, w')"
  obtain r1 where r1: "m w = (r1, w')" using run by (auto simp: wrapE_def split: prod.splits res.splits)
  with m obtain es where "trace w' = trace w @ es" "proceeds d C ag r1 es" by (rule histE)
  with run r1 show "\<exists>es. trace w' = trace w @ es \<and> proceeds d (\<lambda>e. Wrapped msg (C e)) ag r es"
    by (cases r1) (auto simp: wrapE_run)
qed

lemma proceeds_eachA:
  "(\<And>x. hist trace (proceeds d C [q x]) (f x)) \<Longrightarrow> hist trace (proceeds d C (map q xs)) (eachA f xs)"
proof (induction xs)
  case (Cons x xs)
  then show ?case using proceeds_bind [of d C "[q x]" "f x" "map q xs" "\<lambda>_. eachA f xs"] by simp
qed (simp add: proceeds_ret)

lemma hist_proceeds_mono:
  "hist trace (proceeds d C ag) m \<Longrightarrow> (\<And>e. asked e \<in> set ag \<Longrightarrow> troubled d e \<Longrightarrow> C e = C' e) \<Longrightarrow> hist trace (proceeds d C' ag) m"
  by (erule hist_mono) (rule proceeds_mono, assumption, blast)

text \<open>One request.\<close>

lemma proceeds_one:
  "proceeds d C [q] r [e] \<longleftrightarrow> asked e = q \<and> (case r of Ok x \<Rightarrow> \<not> troubled d e | Fail err \<Rightarrow> troubled d e \<and> err = C e | Panic p \<Rightarrow> False)"
  by (cases r) (auto simp: Cons_eq_append_conv)

lemma proceeds_delete:
  assumes "cl_delete c = cl_delete (downstream d)" and "k \<noteq> KConfigMap"
  shows "hist trace (proceeds d answer_error [AskDelete Downstream k key]) (delete_ignoring_not_found d c k key)"
proof -
  have "hist trace (\<lambda>r es. \<exists>a. r = Ok a \<and> es = [EDelete Downstream k key a]) (tryA (cl_delete c k key))"
    unfolding assms(1) downstream_def api_client_simps
    by (rule hist_tryA [OF hist_call [where Q = "\<lambda>r es. \<exists>a. r = of_sum a \<and> es = [EDelete Downstream k key a]"]]) auto
  then show ?thesis
    unfolding delete_ignoring_not_found_def
    by (rule hist_bind [where ?Q2.0 = "\<lambda>a r es. es = [] \<and> (case a of Inr x \<Rightarrow> r = Ok ()
        | Inl e \<Rightarrow> if d_is_not_found d e then r = Ok () else r = Fail e)"])
      (use assms(2) in \<open>auto simp: proceeds_one split: sum.splits if_splits intro: hist_ret hist_fail simp del: proceeds.simps\<close>)
qed

lemma proceeds_update:
  assumes "codec_ok k" and "\<And>x. obj_kind x = cd_kind k \<Longrightarrow> \<exists>y. of_obj k x = Inr y"
    and "\<And>x y. of_obj k x = Inr y \<Longrightarrow> obj_kind x = cd_kind k"
  shows "hist trace (proceeds d answer_error [AskUpdate (Upstream c) (to_obj k x)]) (update_as (upstream d c) k x)"
proof -
  have kind: "obj_kind (to_obj k x) = cd_kind k" by (rule assms(3) [of _ x]) (simp add: assms(1))
  have fits: "proceeds d answer_error [AskUpdate (Upstream c) (to_obj k x)] (of_sum (of_obj k a)) [EUpdate (Upstream c) (to_obj k x) (Inr a)]" for a
    using assms(2,3) [of a] of_obj_InlD [of k a] kind
    by (cases "of_obj k a") (auto simp: proceeds_one simp del: proceeds.simps)
  have "hist trace (\<lambda>r es. \<exists>a. r = of_sum a \<and> es = [EUpdate (Upstream c) (to_obj k x) a]) (cl_update (upstream d c) (to_obj k x))"
    unfolding upstream_def api_client_simps by (rule hist_call) auto
  then show ?thesis
    unfolding update_as_def
    by (rule hist_bind [where ?Q2.0 = "\<lambda>a r es. es = [] \<and> r = of_sum (of_obj k a)"])
      (auto simp: hist_pure proceeds_one fits [unfolded proceeds_one] simp del: proceeds.simps)
qed

section \<open>The anchor\<close>

definition anchor_complaint :: "event \<Rightarrow> goerr" where
  "anchor_complaint e = foldr Wrapped (anchor_messages (asked e)) (answer_error e)"

lemma proceeds_meta:
  assumes "server_law d"
  shows "hist trace (\<lambda>r es. proceeds d anchor_complaint [AskGet (Upstream c) KNamespace (key_of [] (om_namespace (md x)))] r es \<and>
     all_of anchors_in es = [] \<and>
     (\<forall>key. r = Ok key \<longrightarrow> all_of namespaces_in es \<noteq> [] \<and> key = key_of (downstream_namespace es) (om_name (md x))))
   (wrapE ''failed to get downstream object metadata'' (mapped_object_meta (new_mapped d c ls) x))"
proof (rule histI)
  fix w r w'
  assume run: "wrapE ''failed to get downstream object metadata'' (mapped_object_meta (new_mapped d c ls) x) w = (r, w')"
  let ?key = "key_of [] (om_namespace (md x))"
  obtain r1 w1 where g: "get_as (api_client (d_server d) (Upstream c)) namespace_c ?key w = (r1, w1)" by fastforce
  from hist_get_as [OF assms decodes(1)] this obtain es where es: "trace w1 = trace w @ es"
    "(\<exists>y n. r1 = Ok y \<and> of_obj namespace_c n = Inr y \<and> es = [EGet (Upstream c) KNamespace ?key (Inr n)]) \<or>
     (\<exists>e. r1 = Fail e \<and> es = [EGet (Upstream c) KNamespace ?key (Inl e)])"
    by (rule histE) auto
  from run g have "r = (case r1 of Ok y \<Rightarrow> Ok (key_of (''ns-'' @ om_uid (md y)) (om_name (md x)))
      | Fail e \<Rightarrow> Fail (foldr Wrapped (anchor_messages (AskGet (Upstream c) KNamespace ?key)) e) | Panic p \<Rightarrow> Panic p)" "w' = w1"
    by (auto simp: mapped_object_meta_def mapped_namespace_def get_upstream_namespace_def new_mapped_def upstream_def anchor_messages_def
        wrapE_def bindA_def apply_simps split: res.splits prod.splits)
  with es show "\<exists>es. trace w' = trace w @ es \<and>
      (proceeds d anchor_complaint [AskGet (Upstream c) KNamespace ?key] r es \<and> all_of anchors_in es = [] \<and>
       (\<forall>key. r = Ok key \<longrightarrow> all_of namespaces_in es \<noteq> [] \<and> key = key_of (downstream_namespace es) (om_name (md x))))"
    by (auto simp: proceeds_one anchor_complaint_def downstream_namespace_def of_obj_md simp del: proceeds.simps)
qed

lemma proceeds_try_anchor:
  assumes "server_law d"
  shows "hist trace (\<lambda>r es. proceeds d anchor_complaint ([AskGet Downstream KConfigMap key] @
        (if all_of anchors_in es = [] then [] else [AskDelete Downstream KConfigMap key])) r es \<and> all_of namespaces_in es = [])
    (bindA (tryA (get_as (downstream d) configmap_c key)) (\<lambda>r. case r of
       Inl e \<Rightarrow> if d_is_not_found d e then ret () else fail (Wrapped ''failed listing configmaps'' e)
     | Inr a \<Rightarrow> cl_delete (downstream d) KConfigMap (obj_key a)))"
proof (rule hist_bind [where ?Q1.0 = "\<lambda>r es. (\<exists>a x. r = Ok (Inr a) \<and> obj_key a = key \<and> es = [EGet Downstream KConfigMap key (Inr x)]) \<or>
      (\<exists>e. r = Ok (Inl e) \<and> es = [EGet Downstream KConfigMap key (Inl e)])"
    and ?Q2.0 = "\<lambda>g r es. case g of
        Inl e \<Rightarrow> es = [] \<and> (if d_is_not_found d e then r = Ok () else r = Fail (Wrapped ''failed listing configmaps'' e))
      | Inr a \<Rightarrow> \<exists>b. r = of_sum b \<and> es = [EDelete Downstream KConfigMap (obj_key a) b]"])
  show "hist trace (\<lambda>r es. (\<exists>a x. r = Ok (Inr a) \<and> obj_key a = key \<and> es = [EGet Downstream KConfigMap key (Inr x)]) \<or>
      (\<exists>e. r = Ok (Inl e) \<and> es = [EGet Downstream KConfigMap key (Inl e)])) (tryA (get_as (downstream d) configmap_c key))"
    unfolding downstream_def by (rule hist_tryA [OF hist_get_as [OF assms decodes(2)]]) (auto dest: of_obj_key)
  show "hist trace (\<lambda>r es. case g of
        Inl e \<Rightarrow> es = [] \<and> (if d_is_not_found d e then r = Ok () else r = Fail (Wrapped ''failed listing configmaps'' e))
      | Inr a \<Rightarrow> \<exists>b. r = of_sum b \<and> es = [EDelete Downstream KConfigMap (obj_key a) b])
    (case g of Inl e \<Rightarrow> if d_is_not_found d e then ret () else fail (Wrapped ''failed listing configmaps'' e)
     | Inr a \<Rightarrow> cl_delete (downstream d) KConfigMap (obj_key a))" for g
    by (cases g) (auto simp: downstream_def intro!: hist_ret hist_fail hist_call)
  show "proceeds d anchor_complaint ([AskGet Downstream KConfigMap key] @
        (if all_of anchors_in (es @ es') = [] then [] else [AskDelete Downstream KConfigMap key])) r (es @ es') \<and>
      all_of namespaces_in (es @ es') = []"
    if "(\<exists>a x. Ok g = Ok (Inr a) \<and> obj_key a = key \<and> es = [EGet Downstream KConfigMap key (Inr x)]) \<or>
      (\<exists>e. Ok g = Ok (Inl e) \<and> es = [EGet Downstream KConfigMap key (Inl e)])"
      and "case g of Inl e \<Rightarrow> es' = [] \<and> (if d_is_not_found d e then r = Ok () else r = Fail (Wrapped ''failed listing configmaps'' e))
      | Inr a \<Rightarrow> \<exists>b. r = of_sum b \<and> es' = [EDelete Downstream KConfigMap (obj_key a) b]" for g r es es'
  proof (cases g)
    case (Inl e)
    with that show ?thesis by (cases "d_is_not_found d e") (auto simp: anchor_complaint_def anchor_messages_def)
  next
    case (Inr a)
    with that obtain x b where "obj_key a = key" "es = [EGet Downstream KConfigMap key (Inr x)]" "r = of_sum b"
      "es' = [EDelete Downstream KConfigMap key b]" by auto
    then show ?thesis by (cases b) (auto simp: anchor_complaint_def anchor_messages_def)
  qed
qed auto

lemma namespace_append: "all_of namespaces_in es' = [] \<Longrightarrow> downstream_namespace (es @ es') = downstream_namespace es"
  by (simp add: downstream_namespace_def)

lemma proceeds_anchor:
  assumes "server_law d"
  shows "hist trace (\<lambda>r es. proceeds d anchor_complaint (anchor_agenda c x es) r es)
    (mapped_delete_anchor d (new_mapped d c ls) x)"
proof -
  let ?ms = "new_mapped d c ls"
  have client: "cl_delete (mapped_client d ?ms) = cl_delete (downstream d)"
    "get_as (mapped_client d ?ms) configmap_c = get_as (downstream d) configmap_c"
    by (simp_all add: get_as_def mapped_client_def fun_eq_iff)
  show ?thesis
    unfolding mapped_delete_anchor_def client
  proof (rule hist_bind [OF proceeds_meta [OF assms] proceeds_try_anchor [OF assms]], goal_cases)
    case (1 e es)
    then have "proceeds d anchor_complaint ([AskGet (Upstream c) KNamespace (key_of [] (om_namespace (md x)))] @ ag) (Fail e :: unit res) es" for ag
      by (intro proceeds_stop) simp
    then show ?case by (simp add: anchor_agenda_def Let_def del: proceeds.simps)
  next
    case (3 key r es es')
    then have key: "k_namespace key = downstream_namespace (es @ es')" "all_of anchors_in (es @ es') = all_of anchors_in es'"
      by (simp_all add: namespace_append)
    from 3 have "proceeds d anchor_complaint ([AskGet (Upstream c) KNamespace (key_of [] (om_namespace (md x)))] @
        ([AskGet Downstream KConfigMap (key_of (k_namespace key) (anchor_name x))] @
        (if all_of anchors_in es' = [] then [] else [AskDelete Downstream KConfigMap (key_of (k_namespace key) (anchor_name x))]))) r (es @ es')"
      by (intro proceeds_after) auto
    then show ?case unfolding anchor_agenda_def Let_def key anchor_name_def by simp
  qed simp
qed

section \<open>The clean-ups\<close>

lemma complaints:
  "asked e = AskGet s k key \<Longrightarrow> complaint e = Wrapped ''failed to delete anchor for workload'' (anchor_complaint e)"
  "asked e = AskDelete s KConfigMap key \<Longrightarrow> complaint e = Wrapped ''failed to delete anchor for workload'' (anchor_complaint e)"
  "asked e = AskDelete s KServiceAccount key \<Longrightarrow> complaint e = Wrapped ''failed to delete service account'' (answer_error e)"
  "asked e = AskDelete s KGcpSecret key \<Longrightarrow> complaint e = Wrapped ''failed to delete secret'' (answer_error e)"
  "asked e = AskDelete s KFirewall key \<Longrightarrow> complaint e = Wrapped ''failed to delete firewall rule'' (answer_error e)"
  "asked e = AskDelete s KGcpNetwork key \<Longrightarrow> complaint e = Wrapped ''failed to delete downstream network'' (answer_error e)"
  "asked e = AskList s k opts \<Longrightarrow> complaint e = Wrapped ''failed to list firewall rules'' (answer_error e)"
  "asked e = AskUpdate s y \<Longrightarrow> complaint e = answer_error e"
  by (simp_all add: complaint_def anchor_complaint_def messages_def anchor_messages_def)

lemma proceeds_workload_anchor:
  assumes "server_law d"
  shows "hist trace (\<lambda>r es. proceeds d complaint (anchor_agenda c x es) r es \<and> all_of rules_in es = [])
    (wrapE ''failed to delete anchor for workload'' (mapped_delete_anchor d (new_mapped d c ls) x))"
proof (rule histI)
  let ?m = "mapped_delete_anchor d (new_mapped d c ls) x"
  fix w r w'
  assume run: "wrapE ''failed to delete anchor for workload'' ?m w = (r, w')"
  obtain r1 where r1: "?m w = (r1, w')" using run by (auto simp: wrapE_def split: prod.splits res.splits)
  with proceeds_anchor [OF assms] obtain es where es: "trace w' = trace w @ es" "proceeds d anchor_complaint (anchor_agenda c x es) r1 es"
    by (rule histE)
  have kinds: "q \<in> set (anchor_agenda c x es) \<Longrightarrow> (\<exists>s k key. q = AskGet s k key) \<or> (\<exists>s key. q = AskDelete s KConfigMap key)" for q
    by (auto simp: anchor_agenda_def Let_def split: if_splits)
  from es(2) have "proceeds d (\<lambda>e. Wrapped ''failed to delete anchor for workload'' (anchor_complaint e)) (anchor_agenda c x es) r es"
    using run r1 by (cases r1) (auto simp: wrapE_run)
  then have "proceeds d complaint (anchor_agenda c x es) r es"
    by (rule proceeds_mono) (auto dest!: kinds simp: complaints)
  moreover have "rules_in e = []" if "e \<in> set es" for e
    using kinds [OF proceeds_asked [OF es(2) that]] by (cases e) auto
  ultimately show "\<exists>es. trace w' = trace w @ es \<and> (proceeds d complaint (anchor_agenda c x es) r es \<and> all_of rules_in es = [])"
    using es(1) by (auto simp: all_of_def)
qed

lemma proceeds_named_delete:
  assumes "cl_delete c = cl_delete (downstream d)" and "k \<noteq> KConfigMap"
    and "\<And>e. asked e = AskDelete Downstream k key \<Longrightarrow> complaint e = Wrapped msg (answer_error e)"
  shows "hist trace (proceeds d complaint [AskDelete Downstream k key]) (wrapE msg (delete_ignoring_not_found d c k key))"
  by (rule hist_proceeds_mono [OF proceeds_wrapE [OF proceeds_delete [OF assms(1,2)]]]) (simp add: assms(3))

text \<open>The firewalls: listed, then deleted in the order of the list.\<close>

lemma proceeds_rules:
  assumes "cl_delete c = cl_delete (downstream d)" and "cl_list c = cl_list (downstream d)"
  shows "hist trace (\<lambda>r es. proceeds d complaint (AskList Downstream KFirewall opts #
      map (\<lambda>f. AskDelete Downstream KFirewall (obj_key f)) (all_of rules_in es)) r es)
    (bindA (wrapE ''failed to list firewall rules'' (cl_list c KFirewall opts)) (\<lambda>rules.
       eachA (\<lambda>rule. wrapE ''failed to delete firewall rule'' (delete_ignoring_not_found d c KFirewall (obj_key rule))) rules))"
proof (rule hist_bind [where ?Q1.0 = "\<lambda>r es. (\<exists>fs. r = Ok fs \<and> es = [EList Downstream KFirewall opts (Inr fs)]) \<or>
      (\<exists>e. r = Fail (Wrapped ''failed to list firewall rules'' e) \<and> es = [EList Downstream KFirewall opts (Inl e)])"
    and ?Q2.0 = "\<lambda>fs. proceeds d complaint (map (\<lambda>f. AskDelete Downstream KFirewall (obj_key f)) fs)"])
  show "hist trace (\<lambda>r es. (\<exists>fs. r = Ok fs \<and> es = [EList Downstream KFirewall opts (Inr fs)]) \<or>
      (\<exists>e. r = Fail (Wrapped ''failed to list firewall rules'' e) \<and> es = [EList Downstream KFirewall opts (Inl e)]))
    (wrapE ''failed to list firewall rules'' (cl_list c KFirewall opts))"
  proof (rule histI)
    fix w r w'
    assume "wrapE ''failed to list firewall rules'' (cl_list c KFirewall opts) w = (r, w')"
    then show "\<exists>es. trace w' = trace w @ es \<and> ((\<exists>fs. r = Ok fs \<and> es = [EList Downstream KFirewall opts (Inr fs)]) \<or>
        (\<exists>e. r = Fail (Wrapped ''failed to list firewall rules'' e) \<and> es = [EList Downstream KFirewall opts (Inl e)]))"
      by (cases "fst (sv_list (d_server d) Downstream KFirewall opts (srv w))")
        (auto simp: assms(2) downstream_def wrapE_def call_def split: prod.splits)
  qed
  show "hist trace (proceeds d complaint (map (\<lambda>f. AskDelete Downstream KFirewall (obj_key f)) fs))
      (eachA (\<lambda>rule. wrapE ''failed to delete firewall rule'' (delete_ignoring_not_found d c KFirewall (obj_key rule))) fs)" for fs
    by (rule proceeds_eachA, rule proceeds_named_delete [OF assms(1)]) (simp_all add: complaints)
  show "proceeds d complaint (AskList Downstream KFirewall opts # map (\<lambda>f. AskDelete Downstream KFirewall (obj_key f)) (all_of rules_in es)) (Fail e) es"
    if "(\<exists>fs. Fail e = Ok fs \<and> es = [EList Downstream KFirewall opts (Inr fs)]) \<or>
      (\<exists>e'. Fail e = Fail (Wrapped ''failed to list firewall rules'' e') \<and> es = [EList Downstream KFirewall opts (Inl e')])" for e es
    using that by (auto simp: complaints)
  show "proceeds d complaint (AskList Downstream KFirewall opts # map (\<lambda>f. AskDelete Downstream KFirewall (obj_key f)) (all_of rules_in (es @ es'))) r (es @ es')"
    if "(\<exists>gs. Ok fs = Ok gs \<and> es = [EList Downstream KFirewall opts (Inr gs)]) \<or>
      (\<exists>e'. Ok fs = Fail (Wrapped ''failed to list firewall rules'' e') \<and> es = [EList Downstream KFirewall opts (Inl e')])"
      and r: "proceeds d complaint (map (\<lambda>f. AskDelete Downstream KFirewall (obj_key f)) fs) r es'" for fs r es es'
  proof -
    have "rules_in e = []" if "e \<in> set es'" for e
      using proceeds_asked [OF r that] by (cases e) auto
    then have "all_of rules_in es' = []" by (simp add: all_of_def)
    moreover have "proceeds d complaint [AskList Downstream KFirewall opts] (Ok ()) es" using that(1) by auto
    from proceeds_after [OF this r] have "proceeds d complaint
        (AskList Downstream KFirewall opts # map (\<lambda>f. AskDelete Downstream KFirewall (obj_key f)) fs) r (es @ es')" by simp
    ultimately show ?thesis using that(1) by auto
  qed
qed auto

text \<open>Requests that are no reads, and requests that are no lists, give no such answers.\<close>

fun is_get :: "ask \<Rightarrow> bool" where "is_get (AskGet s k key) = True" | "is_get q = False"
fun is_list :: "ask \<Rightarrow> bool" where "is_list (AskList s k opts) = True" | "is_list q = False"

lemma no_gets: "proceeds d C ag r es \<Longrightarrow> \<forall>q \<in> set ag. \<not> is_get q \<Longrightarrow> all_of namespaces_in es = [] \<and> all_of anchors_in es = []"
proof -
  assume run: "proceeds d C ag r es" and ag: "\<forall>q \<in> set ag. \<not> is_get q"
  have "namespaces_in e = [] \<and> anchors_in e = []" if "e \<in> set es" for e
    using proceeds_asked [OF run that] ag by (cases e) auto
  then show ?thesis by (simp add: all_of_def)
qed

lemma no_lists: "proceeds d C ag r es \<Longrightarrow> \<forall>q \<in> set ag. \<not> is_list q \<Longrightarrow> all_of rules_in es = []"
proof -
  assume run: "proceeds d C ag r es" and ag: "\<forall>q \<in> set ag. \<not> is_list q"
  have "rules_in e = []" if "e \<in> set es" for e
    using proceeds_asked [OF run that] ag by (cases e) auto
  then show ?thesis by (simp add: all_of_def)
qed

text \<open>The rule of sequence for agendas that depend on the answers.\<close>

lemma proceeds_bind_rules:
  fixes m :: "('w world, 'a) act" and f :: "'a \<Rightarrow> ('w world, 'b) act"
  assumes "hist trace (proceeds d C ag) m" and "\<And>x. hist trace (\<lambda>r es. proceeds d C (B (all_of rules_in es)) r es) (f x)"
    and "\<forall>q \<in> set ag. \<not> is_list q"
  shows "hist trace (\<lambda>r es. proceeds d C (ag @ B (all_of rules_in es)) r es) (bindA m f)"
proof (rule hist_bind [OF assms(1,2)], goal_cases)
  case (1 e es)
  then show ?case by (rule proceeds_stop)
next
  case (3 x r es es')
  then show ?case using proceeds_after [OF 3] no_lists [OF 3(1) assms(3)] by simp
qed simp

definition late_agenda :: "'w deps \<Rightarrow> obj \<Rightarrow> event list \<Rightarrow> ask list" where
  "late_agenda d x es = [AskDelete Downstream KServiceAccount (key_of [] (''workload-'' @ om_uid (md x))),
     AskDelete Downstream KGcpSecret (key_of [] (''workload-'' @ om_uid (md x))),
     AskList Downstream KFirewall \<lparr>lo_namespace = None, lo_labels = [(k_workload_uid_label (d_consts d), om_uid (md x))], lo_index = None\<rparr>] @
   map (\<lambda>f. AskDelete Downstream KFirewall (obj_key f)) (all_of rules_in es)"

lemma workload_agenda_parts: "workload_agenda d c x es = anchor_agenda c x es @ late_agenda d x es"
  by (simp add: workload_agenda_def late_agenda_def Let_def)

lemma late_no_gets: "q \<in> set (late_agenda d x es) \<Longrightarrow> \<not> is_get q"
  by (auto simp: late_agenda_def)

lemma anchor_agenda_append:
  "all_of namespaces_in es' = [] \<Longrightarrow> all_of anchors_in es' = [] \<Longrightarrow> anchor_agenda c x (es @ es') = anchor_agenda c x es"
  by (simp add: anchor_agenda_def namespace_append)

lemma late_agenda_append: "all_of rules_in es' = [] \<Longrightarrow> late_agenda d x (es @ es') = late_agenda d x es"
  "all_of rules_in es = [] \<Longrightarrow> late_agenda d x (es @ es') = late_agenda d x es'"
  by (simp_all add: late_agenda_def)

lemma proceeds_workload_cleanup:
  assumes "server_law d"
  shows "hist trace (\<lambda>r es. proceeds d complaint (workload_agenda d c (to_obj workload_c wl) es) r es) (workload_cleanup d cfg c wl)"
proof -
  let ?x = "to_obj workload_c wl" and ?ms = "new_mapped d c (dm_labels (gp_downstream cfg))"
  let ?key = "key_of [] (''workload-'' @ om_uid (md wl))"
  let ?opts = "\<lparr>lo_namespace = None, lo_labels = [(k_workload_uid_label (d_consts d), om_uid (md wl))], lo_index = None\<rparr>"
  let ?rules = "\<lambda>fs. AskList Downstream KFirewall ?opts # map (\<lambda>f. AskDelete Downstream KFirewall (obj_key f)) fs"
  have client: "cl_delete (mapped_client d ?ms) = cl_delete (downstream d)" "cl_list (mapped_client d ?ms) = cl_list (downstream d)"
    by (simp_all add: mapped_client_def)
  have del: "hist trace (proceeds d complaint [AskDelete Downstream k key]) (wrapE msg (delete_ignoring_not_found d (mapped_client d ?ms) k key))"
    if "k = KServiceAccount \<and> msg = ''failed to delete service account'' \<or> k = KGcpSecret \<and> msg = ''failed to delete secret''" for k key msg
    by (rule proceeds_named_delete [OF client(1)]) (use that in \<open>auto simp: complaints\<close>)
  have parts: "late_agenda d ?x es = [AskDelete Downstream KServiceAccount ?key] @ [AskDelete Downstream KGcpSecret ?key] @ ?rules (all_of rules_in es)" for es
    by (simp add: late_agenda_def)
  have late: "hist trace (\<lambda>r es. proceeds d complaint (late_agenda d ?x es) r es)
      (bindA (wrapE ''failed to delete service account'' (delete_ignoring_not_found d (mapped_client d ?ms) KServiceAccount ?key)) (\<lambda>_.
       bindA (wrapE ''failed to delete secret'' (delete_ignoring_not_found d (mapped_client d ?ms) KGcpSecret ?key)) (\<lambda>_.
       bindA (wrapE ''failed to list firewall rules'' (cl_list (mapped_client d ?ms) KFirewall ?opts))
         (eachA (\<lambda>rule. wrapE ''failed to delete firewall rule''
           (delete_ignoring_not_found d (mapped_client d ?ms) KFirewall (obj_key rule)))))))"
    unfolding parts
    by (rule proceeds_bind_rules [where B = "\<lambda>fs. [AskDelete Downstream KGcpSecret ?key] @ ?rules fs", OF del
          proceeds_bind_rules [where B = ?rules, OF del proceeds_rules [OF client]]]) simp_all
  have anchor: "hist trace (\<lambda>r es. proceeds d complaint (anchor_agenda c ?x es) r es \<and> all_of rules_in es = [])
    (wrapE ''failed to delete anchor for workload'' (mapped_delete_anchor d ?ms ?x))"
    by (rule proceeds_workload_anchor [OF assms])
  show ?thesis
    unfolding workload_cleanup_def Let_def new_mapped_strategy_client workload_agenda_parts workload_name_def workload_firewalls_def
  proof (rule hist_bind [OF anchor late], goal_cases)
    case (1 e es)
    then show ?case by (elim conjE) (rule proceeds_stop)
  next
    case (3 u r es es')
    have "all_of namespaces_in es' = [] \<and> all_of anchors_in es' = []"
      using no_gets [OF 3(2)] late_no_gets by blast
    then have "anchor_agenda c ?x (es @ es') = anchor_agenda c ?x es" "late_agenda d ?x (es @ es') = late_agenda d ?x es'"
      using 3(1) by (simp_all add: anchor_agenda_append late_agenda_append)
    with 3 proceeds_after show ?case by (metis (no_types, lifting))
  qed simp
qed

lemma proceeds_network_cleanup:
  "hist trace (\<lambda>r es. proceeds d complaint (network_agenda (to_obj network_c n)) r es) (network_cleanup d n)"
proof -
  have "hist trace (proceeds d complaint [AskDelete Downstream KGcpNetwork key])
      (wrapE ''failed to delete downstream network'' (delete_ignoring_not_found d (downstream d) KGcpNetwork key))" for key
    by (rule proceeds_named_delete) (simp_all add: complaints)
  then show ?thesis by (simp add: network_cleanup_def network_agenda_def network_name_def)
qed

section \<open>The whole reconciliation\<close>

lemma agenda_update:
  assumes "codec_ok k" and "\<And>x. obj_kind x = cd_kind k \<Longrightarrow> \<exists>y. of_obj k x = Inr y" and "\<And>x y. of_obj k x = Inr y \<Longrightarrow> obj_kind x = cd_kind k"
  shows "hist trace (proceeds d complaint [AskUpdate (Upstream c) (to_obj k y)]) (bindA (update_as (upstream d c) k y) (\<lambda>_. ret Done))"
proof -
  have "hist trace (proceeds d complaint [AskUpdate (Upstream c) (to_obj k y)]) (update_as (upstream d c) k y)"
    by (rule hist_proceeds_mono [OF proceeds_update [OF assms]]) (simp_all add: complaints)
  from proceeds_bind [OF this, OF proceeds_ret, of "\<lambda>_. Done"] show ?thesis by simp
qed

text \<open>The clean-up's agenda, and the update after it.\<close>

lemma proceeds_then_update:
  fixes m :: "('w world, unit) act"
  assumes "hist trace (\<lambda>r es. proceeds d complaint (A es) r es) m"
    and "hist trace (proceeds d complaint [AskUpdate s y]) (u :: ('w world, 'a) act)"
    and "\<And>es es'. all_of namespaces_in es' = [] \<Longrightarrow> all_of anchors_in es' = [] \<Longrightarrow> all_of rules_in es' = [] \<Longrightarrow> A (es @ es') = A es"
  shows "hist trace (\<lambda>r es. proceeds d complaint (A es @ [AskUpdate s y]) r es) (bindA m (\<lambda>_. u))"
proof (rule hist_bind [OF assms(1,2)], goal_cases)
  case (1 e es)
  then show ?case by (rule proceeds_stop)
next
  case (3 x r es es')
  have "A (es @ es') = A es"
    using no_gets [OF 3(2)] no_lists [OF 3(2)] by (intro assms(3)) auto
  then show ?case using proceeds_after [OF 3] by simp
qed simp

lemma phase_conversation:
  fixes k :: "'b codec"
  assumes law: "finalizer_law d" "server_law d" and k: "codec_ok k" "\<And>x. obj_kind x = cd_kind k \<Longrightarrow> \<exists>y. of_obj k x = Inr y"
      "\<And>x y. of_obj k x = Inr y \<Longrightarrow> obj_kind x = cd_kind k"
    and clean: "\<And>y. hist trace (\<lambda>r es. proceeds d complaint
        (if cd_kind k = KWorkload then workload_agenda d (rq_cluster rq) (to_obj k y) es else network_agenda (to_obj k y)) r es) (cleanup y)"
    and read: "object_read (cd_kind k) rq d w x" and run: "phase_reconcile d k cleanup rq w = (r, w')"
  shows "\<exists>es. trace w' = trace w @ EGet (Upstream (rq_cluster rq)) (cd_kind k) (rq_key rq) (Inr x) # es \<and>
    proceeds d complaint (agenda d (rq_cluster rq) x es) r es \<and> r \<noteq> Ok Requeue"
proof -
  let ?c = "rq_cluster rq" and ?f = gcp_infra_finalizer
  from law(2) read k(2) obtain w1 y w2 where y: "get_cluster d ?c w = (Ok (), w1)"
    "get_as (upstream d ?c) k (rq_key rq) w1 = (Ok y, w2)" "md y = md x"
    "trace w2 = trace w @ [EGet (Upstream ?c) (cd_kind k) (rq_key rq) (Inr x)]" "of_obj k x = Inr y"
    by (rule object_readE) auto
  have x: "x = to_obj k y" and kind: "obj_kind x = cd_kind k" using of_obj_InrD [OF k(1) y(5)] k(3) [OF y(5)] by auto
  define A where "A = (\<lambda>es. if cd_kind k = KWorkload then workload_agenda d ?c x es else network_agenda x)"
  have A: "all_of namespaces_in es' = [] \<Longrightarrow> all_of anchors_in es' = [] \<Longrightarrow> all_of rules_in es' = [] \<Longrightarrow> A (es @ es') = A es" for es es'
    by (simp add: A_def workload_agenda_parts anchor_agenda_append late_agenda_append(1))
  have fin: "to_obj k (with_finalizer d y f) = with_finalizers x (d_add_finalizer d (om_finalizers (md x)) f)"
    "to_obj k (without_finalizer d y f) = with_finalizers x (filter (\<lambda>g. g \<noteq> f) (om_finalizers (md x)))" for f
    using law(1) by (simp_all add: x with_finalizers_def with_finalizer_def without_finalizer_def finalizer_law_def to_obj_def)
  have "hist trace (\<lambda>r es. proceeds d complaint (A es) r es) (cleanup y)" using clean [of y] by (simp only: A_def x)
  then have doomed: "hist trace (\<lambda>r es. proceeds d complaint (A es @ [AskUpdate (Upstream ?c) (to_obj k z)]) r es)
      (bindA (cleanup y) (\<lambda>_. bindA (update_as (upstream d ?c) k z) (\<lambda>_. ret Done)))" for z
    by (rule proceeds_then_update [OF _ agenda_update [OF k] A])
  have claim: "hist trace (proceeds d complaint [AskUpdate (Upstream ?c) (to_obj k z)])
      (bindA (update_as (upstream d ?c) k z) (\<lambda>_. ret Done))" for z
    by (rule agenda_update [OF k])
  let ?m = "case phase_of x of Unclaimed \<Rightarrow> bindA (update_as (upstream d ?c) k (with_finalizer d y ?f)) (\<lambda>_. ret Done)
        | Claimed \<Rightarrow> ret Done
        | Doomed \<Rightarrow> bindA (cleanup y) (\<lambda>_. bindA (update_as (upstream d ?c) k (without_finalizer d y ?f)) (\<lambda>_. ret Done))
        | Free \<Rightarrow> ret Done"
  have m: "?m w2 = (r, w')"
    using run y(1,2) phase_of_md [OF y(3)] by (simp add: phase_reconcile_def Let_def bindA_run tryA_run)
  have "hist trace (\<lambda>r es. proceeds d complaint (agenda d ?c x es) r es) ?m"
    using claim [of "with_finalizer d y ?f"] doomed [of "without_finalizer d y ?f"] unfolding fin
    by (cases "phase_of x") (simp_all add: agenda_def [folded gcp_infra_finalizer_def] Let_def kind A_def proceeds_ret del: proceeds.simps)
  then obtain es where "trace w' = trace w2 @ es" "proceeds d complaint (agenda d ?c x es) r es" using m by (rule histE)
  moreover have "r \<noteq> Ok Requeue" using m by (auto elim!: bindA_OkE split: phase.splits)
  ultimately show ?thesis using y(4) by auto
qed

section \<open>Property\<close>

text \<open>
  C12: What the workload and network reconcilers ask of the API servers, and what they return, is exactly what the
  agenda of the object read says: an unclaimed object is updated with the finalizer, a deleted workload that
  carries it has its anchor, its service account, its secret and each firewall with its UID deleted, in this order
  and under these names, a deleted network its GCP network, and then the object is updated without the finalizer;
  for the other objects nothing is asked. The first answer that is an error the reconciler does not tolerate is the
  last one, and its error is returned under the messages of that request; without one, the reconciliation returns
  success.
\<close>

theorem exact_conversation:
  assumes "library_laws d" and "c \<in> {WorkloadCtl, NetworkCtl}" and "object_read (controller_kind c) rq d w x"
    and "dispatch d cfg cls c rq w = (r, w')"
  shows "\<exists>es. trace w' = trace w @ EGet (Upstream (rq_cluster rq)) (controller_kind c) (rq_key rq) (Inr x) # es \<and>
    proceeds d complaint (agenda d (rq_cluster rq) x es) r es \<and> r \<noteq> Ok Requeue"
proof -
  have law: "finalizer_law d" "server_law d" using library_lawsD [OF assms(1)] by auto
  show ?thesis
  proof (cases "c = WorkloadCtl")
    case True
    have "\<exists>es. trace w' = trace w @ EGet (Upstream (rq_cluster rq)) (cd_kind workload_c) (rq_key rq) (Inr x) # es \<and>
        proceeds d complaint (agenda d (rq_cluster rq) x es) r es \<and> r \<noteq> Ok Requeue"
      by (rule phase_conversation [OF law codecs_ok(3) decodes(3) decoded_kinds(1),
            where cleanup = "workload_cleanup d cfg (rq_cluster rq)"])
        (use assms(3,4) True proceeds_workload_cleanup [OF law(2), of "rq_cluster rq" _ cfg] in \<open>simp_all add: workload_by_phase [OF law(1)] del: proceeds.simps\<close>)
    with True show ?thesis by simp
  next
    case False
    with assms(2) have c: "c = NetworkCtl" by simp
    have "\<exists>es. trace w' = trace w @ EGet (Upstream (rq_cluster rq)) (cd_kind network_c) (rq_key rq) (Inr x) # es \<and>
        proceeds d complaint (agenda d (rq_cluster rq) x es) r es \<and> r \<noteq> Ok Requeue"
      by (rule phase_conversation [OF law codecs_ok(5) decodes(4) decoded_kinds(2), where cleanup = "network_cleanup d"])
        (use assms(3,4) c proceeds_network_cleanup [of d] in \<open>simp_all add: network_by_phase [OF law(1)] del: proceeds.simps\<close>)
    with c show ?thesis by simp
  qed
qed


text \<open>The doomed workload of \<open>doomed_run\<close> has an anchor and no firewalls: six requests, and the update.\<close>

abbreviation doomed_answers :: "event list" where "doomed_answers \<equiv> tl (trace (snd doomed_run))"

lemma doomed_run_length: "fst doomed_run = Ok Done \<and> length doomed_answers = 7"
  by code_simp

theorem exact_conversation_witness:
  "fst doomed_run = Ok Done \<and> length doomed_answers = 7 \<and>
   map asked doomed_answers = agenda ref_deps ''c'' (dying (live ''ns'' ''x'' ''u1'' BWorkload)) doomed_answers"
proof -
  have run: "dispatch ref_deps ref_cfg [] WorkloadCtl ref_rq dying_workload = (fst doomed_run, snd doomed_run)"
    by (simp add: doomed_run_def)
  have "trace dying_workload = []" "rq_cluster ref_rq = ''c''" by (simp_all add: dying_workload_def on_def ref_rq_def)
  with exact_conversation [OF ref_laws, of WorkloadCtl ref_rq, OF _ _ run] doomed_read
  obtain es where "trace (snd doomed_run) = EGet tenant KWorkload (rq_key ref_rq) (Inr (dying (live ''ns'' ''x'' ''u1'' BWorkload))) # es"
    "proceeds ref_deps complaint (agenda ref_deps ''c'' (dying (live ''ns'' ''x'' ''u1'' BWorkload)) es) (fst doomed_run) es"
    by fastforce
  with doomed_run_length show ?thesis by simp
qed

end
