(* ===== verification/Subnet_Status.thy ===== *)
theory Subnet_Status
  imports Publication
begin

text \<open>
  The lost error of \<open>internal/controller/subnet_controller.go\<close>, as a property of the whole reconciler: it is run
  on two servers that differ in nothing but how they answer status updates.
\<close>

section \<open>A server that answers status updates differently\<close>

definition with_updates :: "'w deps \<Rightarrow> (side \<Rightarrow> obj \<Rightarrow> 'w \<Rightarrow> (goerr + obj) \<times> 'w) \<Rightarrow> 'w deps" where
  "with_updates d u = d\<lparr>d_server := (d_server d)\<lparr>sv_status_update := u\<rparr>\<rparr>"

lemma with_updates_simps [simp]:
  "d_consts (with_updates d u) = d_consts d" "d_is_not_found (with_updates d u) = d_is_not_found d"
  "d_condition_true (with_updates d u) = d_condition_true d" "d_finalize (with_updates d u) = d_finalize d"
  "d_deep_equal (with_updates d u) = d_deep_equal d" "d_set_meta_label (with_updates d u) = d_set_meta_label d"
  "d_get_condition (with_updates d u) = d_get_condition d" "d_create_or_update (with_updates d u) = d_create_or_update d"
  by (simp_all add: with_updates_def)

lemma client_of_updates [simp]:
  "cl_get (upstream (with_updates d u) c) = cl_get (upstream d c)"
  "cl_update (upstream (with_updates d u) c) = cl_update (upstream d c)"
  "cl_get (downstream (with_updates d u)) = cl_get (downstream d)"
  "cl_create (downstream (with_updates d u)) = cl_create (downstream d)"
  "cl_update (downstream (with_updates d u)) = cl_update (downstream d)"
  "cl_delete (downstream (with_updates d u)) = cl_delete (downstream d)"
  by (simp_all add: upstream_def downstream_def with_updates_def fun_eq_iff)

lemma typed_of_updates [simp]:
  "get_as (upstream (with_updates d u) c) k key = get_as (upstream d c) k key"
  "update_as (upstream (with_updates d u) c) k x = update_as (upstream d c) k x"
  "get_cluster (with_updates d u) cl = get_cluster d cl"
  "is_ready (with_updates d u) = is_ready d"
  "provider_config (with_updates d u) = provider_config d"
  "subnet_condition0 (with_updates d u) = subnet_condition0 d"
  by (simp_all add: get_as_def update_as_def is_ready_def provider_config_def fun_eq_iff subnet_condition0_def)
    (simp add: get_cluster_def with_updates_def)

lemma more_of_updates [simp]:
  "get_location (upstream (with_updates d u) c) ref cls = get_location (upstream d c) ref cls"
  "desired_subnetwork (with_updates d u) = desired_subnetwork d"
  by (simp_all add: get_location_def desired_subnetwork_def fun_eq_iff)

text \<open>CreateOrUpdate makes no status update, so neither does the creation of a labelled object.\<close>

lemma upsert_of_updates:
  assumes "cl_get c' = cl_get c" and "cl_create c' = cl_create c" and "cl_update c' = cl_update c"
  shows "upsert_doc (with_updates d u) (\<lambda>c _. cl_update c) c' x f = upsert_doc d (\<lambda>c _. cl_update c) c x f"
  unfolding upsert_doc_def assms with_updates_simps by (rule refl)

lemma upsert_doc_of_updates: "upsert_doc (with_updates d u) = upsert_doc d"
  unfolding upsert_doc_def with_updates_simps by (rule refl)

lemma create_or_update_of_updates:
  assumes "create_or_update_law d" shows "create_or_update_law (with_updates d u)"
  using assms unfolding create_or_update_law_def upsert_doc_of_updates with_updates_simps .

lemma mapped_create_of_updates:
  assumes "create_or_update_law d"
  shows "mapped_create (with_updates d u) (new_mapped (with_updates d u) c ls) x = mapped_create d (new_mapped d c ls) x"
proof -
  have label: "label_namespace (with_updates d u) (new_mapped (with_updates d u) c ls) = label_namespace d (new_mapped d c ls)"
    by (simp add: label_namespace_def fun_eq_iff)
  have "create_or_update_as (with_updates d u) (downstream (with_updates d u)) namespace_c n
        (\<lambda>n. ret (label_namespace d (new_mapped d c ls) n)) =
      create_or_update_as d (downstream d) namespace_c n (\<lambda>n. ret (label_namespace d (new_mapped d c ls) n))" for n
  proof -
    have key: "label_namespace d (new_mapped d c ls) n = y \<Longrightarrow> obj_key y = obj_key n" for n y by auto
    show ?thesis
      by (subst (1 2) create_or_update_as_law)
        (use assms create_or_update_of_updates [OF assms] key in \<open>auto simp: upsert_of_updates\<close>)
  qed
  then show ?thesis by (simp add: mapped_create_def ensure_namespace_def label)
qed

lemma strategy_of_updates:
  assumes "create_or_update_law d"
  shows "get_or_zero (with_updates d u) (mapped_client (with_updates d u) (new_mapped (with_updates d u) c ls)) k key z =
      get_or_zero d (mapped_client d (new_mapped d c ls)) k key z"
    "create_as (mapped_client (with_updates d u) (new_mapped (with_updates d u) c ls)) k x =
      create_as (mapped_client d (new_mapped d c ls)) k x"
  by (simp_all add: get_or_zero_def get_as_def create_as_def mapped_create_of_updates [OF assms] cong: sum.case_cong)

lemma subnet_program_of_updates:
  assumes "create_or_update_law d"
  shows "subnet_program (with_updates d u) cfg rq loc sn = subnet_program d cfg rq loc sn"
  unfolding subnet_program_def Let_def new_mapped_strategy_client strategy_of_updates [OF assms] with_updates_simps
    typed_of_updates more_of_updates by (rule refl)

lemma subnet_deferred_of_updates:
  assumes "create_or_update_law d"
  shows "fst (defer_unnamed l0 (publish_subnet (with_updates d u) c) (subnet_program (with_updates d u) cfg rq loc sn) s) =
    fst (defer_unnamed l0 (publish_subnet d c) (subnet_program d cfg rq loc sn) s)"
  using subnet_body_result [of l0 "with_updates d u" c cfg rq loc sn s] subnet_body_result [of l0 d c cfg rq loc sn s]
  by (simp only: subnet_program_of_updates [OF assms])

lemma subnet_finalizers_of_updates: "subnet_finalizers (with_updates d u) sn = subnet_finalizers d sn"
proof -
  have "subnet_finalize (with_updates d u) = subnet_finalize d"
    unfolding subnet_finalize_def delete_ignoring_not_found_def client_of_updates with_updates_simps by (rule refl)
  then show ?thesis by (simp add: subnet_finalizers_def)
qed

section \<open>The result\<close>

lemma bind_result: "(\<And>x s. fst (f x s) = fst (g x s)) \<Longrightarrow> fst (bindA m f s) = fst (bindA m g s)"
  by (simp add: bindA_def split: prod.split res.split)

text \<open>
  C20: The subnet reconciler loses the error of its status update: on two servers that differ only in how they
  answer status updates, and in what these do, it returns the same result. In particular it reports success where
  the server refuses the update.
\<close>

theorem subnet_update_error_lost:
  assumes "library_laws d"
  shows "fst (subnet_reconcile (d\<lparr>d_server := (d_server d)\<lparr>sv_status_update := u\<rparr>\<rparr>) cfg cls rq w) =
    fst (subnet_reconcile d cfg cls rq w)"
  unfolding with_updates_def [symmetric] subnet_reconcile_def Let_def typed_of_updates with_updates_simps
    subnet_finalizers_of_updates
proof (intro bind_result, goal_cases)
  case (1 x s r s')
  show ?case
    by (cases r)
      (auto intro!: bind_result simp: subnet_deferred_of_updates [OF library_lawsD(1) [OF assms]]
        split: sum.split prod.split)
qed

text \<open>A subnet whose GCP subnetwork is there, on a server that refuses status updates and on one that does not.\<close>

definition published_subnet_world :: "store world" where
  "published_subnet_world = on [ref_namespace, ref_location, (tenant, to_obj context_c ref_context),
     (tenant, to_obj network_c ref_net), (tenant, to_obj subnet_c ref_subnet),
     (Downstream, live [] ''subnet-s1'' ''g1'' (BSubnetwork (pl zero_subnetwork)))]"

definition refused_subnet_run :: "ctrl_result res \<times> store world" where
  "refused_subnet_run = subnet_reconcile refusing ref_cfg [] ref_rq published_subnet_world"

theorem subnet_update_error_lost_witness:
  "list_ex refused (trace (snd refused_subnet_run)) \<and> fst refused_subnet_run = Ok Done"
proof
  show "list_ex refused (trace (snd refused_subnet_run))" by code_simp
  have "fst (subnet_reconcile ref_deps ref_cfg [] ref_rq published_subnet_world) = Ok Done" by code_simp
  moreover have "d_server ref_deps = ref_server" by (simp add: ref_deps_def ref_base_def)
  ultimately show "fst refused_subnet_run = Ok Done"
    using subnet_update_error_lost [OF ref_laws, of "\<lambda>s x st. (Inl (ApiError ''refused''), st)" ref_cfg "[]" ref_rq published_subnet_world]
    by (simp add: refused_subnet_run_def refusing_def)
qed

end
