(* ===== verification/Sandbox_Boot.thy ===== *)
theory Sandbox_Boot
  imports Footprint
begin

text \<open>
  The boot disk of a sandbox instance, followed from \<open>reconcileSandboxRuntimeInstance\<close>, which puts a boot volume
  before the volumes of the instance, to the GCP instance that is created or patched downstream.
\<close>

section \<open>What is written of a GCP instance\<close>

definition cos_disk :: boot_disk where
  "cos_disk = \<lparr>bd_auto_delete = True, bd_device = ''volume-0'',
     bd_image = ''projects/cos-cloud/global/images/cos-stable-117-18613-0-79'', bd_type = ''pd-standard'',
     bd_labels = [''volume_name'' \<mapsto> ''datum-boot''], bd_size = None\<rparr>"

text \<open>The injected boot volume gives the boot disk, if no other volume is populated from an image.\<close>

lemma build_volumes_boot:
  assumes "gp_images cfg = None" and "\<forall>v \<in> set vs. volume_image v = None"
  shows "build_volumes d (set_object_defaults tmp cfg) (i\<lparr>i_volumes := sandbox_boot_volume # vs\<rparr>) g =
    ret (g\<lparr>gi_boot_disk := Some cos_disk\<rparr>)"
proof -
  have "dec_nat 0 = ''0''" by code_simp
  with assms(1) show ?thesis
    by (simp add: build_volumes_def build_volumes_none [OF assms(2)] boot_disk_step_def cos_disk_def
        sandbox_boot_volume_def defaults_defs nil_map_def default_images_def)
qed

definition boots :: "obj \<Rightarrow> bool" where
  "boots x = (case pl x of BGcpInstance g \<Rightarrow> gi_boot_disk g = Some cos_disk | _ \<Rightarrow> True)"

text \<open>The GCP instance that a creation or a patch writes has the boot disk.\<close>

fun writes_boot :: "event \<Rightarrow> bool" where
  "writes_boot (ECreate s x r) = boots x"
| "writes_boot (EPatch s x y r) = boots y"
| "writes_boot e = True"

lemma boots_other: "obj_kind x \<noteq> KGcpInstance \<Longrightarrow> boots x"
  by (cases "pl x") (simp_all add: boots_def)

lemma boots_add_labels [simp]: "boots (add_labels ls x) = boots x"
  by (simp add: boots_def)

text \<open>
  A part of the reconciliation that marks what it makes for two names at once makes no GCP instance, whose marks
  hold the name.
\<close>

lemma boots_marked:
  assumes "marked rq x" and "marked rq' x" and "k_name (rq_key rq) \<noteq> k_name (rq_key rq')" shows "boots x"
  using assms by (intro boots_other) (auto simp: marked_def Let_def)

lemma boots_fits:
  assumes "fits rq e" and "fits rq' e" and "k_name (rq_key rq) \<noteq> k_name (rq_key rq')" shows "writes_boot e"
proof (cases e)
  case (ECreate s x r)
  then show ?thesis
    using assms by (cases s) (auto simp: fits_def kinds_at_def upstream_kinds_def intro: boots_marked boots_other)
next
  case (EPatch s x y r)
  then show ?thesis
    using assms by (cases s) (auto simp: fits_def kinds_at_def upstream_kinds_def intro: boots_marked boots_other)
qed simp_all

lemma boots_quiet:
  assumes "\<And>key. emits tr (fits \<lparr>rq_cluster = c, rq_key = key\<rparr>) m"
  shows "emits tr writes_boot m"
proof -
  let ?rq = "\<lambda>n. \<lparr>rq_cluster = c, rq_key = key_of [] n\<rparr>"
  have "hist tr (\<lambda>_ es. (\<forall>e \<in> set es. fits (?rq ''a'') e) \<and> (\<forall>e \<in> set es. fits (?rq ''b'') e)) m"
    using hist_conj [OF assms [unfolded emits_def] assms [unfolded emits_def]] .
  moreover have "writes_boot e" if "fits (?rq ''a'') e" "fits (?rq ''b'') e" for e
    using boots_fits [OF that] by simp
  ultimately show ?thesis unfolding emits_def by (auto elim!: hist_mono)
qed

lemma boots_create_service_account:
  assumes "create_or_update_law d"
  shows "emits trace writes_boot (create_as (mapped_client d (new_mapped d c ls)) service_account_c x)"
proof (rule boots_quiet)
  let ?x = "to_obj service_account_c x"
  have "marked \<lparr>rq_cluster = map_get (om_annotations (md ?x)) upstream_cluster_key, rq_key = key\<rparr> ?x" for key
    by (rule marked_cluster) simp_all
  then show "emits trace (fits \<lparr>rq_cluster = map_get (om_annotations (md ?x)) upstream_cluster_key, rq_key = key\<rparr>)
      (create_as (mapped_client d (new_mapped d c ls)) service_account_c x)" for key
    by (intro fits_create_as assms) simp_all
qed

section \<open>The GCP instance\<close>

text \<open>An instance with the injected boot volume, whose other volumes are populated from no image.\<close>

definition cos_volumes :: "inst \<Rightarrow> bool" where
  "cos_volumes i \<longleftrightarrow> (\<exists>vs. i_volumes i = sandbox_boot_volume # vs \<and> (\<forall>v \<in> set vs. volume_image v = None))"

lemma fill_boots:
  fixes d :: "'w deps"
  assumes "gp_images cfg = None" and "e_cfg e = set_object_defaults tmp cfg" and "cos_volumes (pl x)"
    and "fill_gcp_instance d e zone x cc meta sa g w = (Ok g', w')"
  shows "boots (to_obj gcp_instance_c g')"
proof -
  from assms(3) obtain vs where vs: "i_volumes (pl x) = sandbox_boot_volume # vs" "\<forall>v \<in> set vs. volume_image v = None"
    unfolding cos_volumes_def by blast
  have "pl x = (pl x)\<lparr>i_volumes := sandbox_boot_volume # vs\<rparr>" using vs(1) by simp
  then have "(build_volumes d (e_cfg e) (pl x) g :: ('w world, gcp_instance) act) = ret (g\<lparr>gi_boot_disk := Some cos_disk\<rparr>)" for g
    using build_volumes_boot [OF assms(1) vs(2), of d tmp "pl x" g] assms(2) by simp
  with assms(4) have "gi_boot_disk (pl g') = Some cos_disk"
    by (auto simp: fill_gcp_instance_def Let_def elim!: bindA_OkE split: option.splits)
  then show ?thesis by (simp add: boots_def to_obj_def codec_defs)
qed

lemma boots_create:
  assumes "create_or_update_law d" and "boots x"
  shows "emits trace writes_boot (mapped_create d (new_mapped d c ls) x)"
  unfolding mapped_create_def new_mapped_simps
  by (intro emits_bind emits_wrapE boots_quiet [OF fits_ensure_namespace [OF assms(1)]])
    (use assms(2) in \<open>auto simp: downstream_def intro!: emits_call\<close>)

lemma boots_gcp_instance_step:
  assumes "library_laws d" and "env_for d rq e" and "gp_images cfg = None" and "e_cfg e = set_object_defaults tmp cfg"
    and "cos_volumes (pl x)"
  shows "emits (\<lambda>(s, l). trace s) writes_boot (gcp_instance_step d e zone x cc meta sa)"
proof -
  let ?c = "\<lambda>ls. mapped_client d (new_mapped d (rq_cluster rq) ls)"
  have get: "emits trace writes_boot (cl_get (?c ls) k key)" for ls k key
    by (auto simp: downstream_def intro!: emits_call)
  have fill: "emits trace writes_boot (fill_gcp_instance d e zone x cc meta sa g)" for g
    unfolding fill_gcp_instance_def env_forD(1) [OF assms(2)] build_nics_def nic_step_def nic_context_def
    by (intro boots_quiet [OF fits_get_as(1)] hist_intros) simp_all
  note boot = fill_boots [OF assms(3-5)]
  have patch: "emits trace writes_boot (create_or_patch_as d (?c ls) gcp_instance_c y (fill_gcp_instance d e zone x cc meta sa))" for y ls
    by (rule emits_create_or_patch_as [OF library_lawsD(2) [OF assms(1)] codecs_ok(16)])
      (auto dest: fill_gcp_instance_key boot simp: downstream_def
        intro!: get fill emits_call boots_create library_lawsD(1) [OF assms(1)])
  have update: "emits trace writes_boot (update_as (?c ls) gcp_instance_c y)" for y ls
    by (auto simp: downstream_def intro!: emits_update_as emits_call)
  show ?thesis
    unfolding gcp_instance_step_def Let_def env_forD(1,3) [OF assms(2)]
    by (intro patch update boots_quiet [OF fits_sync] hist_intros)
qed

section \<open>The reconciliation\<close>

lemma boots_service_account:
  assumes "library_laws d" and "env_for d rq e"
  shows "emits trace writes_boot (workload_service_account d e)"
proof -
  have get: "emits trace writes_boot (get_or_zero d (mapped_client d (new_mapped d c ls)) service_account_c key z)" for c ls key z
    by (auto simp: downstream_def intro!: emits_get_or_zero emits_call)
  show ?thesis
    unfolding workload_service_account_def Let_def env_forD(3) [OF assms(2)]
    by (intro get boots_create_service_account hist_intros library_lawsD [OF assms(1)])
qed

lemma boots_instance_program:
  assumes "library_laws d" and "env_for d rq e" and "gp_images cfg = None" and "e_cfg e = set_object_defaults tmp cfg"
    and "cos_volumes (pl x)"
  shows "emits (\<lambda>(s, l). trace s) writes_boot (instance_program d e zone x cc meta)"
proof -
  have cluster: "e_cluster e = rq_cluster rq" using assms(2) by (simp add: env_for_def)
  have secrets: "emits (\<lambda>(s, l). trace s) writes_boot (reconcile_secrets d c (rq_cluster rq) project (upstream d u)
      (new_mapped_strategy d u ls) cc wl x sa)" for c project u ls cc wl sa
    by (rule boots_quiet [where c = "rq_cluster rq"])
      (use fits_reconcile_secrets [OF assms(1), of "\<lparr>rq_cluster = rq_cluster rq, rq_key = k\<rparr>" for k] in simp)
  show ?thesis
    unfolding instance_program_def Let_def env_forD [OF assms(2)] cluster new_mapped_strategy_client
      publish_programmed_def set_nic_status_def update_inst_def
    by (intro boots_quiet [OF fits_policies] boots_service_account [OF assms(1,2)] boots_quiet [OF fits_config_maps]
        secrets boots_gcp_instance_step [OF assms] hist_intros emits_eachA assms(1))
qed

lemma boots_reconcile_instance:
  assumes "library_laws d" and "env_for d rq e" and "gp_images cfg = None" and "e_cfg e = set_object_defaults tmp cfg"
    and "cos_volumes (pl x)"
  shows "emits trace writes_boot (reconcile_instance d e x cc meta)"
proof -
  have "emits trace writes_boot (defer_named l0 (publish_instance d (upstream d (rq_cluster rq)))
      (instance_program d e zone x cc meta))" for l0 zone
    by (rule emits_defer_named [where I = "\<lambda>_. True", OF stays_emits [OF _ boots_instance_program [OF assms]]])
      (auto simp: publish_instance_def keeps_def upstream_def intro!: emits_publish_condition emits_status_update_as emits_call)
  then show ?thesis
    unfolding reconcile_instance_def env_forD(1) [OF assms(2)]
    by (intro boots_quiet [OF fits_get_as(1)] hist_intros) simp_all
qed

lemma boots_instance_run:
  assumes "library_laws d" and "gp_images cfg = None" and "rt_sandbox (i_runtime (pl x)) = Some cs"
    and "\<forall>v \<in> set (i_volumes (pl x)). volume_image v = None"
  shows "emits trace writes_boot (instance_run d (set_object_defaults tmp cfg) rq project x)"
proof -
  let ?cfg = "set_object_defaults tmp cfg"
  have env: "env_for d rq \<lparr>e_cfg = ?cfg, e_cluster = rq_cluster rq, e_project = project, e_up = upstream d (rq_cluster rq),
      e_strategy = new_mapped_strategy d (rq_cluster rq) (dm_labels (gp_downstream ?cfg)),
      e_workload = wl, e_deployment = dep\<rparr>" for wl dep
    by (simp add: env_for_def)
  have pod: "emits trace P (sandbox_pod i cs)" for P i cs
    unfolding sandbox_pod_def sandbox_container_def sandbox_mount_def mount_disk_def disk_populator_of_def
      pod_volume_step_def Let_def
    by (intro hist_intros)
  have volumes: "cos_volumes ((pl x)\<lparr>i_volumes := sandbox_boot_volume # i_volumes (pl x)\<rparr>)"
    using assms(4) by (simp add: cos_volumes_def)
  show ?thesis
    unfolding instance_run_def Let_def sandbox_instance_def assms(3) option.case
    by (intro boots_quiet [OF fits_get_as(1)] pod boots_reconcile_instance [OF assms(1) env assms(2)] hist_intros)
      (simp_all add: volumes)
qed

section \<open>Property\<close>

text \<open>
  C31: A sandbox instance boots from the Container-Optimized OS image: if the configuration leaves the image map to
  its default and no volume of the instance is populated from an image, then every GCP instance that its
  reconciliation creates or patches has the boot disk of that image, whatever else the instance mounts.
\<close>

theorem sandbox_boots_cos:
  assumes "library_laws d" and "gp_images cfg = None" and "rt_sandbox (i_runtime (pl x)) = Some cs"
    and "\<forall>v \<in> set (i_volumes (pl x)). volume_image v = None"
    and "instance_run d (set_object_defaults tmp cfg) rq project x w = (r, w')"
  shows "\<exists>es. trace w' = trace w @ es \<and> (\<forall>s y z g ans.
    (ECreate s z ans \<in> set es \<or> EPatch s y z ans \<in> set es) \<and> pl z = BGcpInstance g \<longrightarrow>
    gi_boot_disk g = Some \<lparr>bd_auto_delete = True, bd_device = ''volume-0'',
      bd_image = ''projects/cos-cloud/global/images/cos-stable-117-18613-0-79'', bd_type = ''pd-standard'',
      bd_labels = [''volume_name'' \<mapsto> ''datum-boot''], bd_size = None\<rparr>)"
proof -
  from emitsE [OF boots_instance_run [OF assms(1-4)] assms(5)]
  obtain es where "trace w' = trace w @ es" "\<forall>e \<in> set es. writes_boot e" .
  then show ?thesis by (intro exI [of _ es]) (fastforce simp: boots_def cos_disk_def)
qed


text \<open>A sandbox instance whose service account is ready and whose GCP instance is not there yet.\<close>

definition booted_instance :: "inst kobj" where
  "booted_instance = (let y = live ''ns'' ''x'' ''u9'' BWorkload in as_kobj (y\<lparr>md := (md y)\<lparr>om_owners :=
     [\<lparr>or_kind = ''WorkloadDeployment'', or_name = ''dep'', or_uid = ''u2'', or_controller = True\<rparr>]\<rparr>\<rparr>) ref_inst)"

definition owned_deployment :: obj where
  "owned_deployment = (let y = live ''ns'' ''dep'' ''u2'' (BDeployment \<lparr>wd_nics = []\<rparr>) in y\<lparr>md := (md y)\<lparr>om_owners :=
     [\<lparr>or_kind = ''Workload'', or_name = ''x'', or_uid = ''u1'', or_controller = True\<rparr>]\<rparr>\<rparr>)"

definition ready_account :: obj where
  "ready_account = (let y = live [] ''workload-u1'' ''a1'' (BServiceAccount (pl zero_service_account)) in
     y\<lparr>md := (md y)\<lparr>om_annotations := [''external-create-succeeded'' \<mapsto> ''now'']\<rparr>\<rparr>)"

definition booted_world :: "store world" where
  "booted_world = on [ref_location, (tenant, owned_deployment), (tenant, live ''ns'' ''x'' ''u1'' BWorkload), (Downstream, ready_account)]"

definition booted_run :: "ctrl_result res \<times> store world" where
  "booted_run = instance_run ref_deps (set_object_defaults ''/tmp'' ref_cfg) ref_rq ''p'' booted_instance booted_world"

lemma booted_run_creates: "list_ex (makes KGcpInstance) (trace (snd booted_run))"
  by code_simp

theorem sandbox_boots_cos_witness:
  "\<exists>z ans g. ECreate Downstream z ans \<in> set (trace (snd booted_run)) \<and> pl z = BGcpInstance g \<and>
     gi_boot_disk g = Some \<lparr>bd_auto_delete = True, bd_device = ''volume-0'',
       bd_image = ''projects/cos-cloud/global/images/cos-stable-117-18613-0-79'', bd_type = ''pd-standard'',
       bd_labels = [''volume_name'' \<mapsto> ''datum-boot''], bd_size = None\<rparr>"
proof -
  from booted_run_creates obtain z ans where z: "ECreate Downstream z ans \<in> set (trace (snd booted_run))" "obj_kind z = KGcpInstance"
    by (auto simp: list_ex_iff elim!: makesE)
  then obtain g where g: "pl z = BGcpInstance g" by (cases "pl z") auto
  have facts: "gp_images ref_cfg = None" "rt_sandbox (i_runtime (pl booted_instance)) = Some []"
    "\<forall>v \<in> set (i_volumes (pl booted_instance)). volume_image v = None" "trace booted_world = []"
    by (simp_all add: ref_cfg_def booted_instance_def as_kobj_def ref_inst_def Let_def booted_world_def on_def)
  have "instance_run ref_deps (set_object_defaults ''/tmp'' ref_cfg) ref_rq ''p'' booted_instance booted_world =
      (fst booted_run, snd booted_run)" by (simp add: booted_run_def)
  from sandbox_boots_cos [OF ref_laws facts(1-3) this] z(1) g facts(4) show ?thesis by (metis append_Nil)
qed

end
