(* ===== verification/Spec2Isabelle.thy ===== *)
theory Spec2Isabelle
  imports Operator_System Scenarios Enqueue_Owner Watch_Handlers Main_Setup Release Names_And_Status Deep_Copy
    Access_Rules Populate_Secrets Conversation Subnet_Status Sandbox_Boot
begin

text \<open>
  A model of the GCP infrastructure provider of Datum Cloud: the operator that watches the workloads,
  networks, network contexts, subnets and instances of many tenant ("upstream") clusters, and realises
  them as Crossplane managed resources in one "downstream" cluster, whose own controllers create the
  resources on GCP. Sources are under \<open>src/\<close>; a theory names the file and function it is about.

  \<^bold>\<open>How the code is modelled.\<close> A Go function that talks to API servers is an action of \<open>Go_Prelude\<close>: a
  function from a state to a result, \<open>Ok\<close> a value, \<open>Fail\<close> an error or \<open>Panic\<close>, and the next state. Errors
  are the values of \<open>goerr\<close> (\<open>Wrapped\<close> is \<open>fmt.Errorf\<close> with \<open>%w\<close>); every early return, wrapped error and
  possible nil dereference or index out of range is a branch. Deferred closures over named or unnamed
  results are \<open>defer_named\<close> and \<open>defer_unnamed\<close>, on a record of the local variables they capture. The
  state is a \<open>world\<close>: the API servers' own state and the trace, the list of the calls made with what they
  answered. The API servers are a parameter (\<open>server\<close> in \<open>Api_Client\<close>): they may answer anything at any
  call, which is how errors, other clients and the passing of time come in. So are the libraries, fields of
  \<open>deps\<close>; what the code relies on of them is \<open>library_laws\<close>, documented behaviour of controller-runtime and
  apimachinery (\<open>CreateOrPatch\<close>, \<open>CreateOrUpdate\<close>, finalizers, status conditions, owner references, \<open>IsNotFound\<close>),
  and \<open>ref_laws\<close> in \<open>Reference_Server\<close> proves that a concrete library and an in-memory server satisfy it.

  \<^bold>\<open>The parts.\<close>
  \<^item> \<open>Go_Prelude\<close>, \<open>Go_Strings\<close>, \<open>Go_Encoding\<close>, \<open>Go_Json\<close>: errors, actions, loops, the rules that say which calls
    an action appends to the trace (\<open>hist\<close>, \<open>emits\<close>, \<open>okhist\<close>); strings, numbers, base64, FNV-1a, MD5 and
    JSON as the code uses them, on byte strings and 32-bit words.
  \<^item> \<open>Api_Types\<close>, \<open>Api_Client\<close>: the objects, as far as the code looks at them, and the client with its calls.
  \<^item> \<open>Resource_Strategy\<close> (\<open>internal/downstreamclient\<close>): mapped namespaces, the wrapped client that labels
    and creates namespaces, anchors and owner annotations; the same-cluster strategy. \<open>Enqueue_Owner\<close>: the
    handler that finds the owner again from those annotations.
  \<^item> \<open>Provider_Config\<close> (\<open>internal/config\<close>): the configuration and its defaults; \<open>Deep_Copy\<close>: its
    generated copying functions, on a heap with addresses. \<open>Location_Util\<close>: the gate on locations.
  \<^item> \<open>Workload_Controller\<close>, \<open>Network_Controller\<close>, \<open>Network_Context_Controller\<close>, \<open>Subnet_Controller\<close>: the whole
    \<open>Reconcile\<close> of each, finalizers and status updates included; \<open>Cleanup\<close> holds what they share.
  \<^item> \<open>Instance_Network\<close>, \<open>Cloud_Config\<close>, \<open>Instance_Cloud\<close>, \<open>Instance_Secrets\<close>, \<open>Instance_Power\<close>,
    \<open>Instance_Controller\<close>: the instance controller, in the order its parts build on each other: firewalls and
    interfaces, the cloud-init document, static pod, disks and mounts, secrets and their IAM bindings, power
    state and finalization, both runtimes and \<open>Reconcile\<close>.
  \<^item> \<open>Watch_Handlers\<close>: the map functions of the watches, the field indexes, and the typed handler of
    \<open>internal/handler\<close>. \<open>Controller_Setup\<close>: the watches of the \<open>SetupWithManager\<close> methods, and which requests
    follow from an event. \<open>Main_Setup\<close>: \<open>cmd/main.go\<close> as the sequence of its steps on a host.
  \<^item> \<open>Access_Rules\<close> (\<open>internal/controller/rbac\<close>): the rules of the two roles the operator runs with.
  \<^item> \<open>Python_Json\<close>, \<open>Populate_Secrets\<close> (\<open>internal/controller/cloudinit/populate_secrets.py\<close>): the script the
    cloud-init document takes to the instance, with the JSON reader of Python's library.
  \<^item> \<open>Operator_System\<close>: the composition. \<open>dispatch\<close> is the reconciler of each controller, and
    \<open>system_log\<close> the logs of an operator that reconciles any requests concurrently: each reconciliation runs
    from any world, and its calls are shuffled into those of the others.

  \<^bold>\<open>What is shown.\<close> \<open>Reconciler_Contract\<close> states as a locale what every reconciler promises, its scope
  and clean-up before release; each controller interprets it, and the properties of this theory lift it to
  every interleaving. \<open>Warrants\<close> and \<open>Gates\<close> are a calculus for "this call only after that answer"; they give
  the gate on locations and the finalizer before anything is made. \<open>Publication\<close> shows what the deferred
  status updates may say, and what becomes of their errors; \<open>Subnet_Status\<close> compares the subnet reconciler on two servers to show that its
  error is lost. \<open>Lifecycle\<close> relates the reconcilers to the state machine of an object that is unclaimed, claimed,
  doomed or free. \<open>Release\<close> shows that a doomed object is let go unless a call is answered by an error, and that
  reconciling settles; \<open>Conversation\<close> gives the calls of the workload and network reconcilers and their errors to
  the letter, as an agenda computed from the object read and the answers, without the reconcilers' functions. \<open>Names_And_Status\<close> holds bounds on names and on the
  status of an instance. The instance theories show that a pass over the network policies finds or makes a
  firewall for every ingress rule, that mounts name declared volumes, that files carry the data read, and that
  secrets are waited for; \<open>Sandbox_Boot\<close> follows the boot volume of a sandbox instance to the GCP instance. \<open>Footprint\<close> shows in one pass over all reconcilers which kinds a call may be for and what is
  written on a downstream object; on it rest \<open>Access_Rules\<close>, which compares the calls with the roles, and
  \<open>Controller_Setup\<close>, which shows that an event on what was made for an object enqueues this object and that what is
  waited for is watched. \<open>Populate_Secrets\<close> follows the secrets an instance mounts from the read of the operator to the
  files on the instance. Some properties state behaviour that is likely not meant: a named port ends the pass over the rules,
  an existing IAM member is not waited for, a cluster name with an underscore is not decoded back, the error
  of a subnet's status update is lost, a shrunken interface list panics, the upstream role denies the updates
  of finalizers, no event of a workload leads to its reconciliation, one secret without text keeps the later
  ones from the instance.

  \<^bold>\<open>Bounds.\<close> Every loop of the code is over a list and is structural recursion; the decimal digits of a number and
  the 64-byte blocks of MD5 (counted, and \<open>md5_pad_blocks\<close> shows that none is left over) are the only other
  recursions of the operator, and every definition is total. Fuel is used once, in the JSON reader of
  \<open>Python_Json\<close>: one more than the length of the text, and \<open>json_loads_text\<close> shows that it is enough to read back
  whatever the operator writes. \<open>Scenarios\<close> holds the concrete objects and worlds of the witnesses.

  \<^bold>\<open>Not modelled.\<close> Logging and tracing; the YAML encoder (a parameter); the HTTP requests of \<open>populate_secrets.py\<close>, whose
  answer is an argument; command-line parsing and the internals of the cluster providers and of the scheme,
  of which \<open>Main_Setup\<close> has the steps; panics inside started goroutines; an annotation constant that no code uses; the work queue and the cache of controller-runtime, other than that any request may be reconciled at any time and
  against any answer; GCP itself and Crossplane's controllers, whose effects are answers of the servers.
\<close>

section \<open>The operator\<close>

text \<open>
  C1: Whatever the API servers answer and however the reconciliations of all controllers interleave, when
  the operator writes an upstream object that is being deleted (the write that takes its finalizer away),
  the log already holds the clean-up of what the operator made for that object: for a workload its anchor,
  service account, secret and firewalls, for a network and a subnet the GCP network and subnetwork, for an
  instance the GCP instance, which Crossplane has let go of.
\<close>

theorem finalizer_after_cleanup:
  assumes "library_laws d" and "system_log d cfg cls h" and "h = pre @ x # post"
    and "en_event x = EUpdate (Upstream c) y r" and "om_deleted (md y) \<noteq> None"
  shows "clean_for d y (en_event ` set pre)"
proof -
  have removal: "entry_removal x" using assms(4,5) by simp
  with system_log_guarded [OF assms(1,2)] assms(3) have "entry_evidence d x (set pre)"
    unfolding guarded_def by blast
  then show ?thesis using assms(4,5) by (simp add: entry_evidence_def)
qed

text \<open>The log of one reconciliation of a deleted workload.\<close>

definition workload_log :: "entry list" where
  "workload_log = entries WorkloadCtl ref_rq (trace (snd (dispatch ref_deps ref_cfg [] WorkloadCtl ref_rq dying_workload)))"

lemma workload_log: "system_log ref_deps ref_cfg [] workload_log"
proof (rule system_log.reconcile [OF system_log.start])
  let ?run = "dispatch ref_deps ref_cfg [] WorkloadCtl ref_rq dying_workload"
  show "?run = (fst ?run, snd ?run)" by (rule prod.collapse [symmetric])
  show "trace (snd ?run) = trace dying_workload @ trace (snd ?run)"
    unfolding dying_workload_def on_def by simp
  show "workload_log \<in> shuffles [] (entries WorkloadCtl ref_rq (trace (snd ?run)))"
    unfolding workload_log_def by simp
qed

lemma workload_log_ends:
  "workload_log \<noteq> [] \<and> (case en_event (last workload_log) of
     EUpdate (Upstream c) y r \<Rightarrow> om_deleted (md y) \<noteq> None | _ \<Rightarrow> False)"
  by code_simp

theorem finalizer_after_cleanup_witness:
  "\<exists>c y r. en_event (last workload_log) = EUpdate (Upstream c) y r \<and> om_deleted (md y) \<noteq> None \<and>
     clean_for ref_deps y (en_event ` set (butlast workload_log))"
proof -
  from workload_log_ends obtain c y r where last: "en_event (last workload_log) = EUpdate (Upstream c) y r"
    "om_deleted (md y) \<noteq> None" "workload_log = butlast workload_log @ last workload_log # []"
    by (auto split: event.splits side.splits)
  with finalizer_after_cleanup [OF ref_laws workload_log last(3,1,2)] show ?thesis by blast
qed

text \<open>
  C2: Every call in a log of the operator is in the scope of the request it was made for: reads go to the
  request's upstream cluster and to the downstream one, objects are created downstream only and carry the
  managed labels, patches and deletions are downstream, and the only upstream object ever written is the
  one the request names. No reconciliation touches another tenant's cluster.
\<close>

theorem calls_in_scope:
  assumes "library_laws d" and "system_log d cfg cls h" and "x \<in> set h"
  shows "in_scope (managed_labels cfg) (controller_kind (en_controller x)) (en_request x) (en_event x)"
  using system_log_scoped [OF assms(1,2)] assms(3) by blast

theorem calls_in_scope_witness:
  "in_scope (managed_labels ref_cfg) KWorkload ref_rq (en_event (last workload_log))"
proof -
  have "last workload_log \<in> set workload_log" using workload_log_ends by simp
  moreover from this have "en_controller (last workload_log) = WorkloadCtl" "en_request (last workload_log) = ref_rq"
    by (auto simp: workload_log_def entries_def)
  ultimately show ?thesis using calls_in_scope [OF ref_laws workload_log, of "last workload_log"] by simp
qed

end
